(* ===== verification/Prelude.thy ===== *)
theory Prelude
  imports
    Main
    "HOL-Library.Word"
    "HOL-Library.AList"
    "HOL-Library.Char_ord"
    "HOL-Library.List_Lexorder"
    "HOL-Library.Product_Lexorder"
begin

text \<open>
  Shared vocabulary of the development: machine integers at their width, the
  \<open>Result\<close> type, the two map types of the Rust standard library, ordered sets and the
  string functions the sources call, with the generic lemmas that the component
  theories use.

  \<^item> Unsigned integers are words; \<open>+\<close>, \<open>-\<close> and \<open>*\<close> wrap, which is what the
    release profile of the workspace compiles them to. Lengths and vector indices
    (\<open>usize\<close>) are natural numbers.
  \<^item> A \<open>HashMap\<close> is an association list with distinct keys (\<open>hm_\<close> operations); no
    definition depends on the order of its entries.
  \<^item> A \<open>BTreeMap\<close> is an association list sorted by key (\<open>bt_\<close> operations), because the
    sources iterate over such maps in key order. A \<open>BTreeSet\<close> is a sorted list.
  \<^item> Strings are lists of bytes, compared lexicographically as Rust compares them.
\<close>

named_theorems hm_simps \<open>lookup after update and removal in hash maps and ordered maps\<close>
named_theorems ok_simps \<open>case analysis of results\<close>

subsection \<open>Machine integers and results\<close>

type_synonym u8 = "8 word"
type_synonym u32 = "32 word"
type_synonym u64 = "64 word"
type_synonym u128 = "128 word"
type_synonym bytes = "u8 list"

type_synonym ('a, 'e) Result = "'e + 'a"

abbreviation Ok :: "'a \<Rightarrow> ('a, 'e) Result" where "Ok \<equiv> Inr"
abbreviation Err :: "'e \<Rightarrow> ('a, 'e) Result" where "Err \<equiv> Inl"

text \<open>The question mark operator: go on with the value, or return the error.\<close>

fun and_then :: "('a, 'e) Result \<Rightarrow> ('a \<Rightarrow> ('b, 'e) Result) \<Rightarrow> ('b, 'e) Result" where
  "and_then (Inl e) f = Inl e"
| "and_then (Inr x) f = f x"

fun is_ok :: "('a, 'e) Result \<Rightarrow> bool" where
  "is_ok (Inr x) = True"
| "is_ok (Inl e) = False"

fun map_err :: "('e \<Rightarrow> 'f) \<Rightarrow> ('a, 'e) Result \<Rightarrow> ('a, 'f) Result" where
  "map_err f (Inl e) = Inl (f e)"
| "map_err f (Inr x) = Inr x"

lemma and_then_Ok [ok_simps]: "and_then r f = Inr y \<longleftrightarrow> (\<exists>x. r = Inr x \<and> f x = Inr y)"
  by (cases r) auto

lemma and_then_Err [ok_simps]:
  "and_then r f = Inl e \<longleftrightarrow> r = Inl e \<or> (\<exists>x. r = Inr x \<and> f x = Inl e)"
  by (cases r) auto

lemma is_ok_iff [ok_simps]: "is_ok r \<longleftrightarrow> (\<exists>x. r = Inr x)"
  by (cases r) auto

lemma map_err_Ok [ok_simps]: "map_err f r = Inr y \<longleftrightarrow> r = Inr y"
  by (cases r) auto

subsection \<open>Hash maps\<close>

type_synonym ('k, 'v) hashmap = "('k \<times> 'v) list"

abbreviation hm_get :: "('k, 'v) hashmap \<Rightarrow> 'k \<Rightarrow> 'v option" where
  "hm_get m k \<equiv> map_of m k"

abbreviation hm_insert :: "'k \<Rightarrow> 'v \<Rightarrow> ('k, 'v) hashmap \<Rightarrow> ('k, 'v) hashmap" where
  "hm_insert \<equiv> AList.update"

abbreviation hm_remove :: "'k \<Rightarrow> ('k, 'v) hashmap \<Rightarrow> ('k, 'v) hashmap" where
  "hm_remove \<equiv> AList.delete"

definition hm_contains :: "('k, 'v) hashmap \<Rightarrow> 'k \<Rightarrow> bool" where
  "hm_contains m k = (map_of m k \<noteq> None)"

definition hm_inv :: "('k, 'v) hashmap \<Rightarrow> bool" where
  "hm_inv m = distinct (map fst m)"

subsection \<open>Ordered maps\<close>

type_synonym ('k, 'v) btreemap = "('k \<times> 'v) list"

fun bt_insert :: "'k::linorder \<Rightarrow> 'v \<Rightarrow> ('k, 'v) btreemap \<Rightarrow> ('k, 'v) btreemap" where
  "bt_insert k v [] = [(k, v)]"
| "bt_insert k v (e # m) =
     (if fst e < k then e # bt_insert k v m
      else if fst e = k then (k, v) # m
      else (k, v) # e # m)"

definition bt_inv :: "('k::linorder, 'v) btreemap \<Rightarrow> bool" where
  "bt_inv m = sorted_wrt (<) (map fst m)"

text \<open>Collecting a sequence of entries: a later entry overwrites an earlier one.\<close>

definition bt_collect :: "('k::linorder \<times> 'v) list \<Rightarrow> ('k, 'v) btreemap" where
  "bt_collect es = fold (\<lambda>(k, v) m. bt_insert k v m) es []"

text \<open>
  \<open>entry(k).or_default().push(x)\<close> on a map into vectors, for both kinds of maps.
\<close>

definition hm_push :: "'k \<Rightarrow> 'v \<Rightarrow> ('k, 'v list) hashmap \<Rightarrow> ('k, 'v list) hashmap" where
  "hm_push k x m = hm_insert k ((case map_of m k of None \<Rightarrow> [] | Some xs \<Rightarrow> xs) @ [x]) m"

definition bt_push :: "'k::linorder \<Rightarrow> 'v \<Rightarrow> ('k, 'v list) btreemap \<Rightarrow> ('k, 'v list) btreemap" where
  "bt_push k x m = bt_insert k ((case map_of m k of None \<Rightarrow> [] | Some xs \<Rightarrow> xs) @ [x]) m"

text \<open>\<open>entry(k).or_default()\<close>: an absent key gets the given default.\<close>

definition bt_or_default :: "'k::linorder \<Rightarrow> 'v \<Rightarrow> ('k, 'v) btreemap \<Rightarrow> ('k, 'v) btreemap" where
  "bt_or_default k d m = (case map_of m k of None \<Rightarrow> bt_insert k d m | Some _ \<Rightarrow> m)"

lemma map_of_bt_insert [hm_simps]: "map_of (bt_insert k v m) = (map_of m)(k \<mapsto> v)"
  by (induction m) (auto simp: fun_eq_iff)

lemmas map_of_hm_insert [hm_simps] = update_conv'
lemmas map_of_hm_remove [hm_simps] = delete_conv'

lemma set_keys_bt_insert: "fst ` set (bt_insert k v m) = insert k (fst ` set m)"
  by (induction m) auto

lemma bt_inv_Nil [simp]: "bt_inv []"
  by (simp add: bt_inv_def)

lemma bt_inv_Cons: "bt_inv (e # m) \<longleftrightarrow> (\<forall>x \<in> fst ` set m. fst e < x) \<and> bt_inv m"
  by (simp add: bt_inv_def)

lemma bt_inv_insert [simp, intro]: "bt_inv m \<Longrightarrow> bt_inv (bt_insert k v m)"
  by (induction m) (auto simp: bt_inv_Cons set_keys_bt_insert)

lemma bt_inv_delete [simp, intro]: "bt_inv m \<Longrightarrow> bt_inv (AList.delete k m)"
  unfolding bt_inv_def delete_keys
  by (induction m) (auto simp: sorted_wrt_append)

lemma bt_inv_distinct: "bt_inv m \<Longrightarrow> distinct (map fst m)"
  by (simp add: bt_inv_def strict_sorted_iff)

lemma bt_inv_collect [simp]: "bt_inv (bt_collect es)"
proof -
  have "bt_inv m \<Longrightarrow> bt_inv (fold (\<lambda>(k, v) m. bt_insert k v m) es m)" for m :: "('a, 'b) btreemap"
    by (induction es arbitrary: m) auto
  then show ?thesis by (simp add: bt_collect_def)
qed

lemma hm_inv_Nil [simp]: "hm_inv []"
  by (simp add: hm_inv_def)

lemma hm_inv_insert [simp, intro]: "hm_inv m \<Longrightarrow> hm_inv (hm_insert k v m)"
  by (simp add: hm_inv_def distinct_update)

lemma hm_inv_remove [simp, intro]: "hm_inv m \<Longrightarrow> hm_inv (hm_remove k m)"
  by (simp add: hm_inv_def distinct_delete)

lemma length_hm_remove_less: "map_of m k \<noteq> None \<Longrightarrow> length (hm_remove k m) < length m"
proof (induction m)
  case (Cons e m)
  then show ?case
    using length_delete_le [of k m] by (cases e) (auto split: if_splits simp: less_Suc_eq_le)
qed simp

lemma length_hm_insert_same: "map_of m k \<noteq> None \<Longrightarrow> length (hm_insert k v m) = length m"
  by (induction m) (auto split: if_splits)

subsection \<open>The interface of a map\<close>

text \<open>
  What the clients rely on: lookups after an update and after a removal, and an
  invariant that the operations keep. The same laws hold of hash maps and of ordered
  maps, so facts about entry-wise updates are proved once.
\<close>

locale map_ops =
  fixes put :: "'k \<Rightarrow> 'v \<Rightarrow> ('k \<times> 'v) list \<Rightarrow> ('k \<times> 'v) list"
    and del :: "'k \<Rightarrow> ('k \<times> 'v) list \<Rightarrow> ('k \<times> 'v) list"
    and ok :: "('k \<times> 'v) list \<Rightarrow> bool"
  assumes ok_empty: "ok []"
    and ok_put: "ok m \<Longrightarrow> ok (put k v m)"
    and ok_del: "ok m \<Longrightarrow> ok (del k m)"
    and get_put: "map_of (put k v m) = (map_of m)(k \<mapsto> v)"
    and get_del: "map_of (del k m) = (map_of m)(k := None)"
    and ok_distinct: "ok m \<Longrightarrow> distinct (map fst m)"
begin

lemma get_put_other: "k' \<noteq> k \<Longrightarrow> map_of (put k v m) k' = map_of m k'"
  by (simp add: get_put)

lemma put_keys: "fst ` set (put k v m) = insert k (fst ` set m)"
  using get_put [of k v m] by (metis dom_fun_upd dom_map_of_conv_image_fst option.discI)

lemma ok_fold_put: "ok m \<Longrightarrow> ok (fold (\<lambda>(k, v). put k v) es m)"
  by (induction es arbitrary: m) (auto simp: ok_put)

lemma get_fold_put_notin:
  "k \<notin> fst ` set es \<Longrightarrow> map_of (fold (\<lambda>(k, v). put k v) es m) k = map_of m k"
  by (induction es arbitrary: m) (auto simp: get_put)

lemma get_fold_put_distinct:
  assumes "distinct (map fst es)"
  shows "map_of (fold (\<lambda>(k, v). put k v) es m) k =
    (case map_of es k of None \<Rightarrow> map_of m k | Some v \<Rightarrow> Some v)"
  using assms
proof (induction es arbitrary: m)
  case Nil
  then show ?case by simp
next
  case (Cons e es)
  obtain k' v' where e: "e = (k', v')" by force
  show ?case
  proof (cases "k = k'")
    case True
    with Cons.prems have "k \<notin> fst ` set es" by (simp add: e)
    with True show ?thesis by (simp add: e get_fold_put_notin get_put)
  next
    case False
    with Cons show ?thesis by (simp add: e get_put split: option.split)
  qed
qed

lemma in_set_iff_get: "ok m \<Longrightarrow> (k, v) \<in> set m \<longleftrightarrow> map_of m k = Some v"
  using ok_distinct by (metis map_of_is_SomeI map_of_SomeD)

end

interpretation hm: map_ops hm_insert hm_remove hm_inv
  by unfold_locales (auto simp: hm_simps hm_inv_def distinct_update distinct_delete)

interpretation bt: map_ops "bt_insert :: 'k::linorder \<Rightarrow> 'v \<Rightarrow> _" AList.delete bt_inv
  by unfold_locales (auto simp: hm_simps bt_inv_distinct)

lemma bt_collect_eq: "bt_collect es = fold (\<lambda>(k, v). bt_insert k v) es []"
  by (simp add: bt_collect_def case_prod_beta')

lemma bt_collect_get:
  "distinct (map fst es) \<Longrightarrow> map_of (bt_collect es) k = map_of es k"
  by (simp add: bt_collect_eq bt.get_fold_put_distinct split: option.split)

subsection \<open>Ordered sets\<close>

type_synonym 'a btreeset = "'a list"

abbreviation bs_insert :: "'a::linorder \<Rightarrow> 'a btreeset \<Rightarrow> 'a btreeset" where
  "bs_insert \<equiv> insort_insert"

definition bs_extend :: "'a::linorder list \<Rightarrow> 'a btreeset \<Rightarrow> 'a btreeset" where
  "bs_extend xs s = fold bs_insert xs s"

lemma set_bs_extend [simp]: "set (bs_extend xs s) = set xs \<union> set s"
  unfolding bs_extend_def by (induction xs arbitrary: s) (auto simp: set_insort_insert)

subsection \<open>Queues\<close>

text \<open>The first element of a queue (\<open>VecDeque::front\<close>).\<close>

definition front :: "'a list \<Rightarrow> 'a option" where
  "front v = (case v of [] \<Rightarrow> None | x # _ \<Rightarrow> Some x)"

lemma front_eq_Some: "front v = Some x \<longleftrightarrow> (\<exists>v'. v = x # v')"
  by (cases v) (auto simp: front_def)

lemma front_eq_None: "front v = None \<longleftrightarrow> v = []"
  by (cases v) (auto simp: front_def)

lemma front_simps [simp]: "front [] = None" "front (x # xs) = Some x"
  by (simp_all add: front_def)

lemma front_append: "front (xs @ ys) = (case front xs of None \<Rightarrow> front ys | Some x \<Rightarrow> Some x)"
  by (cases xs) simp_all

lemma front_in_set: "front xs = Some x \<Longrightarrow> x \<in> set xs"
  by (cases xs) simp_all

lemma front_map: "front (map f xs) = map_option f (front xs)"
  by (cases xs) simp_all

lemma bex_enumerate: "(\<exists>x \<in> set (enumerate 0 xs). P x) \<longleftrightarrow> (\<exists>i < length xs. P (i, xs ! i))"
  by (force simp: in_set_enumerate_eq)

subsection \<open>Strings\<close>

text \<open>\<open>str::split_once\<close> and \<open>str::rsplit_once\<close> with a one-character pattern.\<close>

fun split_once :: "char \<Rightarrow> string \<Rightarrow> (string \<times> string) option" where
  "split_once c [] = None"
| "split_once c (x # xs) =
     (if x = c then Some ([], xs)
      else (case split_once c xs of None \<Rightarrow> None | Some (a, b) \<Rightarrow> Some (x # a, b)))"

definition rsplit_once :: "char \<Rightarrow> string \<Rightarrow> (string \<times> string) option" where
  "rsplit_once c s =
     (case split_once c (rev s) of None \<Rightarrow> None | Some (a, b) \<Rightarrow> Some (rev b, rev a))"

definition str_contains :: "char \<Rightarrow> string \<Rightarrow> bool" where
  "str_contains c s = (c \<in> set s)"

text \<open>\<open>str::as_bytes\<close>.\<close>

definition as_bytes :: "string \<Rightarrow> bytes" where
  "as_bytes s = map of_char s"

text \<open>The decimal text of an unsigned integer.\<close>

definition digit :: "nat \<Rightarrow> char" where
  "digit d = char_of (48 + d)"

fun show_nat :: "nat \<Rightarrow> string" where
  "show_nat n = (if n < 10 then [digit n] else show_nat (n div 10) @ [digit (n mod 10)])"

declare show_nat.simps [simp del]

text \<open>The inverse: the number a text of decimal digits stands for.\<close>

definition read_nat :: "string \<Rightarrow> nat" where
  "read_nat s = foldl (\<lambda>n c. 10 * n + (of_char c - 48)) 0 s"

lemma read_digit: "d < 10 \<Longrightarrow> of_char (digit d) - 48 = d"
  by (simp add: digit_def)

lemma read_show_nat [simp]: "read_nat (show_nat n) = n"
proof (induction n rule: show_nat.induct)
  case (1 n)
  then show ?case
    by (subst show_nat.simps) (auto simp: read_nat_def read_digit)
qed

lemma show_nat_inject [simp]: "show_nat m = show_nat n \<longleftrightarrow> m = n"
  by (metis read_show_nat)

lemma split_once_Some: "split_once c s = Some (a, b) \<longleftrightarrow> s = a @ c # b \<and> c \<notin> set a"
proof (induction s arbitrary: a)
  case Nil
  then show ?case by simp
next
  case (Cons x xs)
  show ?case
  proof (cases a)
    case Nil
    then show ?thesis by (auto split: option.split)
  next
    case (Cons y ys)
    with Cons.IH [of ys] show ?thesis by (auto split: option.split)
  qed
qed

lemma split_once_None: "split_once c s = None \<longleftrightarrow> c \<notin> set s"
  by (induction s) (auto split: option.split)

lemma rsplit_once_Some: "rsplit_once c s = Some (a, b) \<longleftrightarrow> s = a @ c # b \<and> c \<notin> set b"
proof -
  have "rsplit_once c s = Some (a, b) \<longleftrightarrow> split_once c (rev s) = Some (rev b, rev a)"
    by (auto simp: rsplit_once_def split: option.split)
  also have "\<dots> \<longleftrightarrow> s = a @ c # b \<and> c \<notin> set b"
    by (auto simp: split_once_Some rev_eq_append_conv)
  finally show ?thesis .
qed

text \<open>\<open>str::split\<close> at every occurrence of a character, and \<open>str::ends_with\<close>.\<close>

fun split_str :: "char \<Rightarrow> string \<Rightarrow> string list" where
  "split_str c [] = [[]]"
| "split_str c (x # xs) =
     (if x = c then [] # split_str c xs
      else (case split_str c xs of [] \<Rightarrow> [[x]] | p # ps \<Rightarrow> (x # p) # ps))"

definition ends_with :: "string \<Rightarrow> string \<Rightarrow> bool" where
  "ends_with s suffix = (length suffix \<le> length s \<and> drop (length s - length suffix) s = suffix)"

text \<open>\<open>str::from_utf8\<close>: the well-formed byte sequences.\<close>

definition between :: "u8 \<Rightarrow> u8 \<Rightarrow> u8 \<Rightarrow> bool" where
  "between lo hi b = (lo \<le> b \<and> b \<le> hi)"

fun utf8_ok :: "bytes \<Rightarrow> bool" where
  "utf8_ok [] = True"
| "utf8_ok (a # r) =
     (if a < 0x80 then utf8_ok r
      else if between 0xC2 0xDF a then
        (case r of b # r1 \<Rightarrow> between 0x80 0xBF b \<and> utf8_ok r1 | _ \<Rightarrow> False)
      else if between 0xE0 0xEF a then
        (case r of b # c # r2 \<Rightarrow>
           (if a = 0xE0 then between 0xA0 0xBF b else if a = 0xED then between 0x80 0x9F b else between 0x80 0xBF b) \<and>
           between 0x80 0xBF c \<and> utf8_ok r2 | _ \<Rightarrow> False)
      else if between 0xF0 0xF4 a then
        (case r of b # c # d # r3 \<Rightarrow>
           (if a = 0xF0 then between 0x90 0xBF b else if a = 0xF4 then between 0x80 0x8F b else between 0x80 0xBF b) \<and>
           between 0x80 0xBF c \<and> between 0x80 0xBF d \<and> utf8_ok r3 | _ \<Rightarrow> False)
      else False)"

definition from_utf8 :: "bytes \<Rightarrow> string option" where
  "from_utf8 bs = (if utf8_ok bs then Some (map (\<lambda>b. char_of (unat b)) bs) else None)"

lemma split_str_once:
  "split_str c s = (case split_once c s of None \<Rightarrow> [s] | Some (a, b) \<Rightarrow> a # split_str c b)"
  by (induction s) (auto split: option.splits list.splits)

lemma split_str_none: "c \<notin> set s \<Longrightarrow> split_str c s = [s]"
  by (subst split_str_once) (simp add: split_once_None [THEN iffD2])

lemma split_str_append: "c \<notin> set a \<Longrightarrow> split_str c (a @ c # b) = a # split_str c b"
proof -
  assume "c \<notin> set a"
  then have "split_once c (a @ c # b) = Some (a, b)" by (simp add: split_once_Some)
  then show ?thesis by (subst split_str_once) simp
qed

lemma from_utf8_ascii:
  assumes "list_all (\<lambda>ch. of_char ch < (128 :: nat)) s"
  shows "from_utf8 (as_bytes s) = Some s"
proof -
  have ch: "unat (of_char c :: u8) = of_char c" for c
    by (simp add: of_char_def)
  have "utf8_ok (as_bytes s)"
    using assms by (induction s) (auto simp: as_bytes_def word_less_nat_alt ch)
  then show ?thesis by (simp add: from_utf8_def as_bytes_def ch comp_def)
qed

subsection \<open>Vectors\<close>

text \<open>\<open>Iterator::position\<close> and \<open>Vec::remove\<close> at an index in range.\<close>

fun position :: "('a \<Rightarrow> bool) \<Rightarrow> 'a list \<Rightarrow> nat option" where
  "position P [] = None"
| "position P (x # xs) = (if P x then Some 0 else map_option Suc (position P xs))"

definition vec_remove :: "'a list \<Rightarrow> nat \<Rightarrow> 'a list" where
  "vec_remove xs i = take i xs @ drop (Suc i) xs"

lemma position_Some: "position P xs = Some i \<longleftrightarrow> i < length xs \<and> P (xs ! i) \<and> (\<forall>j < i. \<not> P (xs ! j))"
proof (induction xs arbitrary: i)
  case (Cons x xs)
  show ?case
  proof (cases "P x")
    case True
    then show ?thesis by (auto simp: less_Suc_eq_0_disj)
  next
    case False
    then show ?thesis by (cases i) (auto simp: Cons.IH less_Suc_eq_0_disj)
  qed
qed simp

lemma position_None: "position P xs = None \<longleftrightarrow> list_all (\<lambda>x. \<not> P x) xs"
  by (induction xs) auto

lemma vec_remove_split: "i < length xs \<Longrightarrow> xs = take i xs @ xs ! i # drop (Suc i) xs"
  by (simp add: id_take_nth_drop)

subsection \<open>Readers\<close>

text \<open>
  A reader takes a value off the front of a slice, or fails; \<open>borsh::from_slice\<close> runs a
  reader and requires that it consumes the slice.
\<close>

type_synonym 'a reader = "bytes \<Rightarrow> ('a \<times> bytes) option"

definition from_slice :: "'a reader \<Rightarrow> bytes \<Rightarrow> 'a option" where
  "from_slice rd d = (case rd d of None \<Rightarrow> None | Some (x, rest) \<Rightarrow> if rest = [] then Some x else None)"

lemma from_slice_Some: "from_slice rd d = Some x \<longleftrightarrow> rd d = Some (x, [])"
  by (auto simp: from_slice_def split: option.splits)

end
