(* ===== verification/Hyle_Model.thy ===== *)
theory Hyle_Model
  imports Prelude
begin

text \<open>
  The data model shared by the node and the contracts (crate \<open>hyle-model\<close>): names and
  hashes, blobs, proof outputs, contracts, transactions, blocks and consensus
  proposals, with the functions defined on them (identity check, hashing, blob-hash
  inclusion, the order on timeout windows, iteration over the transactions of a block).

  Newtypes over strings and byte vectors are type synonyms. Record fields carry a short
  prefix because several structs share field names. The caches of computed hashes
  (\<open>hash_cache\<close>, \<open>blobshash_cache\<close>) are left out: they never change a result.

  Code of other crates is a field of the record \<open>Env\<close>, an argument of every
  definition that calls it: the borsh decoders and encoders, the hash functions, hex, the
  signature libraries, the program-id validators of the proof systems and the process
  environment.
\<close>

subsection \<open>Names, hashes and keys\<close>

type_synonym ContractName = string
type_synonym TxHash = string
type_synonym Identity = string
type_synonym Verifier = string
type_synonym DataProposalHash = string
type_synonym ConsensusProposalHash = string
type_synonym BlobHash = string
type_synonym ProofDataHash = string
type_synonym ProgramId = bytes
type_synonym StateCommitment = bytes
type_synonym BlobData = bytes
type_synonym ProofData = bytes
type_synonym BlobIndex = nat
type_synonym BlockHeight = u64
type_synonym ValidatorPublicKey = bytes
type_synonym LaneId = ValidatorPublicKey
type_synonym LaneBytesSize = u64
type_synonym TimestampMs = u128
type_synonym TxId = "DataProposalHash \<times> TxHash"

definition HASH_DISPLAY_SIZE :: nat where
  "HASH_DISPLAY_SIZE = 3"

definition HYLE_TESTNET_CHAIN_ID :: u128 where
  "HYLE_TESTNET_CHAIN_ID = 0x68796C655F746573746E6574"

subsection \<open>Blobs\<close>

record Blob =
  b_contract_name :: ContractName
  b_data :: BlobData

type_synonym IndexedBlobs = "(BlobIndex \<times> Blob) list"

definition IndexedBlobs_get :: "IndexedBlobs \<Rightarrow> BlobIndex \<Rightarrow> Blob option" where
  "IndexedBlobs_get ibs i = map_option snd (find (\<lambda>(j, _). j = i) ibs)"

definition IndexedBlobs_from :: "Blob list \<Rightarrow> IndexedBlobs" where
  "IndexedBlobs_from bs = enumerate 0 bs"

record 'a StructuredBlobData =
  sd_caller :: "BlobIndex option"
  sd_callees :: "BlobIndex list option"
  sd_parameters :: 'a

record 'a StructuredBlob =
  sb_contract_name :: ContractName
  sb_data :: "'a StructuredBlobData"

subsection \<open>Timeout windows\<close>

datatype TimeoutWindow = NoTimeout | Timeout BlockHeight

definition TimeoutWindow_default :: TimeoutWindow where
  "TimeoutWindow_default = Timeout 100"

datatype Ordering = Less | Equal | Greater

fun TimeoutWindow_cmp :: "TimeoutWindow \<Rightarrow> TimeoutWindow \<Rightarrow> Ordering" where
  "TimeoutWindow_cmp NoTimeout NoTimeout = Equal"
| "TimeoutWindow_cmp (Timeout _) NoTimeout = Less"
| "TimeoutWindow_cmp NoTimeout (Timeout _) = Greater"
| "TimeoutWindow_cmp (Timeout a) (Timeout b) =
     (if a < b then Less else if a = b then Equal else Greater)"

text \<open>The library's order on timeout windows is the one of the source.\<close>

instantiation TimeoutWindow :: linorder
begin

definition less_eq_TimeoutWindow :: "TimeoutWindow \<Rightarrow> TimeoutWindow \<Rightarrow> bool" where
  "less_eq_TimeoutWindow a b = (TimeoutWindow_cmp a b \<noteq> Greater)"

definition less_TimeoutWindow :: "TimeoutWindow \<Rightarrow> TimeoutWindow \<Rightarrow> bool" where
  "less_TimeoutWindow a b = (TimeoutWindow_cmp a b = Less)"

instance
proof
  fix x y z :: TimeoutWindow
  show "x < y \<longleftrightarrow> x \<le> y \<and> \<not> y \<le> x"
    by (cases x; cases y) (auto simp: less_TimeoutWindow_def less_eq_TimeoutWindow_def)
  show "x \<le> x"
    by (cases x) (auto simp: less_eq_TimeoutWindow_def)
  show "x \<le> y \<Longrightarrow> y \<le> z \<Longrightarrow> x \<le> z"
    by (cases x; cases y; cases z) (auto simp: less_eq_TimeoutWindow_def split: if_splits)
  show "x \<le> y \<Longrightarrow> y \<le> x \<Longrightarrow> x = y"
    by (cases x; cases y) (auto simp: less_eq_TimeoutWindow_def split: if_splits)
  show "x \<le> y \<or> y \<le> x"
    by (cases x; cases y) (auto simp: less_eq_TimeoutWindow_def)
qed

end

lemma Timeout_le_simps [simp]:
  "Timeout a \<le> Timeout b \<longleftrightarrow> a \<le> b"
  "w \<le> NoTimeout"
  "NoTimeout \<le> w \<longleftrightarrow> w = NoTimeout"
  by (cases w; auto simp: less_eq_TimeoutWindow_def)+

subsection \<open>Contract actions and effects\<close>

record RegisterContractAction =
  ra_verifier :: Verifier
  ra_program_id :: ProgramId
  ra_state_commitment :: StateCommitment
  ra_contract_name :: ContractName
  ra_timeout_window :: "TimeoutWindow option"
  ra_constructor_metadata :: "bytes option"

record UpdateContractProgramIdAction =
  up_contract_name :: ContractName
  up_program_id :: ProgramId

record UpdateContractTimeoutWindowAction =
  uw_contract_name :: ContractName
  uw_timeout_window :: TimeoutWindow

record DeleteContractAction =
  da_contract_name :: ContractName

record RegisterContractEffect =
  re_verifier :: Verifier
  re_program_id :: ProgramId
  re_state_commitment :: StateCommitment
  re_contract_name :: ContractName
  re_timeout_window :: "TimeoutWindow option"

definition RegisterContractEffect_from :: "RegisterContractAction \<Rightarrow> RegisterContractEffect" where
  "RegisterContractEffect_from a =
     \<lparr>re_verifier = ra_verifier a,
      re_program_id = ra_program_id a,
      re_state_commitment = ra_state_commitment a,
      re_contract_name = ra_contract_name a,
      re_timeout_window = ra_timeout_window a\<rparr>"

datatype OnchainEffect =
    RegisterContract RegisterContractEffect
  | DeleteContract ContractName

record TxContext =
  tc_lane_id :: LaneId
  tc_block_hash :: ConsensusProposalHash
  tc_block_height :: BlockHeight
  tc_timestamp :: TimestampMs
  tc_chain_id :: u128

record HyleOutput =
  ho_version :: u32
  ho_initial_state :: StateCommitment
  ho_next_state :: StateCommitment
  ho_identity :: Identity
  ho_index :: BlobIndex
  ho_blobs :: IndexedBlobs
  ho_tx_blob_count :: nat
  ho_tx_hash :: TxHash
  ho_success :: bool
  ho_state_reads :: "(ContractName \<times> StateCommitment) list"
  ho_tx_ctx :: "TxContext option"
  ho_onchain_effects :: "OnchainEffect list"
  ho_program_outputs :: bytes

record NukeTxAction =
  nk_txs :: "(TxHash, HyleOutput list) btreemap"

record Calldata =
  cd_tx_hash :: TxHash
  cd_identity :: Identity
  cd_blobs :: IndexedBlobs
  cd_tx_blob_count :: nat
  cd_index :: BlobIndex
  cd_tx_ctx :: "TxContext option"
  cd_private_input :: bytes

subsection \<open>Staking actions\<close>

record RewardsClaim =
  rc_block_heights :: "BlockHeight list"

datatype StakingAction =
    Stake u128
  | Delegate ValidatorPublicKey
  | Distribute RewardsClaim
  | DepositForFees ValidatorPublicKey u128

subsection \<open>Contracts and unsettled transactions\<close>

record Contract =
  c_name :: ContractName
  c_program_id :: ProgramId
  c_state :: StateCommitment
  c_verifier :: Verifier
  c_timeout_window :: TimeoutWindow

type_synonym BlobsHashes = "(BlobIndex, BlobHash) btreemap"

record UnsettledBlobMetadata =
  um_blob :: Blob
  um_possible_proofs :: "(ProgramId \<times> HyleOutput) list"

record UnsettledBlobTransaction =
  ut_identity :: Identity
  ut_parent_dp_hash :: DataProposalHash
  ut_hash :: TxHash
  ut_tx_context :: TxContext
  ut_blobs_hash :: BlobsHashes
  ut_blobs :: "(BlobIndex, UnsettledBlobMetadata) btreemap"

record HandledBlobProofOutput =
  hb_proof_tx_hash :: TxHash
  hb_blob_tx_hash :: TxHash
  hb_blob_index :: BlobIndex
  hb_contract_name :: ContractName
  hb_hyle_output :: HyleOutput
  hb_blob_proof_output_index :: nat

record BlobProofOutput =
  bp_blob_tx_hash :: TxHash
  bp_original_proof_hash :: ProofDataHash
  bp_hyle_output :: HyleOutput
  bp_program_id :: ProgramId

subsection \<open>Transactions\<close>

record BlobTransaction =
  btx_identity :: Identity
  btx_blobs :: "Blob list"

record ProofTransaction =
  pt_contract_name :: ContractName
  pt_proof :: ProofData

record VerifiedProofTransaction =
  vp_contract_name :: ContractName
  vp_proof :: "ProofData option"
  vp_proof_hash :: ProofDataHash
  vp_proof_size :: nat
  vp_proven_blobs :: "BlobProofOutput list"
  vp_is_recursive :: bool

datatype TransactionData =
    TD_Blob BlobTransaction
  | TD_Proof ProofTransaction
  | TD_VerifiedProof VerifiedProofTransaction

record Transaction =
  tx_version :: u32
  tx_transaction_data :: TransactionData

definition Transaction_wrap :: "TransactionData \<Rightarrow> Transaction" where
  "Transaction_wrap d = \<lparr>tx_version = 1, tx_transaction_data = d\<rparr>"

subsection \<open>Native verifiers\<close>

datatype NativeVerifiers = Blst | Sha3_256 | Secp256k1

definition NATIVE_VERIFIERS_CONTRACT_LIST :: "string list" where
  "NATIVE_VERIFIERS_CONTRACT_LIST = [''blst'', ''sha3_256'', ''secp256k1'']"

fun ProgramId_from_NativeVerifiers :: "NativeVerifiers \<Rightarrow> ProgramId" where
  "ProgramId_from_NativeVerifiers Blst = as_bytes ''blst''"
| "ProgramId_from_NativeVerifiers Sha3_256 = as_bytes ''sha3_256''"
| "ProgramId_from_NativeVerifiers Secp256k1 = as_bytes ''secp256k1''"

definition NativeVerifiers_try_from :: "Verifier \<Rightarrow> NativeVerifiers option" where
  "NativeVerifiers_try_from v =
     (if v = ''blst'' then Some Blst
      else if v = ''sha3_256'' then Some Sha3_256
      else if v = ''secp256k1'' then Some Secp256k1
      else None)"

record BlstSignatureBlob =
  bs_identity :: Identity
  bs_data :: bytes
  bs_signature :: bytes
  bs_public_key :: bytes

record ShaBlob =
  sh_identity :: Identity
  sh_data :: bytes
  sh_sha :: bytes

record Secp256k1Blob =
  sp_identity :: Identity
  sp_data :: bytes
  sp_public_key :: bytes
  sp_signature :: bytes

subsection \<open>Code of other crates\<close>

text \<open>
  One field per external function. A decoder returns \<open>None\<close> where \<open>borsh::from_slice\<close>
  returns an error, the library checks return whether the library accepts its input.
\<close>

record Env =
  sha3_256 :: "bytes \<Rightarrow> bytes"
  sha2_256 :: "bytes \<Rightarrow> bytes"
  hex_encode :: "bytes \<Rightarrow> string"
  hex_decode :: "string \<Rightarrow> bytes option"
  dec_register :: "bytes \<Rightarrow> RegisterContractAction StructuredBlobData option"
  dec_delete :: "bytes \<Rightarrow> DeleteContractAction StructuredBlobData option"
  dec_update_program_id :: "bytes \<Rightarrow> UpdateContractProgramIdAction StructuredBlobData option"
  dec_update_timeout_window :: "bytes \<Rightarrow> UpdateContractTimeoutWindowAction StructuredBlobData option"
  dec_nuke :: "bytes \<Rightarrow> NukeTxAction StructuredBlobData option"
  dec_staking :: "bytes \<Rightarrow> StakingAction StructuredBlobData option"
  enc_nuke_txs :: "(TxHash, HyleOutput list) btreemap \<Rightarrow> bytes option"
  dec_blst_blob :: "bytes \<Rightarrow> BlstSignatureBlob option"
  dec_sha_blob :: "bytes \<Rightarrow> ShaBlob option"
  dec_secp_blob :: "bytes \<Rightarrow> Secp256k1Blob option"
  enc_byte_vec :: "bytes \<Rightarrow> bytes option"
  blst_pk_ok :: "bytes \<Rightarrow> bool"
  blst_sig_ok :: "bytes \<Rightarrow> bool"
  blst_sig_verify :: "bytes \<Rightarrow> bytes \<Rightarrow> bytes \<Rightarrow> bool"
  secp_pk_ok :: "bytes \<Rightarrow> bool"
  secp_sig_ok :: "bytes \<Rightarrow> bool"
  secp_verify_ecdsa :: "bytes \<Rightarrow> bytes \<Rightarrow> bytes \<Rightarrow> bool"
  risc0_digest_ok :: "ProgramId \<Rightarrow> bool"
  sp1_vk_ok :: "ProgramId \<Rightarrow> bool"
  env_HYLI_TLD_PUBKEY :: "string option"

subsection \<open>Hashing\<close>

text \<open>\<open>to_le_bytes\<close> of an integer of \<open>n\<close> bytes.\<close>

definition to_le_bytes :: "nat \<Rightarrow> nat \<Rightarrow> bytes" where
  "to_le_bytes n x = map (\<lambda>i. word_of_nat (x div 256 ^ i)) [0..<n]"

definition Blob_hashed :: "Env \<Rightarrow> Blob \<Rightarrow> BlobHash" where
  "Blob_hashed E b = hex_encode E (sha3_256 E (as_bytes (b_contract_name b) @ b_data b))"

definition BlobTransaction_hashed :: "Env \<Rightarrow> BlobTransaction \<Rightarrow> TxHash" where
  "BlobTransaction_hashed E tx =
     hex_encode E (sha3_256 E (as_bytes (btx_identity tx) @
       concat (map (\<lambda>b. as_bytes (Blob_hashed E b)) (btx_blobs tx))))"

definition ProofData_hashed :: "Env \<Rightarrow> ProofData \<Rightarrow> ProofDataHash" where
  "ProofData_hashed E p = hex_encode E (sha3_256 E p)"

definition ProofTransaction_hashed :: "Env \<Rightarrow> ProofTransaction \<Rightarrow> TxHash" where
  "ProofTransaction_hashed E tx =
     hex_encode E (sha3_256 E (as_bytes (pt_contract_name tx) @
       as_bytes (ProofData_hashed E (pt_proof tx))))"

fun hash_timeout_window :: "TimeoutWindow option \<Rightarrow> bytes" where
  "hash_timeout_window None = []"
| "hash_timeout_window (Some NoTimeout) = to_le_bytes 1 0"
| "hash_timeout_window (Some (Timeout bh)) = to_le_bytes 8 (unat bh)"

definition RegisterContractAction_hashed :: "Env \<Rightarrow> RegisterContractAction \<Rightarrow> TxHash" where
  "RegisterContractAction_hashed E r =
     hex_encode E (sha3_256 E (as_bytes (ra_verifier r) @ ra_program_id r @ ra_state_commitment r @
       as_bytes (ra_contract_name r) @ hash_timeout_window (ra_timeout_window r)))"

definition RegisterContractEffect_hashed :: "Env \<Rightarrow> RegisterContractEffect \<Rightarrow> TxHash" where
  "RegisterContractEffect_hashed E r =
     hex_encode E (sha3_256 E (as_bytes (re_verifier r) @ re_program_id r @ re_state_commitment r @
       as_bytes (re_contract_name r) @ hash_timeout_window (re_timeout_window r)))"

fun hash_onchain_effect :: "Env \<Rightarrow> OnchainEffect \<Rightarrow> bytes" where
  "hash_onchain_effect E (RegisterContract c) = as_bytes (RegisterContractEffect_hashed E c)"
| "hash_onchain_effect E (DeleteContract cn) = as_bytes cn"

definition HyleOutput_hashed :: "Env \<Rightarrow> HyleOutput \<Rightarrow> bytes" where
  "HyleOutput_hashed E ho =
     sha3_256 E (to_le_bytes 4 (unat (ho_version ho)) @ ho_initial_state ho @ ho_next_state ho @
       as_bytes (ho_identity ho) @ to_le_bytes 8 (ho_index ho) @
       concat (map (\<lambda>(i, b). to_le_bytes 8 i @ as_bytes (b_contract_name b) @ b_data b) (ho_blobs ho)) @
       [if ho_success ho then 1 else 0] @
       to_le_bytes 8 (length (ho_onchain_effects ho)) @
       concat (map (hash_onchain_effect E) (ho_onchain_effects ho)) @
       ho_program_outputs ho)"

definition BlobProofOutput_hashed :: "Env \<Rightarrow> BlobProofOutput \<Rightarrow> bytes" where
  "BlobProofOutput_hashed E p =
     sha3_256 E (as_bytes (bp_blob_tx_hash p) @ as_bytes (bp_original_proof_hash p) @
       bp_program_id p @ HyleOutput_hashed E (bp_hyle_output p))"

definition VerifiedProofTransaction_hashed :: "Env \<Rightarrow> VerifiedProofTransaction \<Rightarrow> TxHash" where
  "VerifiedProofTransaction_hashed E tx =
     hex_encode E (sha3_256 E (as_bytes (vp_contract_name tx) @ as_bytes (vp_proof_hash tx) @
       to_le_bytes 8 (length (vp_proven_blobs tx)) @
       concat (map (BlobProofOutput_hashed E) (vp_proven_blobs tx))))"

definition Transaction_hashed :: "Env \<Rightarrow> Transaction \<Rightarrow> TxHash" where
  "Transaction_hashed E tx =
     (case tx_transaction_data tx of
        TD_Blob t \<Rightarrow> BlobTransaction_hashed E t
      | TD_Proof t \<Rightarrow> ProofTransaction_hashed E t
      | TD_VerifiedProof t \<Rightarrow> VerifiedProofTransaction_hashed E t)"

subsection \<open>Blob hashes and the identity of a transaction\<close>

definition BlobsHashes_from_blobs :: "Env \<Rightarrow> Blob list \<Rightarrow> BlobsHashes" where
  "BlobsHashes_from_blobs E bs = bt_collect (map (\<lambda>(i, b). (i, Blob_hashed E b)) (enumerate 0 bs))"

definition BlobsHashes_from_indexed :: "Env \<Rightarrow> IndexedBlobs \<Rightarrow> BlobsHashes" where
  "BlobsHashes_from_indexed E ibs = bt_collect (map (\<lambda>(i, b). (i, Blob_hashed E b)) ibs)"

definition blobs_hash :: "Env \<Rightarrow> BlobTransaction \<Rightarrow> BlobsHashes" where
  "blobs_hash E tx = BlobsHashes_from_blobs E (btx_blobs tx)"

definition includes_all :: "BlobsHashes \<Rightarrow> BlobsHashes \<Rightarrow> bool" where
  "includes_all self other =
     list_all (\<lambda>(index, hash).
       list_ex (\<lambda>(other_index, other_hash). index = other_index \<and> hash = other_hash) self) other"

datatype IdentityError =
    IdentityMalformed
  | IdentityEmptyPart
  | IdentityBlobMissing ContractName

definition validate_identity :: "BlobTransaction \<Rightarrow> (unit, IdentityError) Result" where
  "validate_identity tx =
     (case rsplit_once CHR ''@'' (btx_identity tx) of
        None \<Rightarrow> Err IdentityMalformed
      | Some (identity, identity_contract_name) \<Rightarrow>
          if identity = [] \<or> identity_contract_name = [] then Err IdentityEmptyPart
          else if \<not> list_ex (\<lambda>b. b_contract_name b = identity_contract_name) (btx_blobs tx)
          then Err (IdentityBlobMissing identity_contract_name)
          else Ok ())"

end
