(* ===== verification/Hyle_Block.thy ===== *)
theory Hyle_Block
  imports Hyle_Model
begin

text \<open>
  Blocks and consensus proposals (crate \<open>hyle-model\<close>, files \<open>block.rs\<close>, \<open>node/mempool.rs\<close>,
  \<open>node/consensus.rs\<close>, \<open>node/crypto.rs\<close> and the events of \<open>node/data_availability.rs\<close>).

  The node reports errors as formatted strings, inside \<open>anyhow::Error\<close> and inside the
  events it attaches to transactions. Here each place that builds such a message is a
  constructor of \<open>NodeError\<close> carrying the values it prints, so that every error
  path of the source is a distinct value.
\<close>

subsection \<open>Error messages as data\<close>

datatype SecpError =
    SecpInvalidIndex
  | SecpInvalidContractName
  | SecpMissing
  | SecpUndecodable
  | SecpIdentityMismatch
  | SecpDataMismatch

datatype HyleBlobError =
    UnauthorizedHyleAction Identity
  | NukeTxsUnserializable
  | NukeSignatureRejected SecpError
  | PubkeyNotSet
  | PubkeyNotHex
  | NotSignedByHyli bytes
  | UnsupportedHyleAction Blob

datatype NodeError =
    BadBlockHeight BlockHeight BlockHeight
  | IdentityInvalid IdentityError
  | NoBlobs
  | InvalidHyleBlobs HyleBlobError
  | UnknownContracts "ContractName list"
  | BlobTxNotFound TxHash
  | BlobNotInTx BlobIndex TxHash
  | ProofIdentityMismatch Identity Identity
  | ProofTxHashMismatch TxHash TxHash
  | ProofTxContextMismatch
  | ProofBlobsHashMismatch
  | BlobIndexOutOfBounds
  | RegisterWithoutEffect BlobIndex
  | RegisterEffectMismatch BlobIndex
  | RegisterOtherEffect BlobIndex
  | DeleteWithoutEffect BlobIndex
  | DeleteEffectMismatch BlobIndex
  | DeleteOtherEffect BlobIndex
  | UnsettledTxNotFound TxHash
  | BlobContractsNotRegistered
  | NotReadyToSettle TxHash
  | NotNextToSettle TxHash
  | ContractNoLongerExists ContractName
  | InitialStateMismatch StateCommitment StateCommitment
  | ProgramIdMismatch ProgramId ProgramId
  | StateReadMismatch ContractName
  | RegisterMetadataUndecodable
  | NameWithoutDot ContractName ContractName
  | NameEmptyPart ContractName ContractName
  | NameNotSubdomain ContractName ContractName
  | StateCommitmentTooLong nat
  | InvalidProgramId
  | InvalidTldBlob
  | AlreadyRegistered ContractName
  | CannotDeleteHyle
  | CannotUpdateHyle
  | FailedBlobTx NodeError
  | FailedProofBlob BlobIndex TxId NodeError
  | FailedToSettle NodeError
  | RejectedProof nat ContractName NodeError
  | RejectedHyleBlob NodeError
  | ProvenFailure nat bytes

datatype TransactionStateEvent =
    Sequenced
  | EvError NodeError
  | NewProof BlobIndex TxHash bytes
  | SettleEvent NodeError
  | Settled
  | SettledAsFailed
  | TimedOut
  | DroppedAsDuplicate

subsection \<open>Signatures and consensus proposals\<close>

type_synonym Signature = bytes
type_synonym Slot = u64
type_synonym View = u64

record ValidatorSignature =
  vs_signature :: Signature
  vs_validator :: ValidatorPublicKey

record AggregateSignature =
  ag_signature :: Signature
  ag_validators :: "ValidatorPublicKey list"

record ('m, 's) Signed =
  sg_msg :: 'm
  sg_signature :: 's

record ValidatorCandidacy =
  vc_peer_address :: string

type_synonym Cut = "(LaneId \<times> DataProposalHash \<times> LaneBytesSize \<times> AggregateSignature) list"

datatype ConsensusStakingAction =
    Bond "(ValidatorCandidacy, ValidatorSignature) Signed"
  | PayFeesForDaDi LaneId LaneBytesSize

record ConsensusProposal =
  cp_slot :: Slot
  cp_parent_hash :: ConsensusProposalHash
  cp_cut :: Cut
  cp_staking_actions :: "ConsensusStakingAction list"
  cp_timestamp :: TimestampMs

fun hash_staking_action :: "ConsensusStakingAction \<Rightarrow> bytes" where
  "hash_staking_action (Bond candidate) = vs_validator (sg_signature candidate)"
| "hash_staking_action (PayFeesForDaDi lane_id cumul_size) = lane_id @ to_le_bytes 8 (unat cumul_size)"

definition ConsensusProposal_hashed :: "Env \<Rightarrow> ConsensusProposal \<Rightarrow> ConsensusProposalHash" where
  "ConsensusProposal_hashed E cp =
     hex_encode E (sha3_256 E (to_le_bytes 8 (unat (cp_slot cp)) @
       concat (map (\<lambda>(lane_id, hash, _, _). lane_id @ as_bytes hash) (cp_cut cp)) @
       concat (map hash_staking_action (cp_staking_actions cp)) @
       to_le_bytes 16 (unat (cp_timestamp cp)) @
       as_bytes (cp_parent_hash cp)))"

subsection \<open>Data proposals and signed blocks\<close>

record DataProposal =
  dp_parent_data_proposal_hash :: "DataProposalHash option"
  dp_txs :: "Transaction list"

definition DataProposal_hashed :: "Env \<Rightarrow> DataProposal \<Rightarrow> DataProposalHash" where
  "DataProposal_hashed E dp =
     hex_encode E (sha3_256 E (
       (case dp_parent_data_proposal_hash dp of None \<Rightarrow> [] | Some p \<Rightarrow> as_bytes p) @
       concat (map (\<lambda>tx. as_bytes (Transaction_hashed E tx)) (dp_txs dp))))"

text \<open>
  Removing the proofs kept for indexing. An unverified proof transaction is
  \<open>unreachable!()\<close>, a panic: the result is then \<open>None\<close>.
\<close>

fun remove_proof :: "Transaction \<Rightarrow> Transaction option" where
  "remove_proof tx =
     (case tx_transaction_data tx of
        TD_VerifiedProof p \<Rightarrow> Some (tx\<lparr>tx_transaction_data := TD_VerifiedProof (p\<lparr>vp_proof := None\<rparr>)\<rparr>)
      | TD_Proof _ \<Rightarrow> None
      | TD_Blob _ \<Rightarrow> Some tx)"

definition remove_proofs :: "DataProposal \<Rightarrow> DataProposal option" where
  "remove_proofs dp = map_option (\<lambda>txs. dp\<lparr>dp_txs := txs\<rparr>) (those (map remove_proof (dp_txs dp)))"

record SignedBlock =
  sk_data_proposals :: "(LaneId \<times> DataProposal list) list"
  sk_consensus_proposal :: ConsensusProposal
  sk_certificate :: AggregateSignature

definition SignedBlock_parent_hash :: "SignedBlock \<Rightarrow> ConsensusProposalHash" where
  "SignedBlock_parent_hash sb = cp_parent_hash (sk_consensus_proposal sb)"

definition SignedBlock_height :: "SignedBlock \<Rightarrow> BlockHeight" where
  "SignedBlock_height sb = cp_slot (sk_consensus_proposal sb)"

definition SignedBlock_hashed :: "Env \<Rightarrow> SignedBlock \<Rightarrow> ConsensusProposalHash" where
  "SignedBlock_hashed E sb = ConsensusProposal_hashed E (sk_consensus_proposal sb)"

text \<open>\<open>Display\<close> of a validator key, hence of a lane: the hex of its first bytes.\<close>

definition ValidatorPublicKey_display :: "Env \<Rightarrow> ValidatorPublicKey \<Rightarrow> string" where
  "ValidatorPublicKey_display E k = hex_encode E (take HASH_DISPLAY_SIZE k)"

definition iter_txs :: "Env \<Rightarrow> SignedBlock \<Rightarrow> (LaneId \<times> DataProposalHash \<times> Transaction list) list" where
  "iter_txs E sb =
     concat (map (\<lambda>(lane_id, dps). map (\<lambda>dp.
       (lane_id,
        (case dp_parent_data_proposal_hash dp of
           None \<Rightarrow> ValidatorPublicKey_display E lane_id
         | Some p \<Rightarrow> p),
        dp_txs dp)) dps) (sk_data_proposals sb))"

definition iter_txs_with_id :: "Env \<Rightarrow> SignedBlock \<Rightarrow> (LaneId \<times> TxId \<times> Transaction) list" where
  "iter_txs_with_id E sb =
     concat (map (\<lambda>(lane_id, dp_hash, txs).
       map (\<lambda>tx. (lane_id, (dp_hash, Transaction_hashed E tx), tx)) txs) (iter_txs E sb))"

definition has_txs :: "Env \<Rightarrow> SignedBlock \<Rightarrow> bool" where
  "has_txs E sb = list_ex (\<lambda>(_, _, txs). txs \<noteq> []) (iter_txs E sb)"

definition count_txs :: "Env \<Rightarrow> SignedBlock \<Rightarrow> nat" where
  "count_txs E sb = sum_list (map (\<lambda>(_, _, txs). length txs) (iter_txs E sb))"

subsection \<open>Processed blocks\<close>

record Block =
  bk_parent_hash :: ConsensusProposalHash
  bk_hash :: ConsensusProposalHash
  bk_block_height :: BlockHeight
  bk_block_timestamp :: TimestampMs
  bk_txs :: "(TxId \<times> Transaction) list"
  bk_dp_parent_hashes :: "(TxHash, DataProposalHash) btreemap"
  bk_lane_ids :: "(TxHash, LaneId) btreemap"
  bk_successful_txs :: "TxHash list"
  bk_failed_txs :: "TxHash list"
  bk_timed_out_txs :: "TxHash list"
  bk_dropped_duplicate_txs :: "TxId list"
  bk_blob_proof_outputs :: "HandledBlobProofOutput list"
  bk_verified_blobs :: "(TxHash \<times> BlobIndex \<times> nat option) list"
  bk_new_bounded_validators :: "ValidatorPublicKey list"
  bk_staking_actions :: "(Identity \<times> StakingAction) list"
  bk_registered_contracts :: "(ContractName, TxHash \<times> RegisterContractEffect \<times> bytes option) btreemap"
  bk_deleted_contracts :: "(ContractName, TxHash) btreemap"
  bk_updated_states :: "(ContractName, StateCommitment) btreemap"
  bk_updated_program_ids :: "(ContractName, ProgramId) btreemap"
  bk_updated_timeout_windows :: "(ContractName, TimeoutWindow) btreemap"
  bk_transactions_events :: "(TxHash, TransactionStateEvent list) btreemap"

definition resolve_parent_dp_hash :: "Block \<Rightarrow> TxHash \<Rightarrow> DataProposalHash option" where
  "resolve_parent_dp_hash b h = map_of (bk_dp_parent_hashes b) h"

definition resolve_lane_id :: "Block \<Rightarrow> TxHash \<Rightarrow> LaneId option" where
  "resolve_lane_id b h = map_of (bk_lane_ids b) h"

definition build_tx_ctx :: "Block \<Rightarrow> TxHash \<Rightarrow> TxContext option" where
  "build_tx_ctx b h =
     map_option (\<lambda>lane_id.
       \<lparr>tc_lane_id = lane_id,
        tc_block_hash = bk_hash b,
        tc_block_height = bk_block_height b,
        tc_timestamp = bk_block_timestamp b,
        tc_chain_id = HYLE_TESTNET_CHAIN_ID\<rparr>) (resolve_lane_id b h)"

lemma count_txs_iter: "count_txs E sb = length (iter_txs_with_id E sb)"
  by (simp add: count_txs_def iter_txs_with_id_def length_concat comp_def case_prod_unfold)

lemma has_txs_iff: "has_txs E sb \<longleftrightarrow> iter_txs_with_id E sb \<noteq> []"
  by (force simp: has_txs_def iter_txs_with_id_def list_ex_iff)

end
