(* ===== verification/Contract_Registration.thy ===== *)
theory Contract_Registration
  imports Hyle_Block
begin

text \<open>
  The checks on contract registrations
  (\<open>crates/hyle-modules/src/node_state/contract_registration.rs\<close> and
  \<open>validate_program_id\<close> of \<open>crates/hyle-verifiers/src/lib.rs\<close>): which names a contract may
  register or delete, the size bound on state commitments, the format of program ids.
\<close>

definition validate_contract_name_registration ::
    "ContractName \<Rightarrow> ContractName \<Rightarrow> (unit, NodeError) Result" where
  "validate_contract_name_registration owner new_contract_name =
     (if (if owner = ''hyle''
          then new_contract_name = ''hyle'' \<or>
               (new_contract_name \<noteq> [] \<and> \<not> str_contains CHR ''.'' new_contract_name)
          else owner = new_contract_name \<and> owner \<noteq> [])
      then Ok ()
      else
        (case split_once CHR ''.'' new_contract_name of
           None \<Rightarrow> Err (NameWithoutDot owner new_contract_name)
         | Some (name, tld) \<Rightarrow>
             if name = [] \<or> tld = [] then Err (NameEmptyPart owner new_contract_name)
             else if tld \<noteq> owner then Err (NameNotSubdomain owner new_contract_name)
             else Ok ()))"

definition MAX_STATE_COMMITMENT_SIZE :: nat where
  "MAX_STATE_COMMITMENT_SIZE = 10 * 1024 * 1024"

definition validate_state_commitment_size :: "StateCommitment \<Rightarrow> (unit, NodeError) Result" where
  "validate_state_commitment_size state_commitment =
     (if length state_commitment > MAX_STATE_COMMITMENT_SIZE
      then Err (StateCommitmentTooLong (length state_commitment))
      else Ok ())"

text \<open>
  With a proof system compiled out its arm is absent and the id is accepted, which is
  the validator that accepts everything.
\<close>

definition validate_program_id :: "Env \<Rightarrow> Verifier \<Rightarrow> ProgramId \<Rightarrow> (unit, NodeError) Result" where
  "validate_program_id E verifier program_id =
     (if verifier = ''risc0-1'' then
        (if risc0_digest_ok E program_id then Ok () else Err InvalidProgramId)
      else if verifier = ''sp1-4'' then
        (if sp1_vk_ok E program_id then Ok () else Err InvalidProgramId)
      else Ok ())"

definition validate_contract_registration_metadata ::
    "Env \<Rightarrow> ContractName \<Rightarrow> ContractName \<Rightarrow> Verifier \<Rightarrow> ProgramId \<Rightarrow> StateCommitment \<Rightarrow> (unit, NodeError) Result" where
  "validate_contract_registration_metadata E owner new_contract_name verifier program_id state_commitment =
     and_then (validate_contract_name_registration owner new_contract_name) (\<lambda>_.
     and_then (validate_program_id E verifier program_id) (\<lambda>_.
     and_then (validate_state_commitment_size state_commitment) (\<lambda>_. Ok ())))"

text \<open>A direct subdomain: one non-empty label in front of a non-empty owner.\<close>

definition subdomain_of :: "ContractName \<Rightarrow> ContractName \<Rightarrow> bool" where
  "subdomain_of owner n \<longleftrightarrow>
     (\<exists>label. n = label @ CHR ''.'' # owner \<and> label \<noteq> [] \<and> CHR ''.'' \<notin> set label \<and> owner \<noteq> [])"

lemma validate_name_cases:
  "is_ok (validate_contract_name_registration owner n) \<longleftrightarrow>
     (owner = ''hyle'' \<and> (n = ''hyle'' \<or> n \<noteq> [] \<and> CHR ''.'' \<notin> set n)) \<or>
     (owner \<noteq> ''hyle'' \<and> n = owner \<and> owner \<noteq> []) \<or>
     subdomain_of owner n"
proof (cases "split_once CHR ''.'' n")
  case None
  then have "CHR ''.'' \<notin> set n" by (simp add: split_once_None)
  then have "\<not> subdomain_of owner n" by (auto simp: subdomain_of_def)
  with None show ?thesis
    by (auto simp: validate_contract_name_registration_def str_contains_def)
next
  case (Some p)
  obtain name tld where p: "p = (name, tld)" by force
  with Some have n: "n = name @ CHR ''.'' # tld" "CHR ''.'' \<notin> set name"
    by (auto simp: split_once_Some)
  have "subdomain_of owner n \<longleftrightarrow> name \<noteq> [] \<and> tld \<noteq> [] \<and> tld = owner"
    using n Some unfolding subdomain_of_def
    by (metis option.inject p prod.inject split_once_Some)
  with Some p n show ?thesis
    by (auto simp: validate_contract_name_registration_def str_contains_def)
qed

text \<open>No contract other than \<open>hyle\<close> itself passes the name check for \<open>hyle\<close>.\<close>

lemma validate_name_hyle:
  "validate_contract_name_registration owner ''hyle'' = Ok () \<Longrightarrow> owner = ''hyle''"
  using validate_name_cases [of owner "''hyle''"]
  by (auto simp: subdomain_of_def Cons_eq_append_conv)

lemma validate_metadata_Ok:
  "validate_contract_registration_metadata E owner n v p s = Ok u \<longleftrightarrow>
     is_ok (validate_contract_name_registration owner n) \<and> is_ok (validate_program_id E v p) \<and>
     length s \<le> MAX_STATE_COMMITMENT_SIZE"
  by (auto simp: validate_contract_registration_metadata_def ok_simps validate_state_commitment_size_def)

end
