(* ===== verification/Native_Verifiers.thy ===== *)
theory Native_Verifiers
  imports Hyle_Block
begin

text \<open>
  Native verification (\<open>crates/hyle-verifiers/src/native_impl.rs\<close> and the module
  \<open>native\<close> of \<open>lib.rs\<close>, with \<open>BlstCrypto::verify\<close> of \<open>crates/hyle-crypto/src/lib.rs\<close>) and
  the check for a secp256k1 blob that contracts and the node use
  (\<open>crates/contract-sdk/src/secp256k1.rs\<close>). The signature libraries are fields of
  \<open>Env\<close>.
\<close>

text \<open>\<open>None\<close> stands for the error of an unparsable key, signature or message.\<close>

definition BlstCrypto_verify :: "Env \<Rightarrow> bytes \<Rightarrow> bytes \<Rightarrow> bytes \<Rightarrow> bool option" where
  "BlstCrypto_verify E msg signature validator =
     (if \<not> blst_pk_ok E validator then None
      else if \<not> blst_sig_ok E signature then None
      else (case enc_byte_vec E msg of
              None \<Rightarrow> None
            | Some encoded \<Rightarrow> Some (blst_sig_verify E encoded signature validator)))"

definition verify_native_impl :: "Env \<Rightarrow> Blob \<Rightarrow> NativeVerifiers \<Rightarrow> (Identity \<times> bool) option" where
  "verify_native_impl E blob verifier =
     (case verifier of
        Blst \<Rightarrow>
          (case dec_blst_blob E (b_data blob) of
             None \<Rightarrow> None
           | Some b \<Rightarrow>
               (case BlstCrypto_verify E (bs_data b @ as_bytes (bs_identity b)) (bs_signature b) (bs_public_key b) of
                  None \<Rightarrow> None
                | Some ok \<Rightarrow> Some (bs_identity b, ok)))
      | Sha3_256 \<Rightarrow>
          (case dec_sha_blob E (b_data blob) of
             None \<Rightarrow> None
           | Some b \<Rightarrow> Some (sh_identity b, sha3_256 E (sh_data b) = sh_sha b))
      | Secp256k1 \<Rightarrow>
          (case dec_secp_blob E (b_data blob) of
             None \<Rightarrow> None
           | Some b \<Rightarrow>
               if \<not> secp_pk_ok E (sp_public_key b) then None
               else if \<not> secp_sig_ok E (sp_signature b) then None
               else Some (sp_identity b, secp_verify_ecdsa E (sp_data b) (sp_signature b) (sp_public_key b))))"

text \<open>
  The proof output of a native blob. The index always comes from enumerating the blobs,
  so \<open>blobs.get(index)\<close> succeeds; the blob is passed along with its index.
\<close>

definition native_verify :: "Env \<Rightarrow> TxHash \<Rightarrow> BlobIndex \<Rightarrow> Blob \<Rightarrow> Blob list \<Rightarrow> NativeVerifiers \<Rightarrow> HyleOutput" where
  "native_verify E tx_hash index blob blobs verifier =
     (let (identity, success) =
            (case verify_native_impl E blob verifier of Some r \<Rightarrow> r | None \<Rightarrow> ([], False))
      in \<lparr>ho_version = 1,
          ho_initial_state = [],
          ho_next_state = [],
          ho_identity = identity,
          ho_index = index,
          ho_blobs = IndexedBlobs_from blobs,
          ho_tx_blob_count = length (IndexedBlobs_from blobs),
          ho_tx_hash = tx_hash,
          ho_success = success,
          ho_state_reads = [],
          ho_tx_ctx = None,
          ho_onchain_effects = [],
          ho_program_outputs = []\<rparr>)"

definition CheckSecp256k1_expect ::
    "Env \<Rightarrow> Calldata \<Rightarrow> bytes \<Rightarrow> BlobIndex option \<Rightarrow> (Secp256k1Blob, SecpError) Result" where
  "CheckSecp256k1_expect E calldata expected_data blob_index =
     and_then
       (case blob_index of
          Some idx \<Rightarrow>
            (case IndexedBlobs_get (cd_blobs calldata) idx of
               None \<Rightarrow> Err SecpInvalidIndex
             | Some blob \<Rightarrow>
                 if b_contract_name blob \<noteq> ''secp256k1'' then Err SecpInvalidContractName else Ok blob)
        | None \<Rightarrow>
            (case find (\<lambda>b. b_contract_name b = ''secp256k1'') (map snd (cd_blobs calldata)) of
               None \<Rightarrow> Err SecpMissing
             | Some blob \<Rightarrow> Ok blob))
       (\<lambda>secp_blob.
          case dec_secp_blob E (b_data secp_blob) of
            None \<Rightarrow> Err SecpUndecodable
          | Some secp_data \<Rightarrow>
              if sp_identity secp_data \<noteq> cd_identity calldata then Err SecpIdentityMismatch
              else if sp_data secp_data \<noteq> sha2_256 E expected_data then Err SecpDataMismatch
              else Ok secp_data)"

lemma CheckSecp256k1_expect_Ok:
  assumes "CheckSecp256k1_expect E calldata expected None = Ok d"
  shows "\<exists>b \<in> snd ` set (cd_blobs calldata). b_contract_name b = ''secp256k1'' \<and>
      dec_secp_blob E (b_data b) = Some d"
    and "sp_identity d = cd_identity calldata" and "sp_data d = sha2_256 E expected"
  using assms
  by (force simp: CheckSecp256k1_expect_def ok_simps find_Some_iff in_set_conv_nth
      split: option.splits if_splits)+

end
