(* ===== verification/Sample_Env.thy ===== *)
theory Sample_Env
  imports Hyle_Block
begin

text \<open>
  A small concrete instance of the external functions and of the data, at which the
  theorems with hypotheses are applied. Hashing is the identity and hex the
  conversion of bytes to characters, so all values can be computed. The first byte of a
  blob selects the action it decodes to.
\<close>

definition sample_register :: RegisterContractAction where
  "sample_register =
     \<lparr>ra_verifier = ''test'', ra_program_id = [1], ra_state_commitment = [2], ra_contract_name = ''c'',
      ra_timeout_window = None, ra_constructor_metadata = None\<rparr>"

definition sample_env :: Env where
  "sample_env =
     \<lparr>sha3_256 = id,
      sha2_256 = id,
      hex_encode = map (\<lambda>w. char_of (unat w)),
      hex_decode = (\<lambda>s. if s = ''k'' then Some [9] else None),
      dec_register = (\<lambda>d. if d = [1] then Some \<lparr>sd_caller = None, sd_callees = None, sd_parameters = sample_register\<rparr> else None),
      dec_delete = (\<lambda>d. if d = [2] then Some \<lparr>sd_caller = None, sd_callees = None,
        sd_parameters = \<lparr>da_contract_name = ''c''\<rparr>\<rparr> else None),
      dec_update_program_id = (\<lambda>d. None),
      dec_update_timeout_window = (\<lambda>d. None),
      dec_nuke = (\<lambda>d. if d = [3] then Some \<lparr>sd_caller = None, sd_callees = None,
        sd_parameters = \<lparr>nk_txs = []\<rparr>\<rparr> else None),
      dec_staking = (\<lambda>d. None),
      enc_nuke_txs = (\<lambda>txs. Some []),
      dec_blst_blob = (\<lambda>d. None),
      dec_sha_blob = (\<lambda>d. None),
      dec_secp_blob = (\<lambda>d. if d = [7] then Some \<lparr>sp_identity = ''u@hyle'', sp_data = [], sp_public_key = [9],
        sp_signature = []\<rparr> else None),
      enc_byte_vec = Some,
      blst_pk_ok = (\<lambda>k. True),
      blst_sig_ok = (\<lambda>s. True),
      blst_sig_verify = (\<lambda>m s k. True),
      secp_pk_ok = (\<lambda>k. True),
      secp_sig_ok = (\<lambda>s. True),
      secp_verify_ecdsa = (\<lambda>d s k. True),
      risc0_digest_ok = (\<lambda>p. True),
      sp1_vk_ok = (\<lambda>p. True),
      env_HYLI_TLD_PUBKEY = Some ''k''\<rparr>"

lemma sample_env_simps [simp]:
  "sha3_256 sample_env d = d"
  "sha2_256 sample_env d = d"
  "hex_decode sample_env s = (if s = ''k'' then Some [9] else None)"
  "dec_register sample_env d =
     (if d = [1] then Some \<lparr>sd_caller = None, sd_callees = None, sd_parameters = sample_register\<rparr> else None)"
  "dec_delete sample_env d =
     (if d = [2] then Some \<lparr>sd_caller = None, sd_callees = None, sd_parameters = \<lparr>da_contract_name = ''c''\<rparr>\<rparr> else None)"
  "dec_update_program_id sample_env d = None"
  "dec_update_timeout_window sample_env d = None"
  "dec_nuke sample_env d =
     (if d = [3] then Some \<lparr>sd_caller = None, sd_callees = None, sd_parameters = \<lparr>nk_txs = []\<rparr>\<rparr> else None)"
  "enc_nuke_txs sample_env txs = Some []"
  "dec_secp_blob sample_env d =
     (if d = [7] then Some \<lparr>sp_identity = ''u@hyle'', sp_data = [], sp_public_key = [9], sp_signature = []\<rparr> else None)"
  "env_HYLI_TLD_PUBKEY sample_env = Some ''k''"
  by (simp_all add: sample_env_def)

text \<open>A transaction of \<open>u@hyle\<close> that registers the contract \<open>c\<close>, and a block with it.\<close>

definition sample_tx :: BlobTransaction where
  "sample_tx = \<lparr>btx_identity = ''u@hyle'', btx_blobs = [\<lparr>b_contract_name = ''hyle'', b_data = [1]\<rparr>]\<rparr>"

definition sample_block :: "Transaction list \<Rightarrow> SignedBlock" where
  "sample_block txs =
     \<lparr>sk_data_proposals = [([5], [\<lparr>dp_parent_data_proposal_hash = None, dp_txs = txs\<rparr>])],
      sk_consensus_proposal = \<lparr>cp_slot = 1, cp_parent_hash = [], cp_cut = [], cp_staking_actions = [], cp_timestamp = 0\<rparr>,
      sk_certificate = \<lparr>ag_signature = [], ag_validators = []\<rparr>\<rparr>"

text \<open>A transaction that is refused: its identity names no contract.\<close>

definition sample_bad_tx :: BlobTransaction where
  "sample_bad_tx = \<lparr>btx_identity = ''u'', btx_blobs = []\<rparr>"

text \<open>Two registered contracts, and a proof that moves the state of \<open>c\<close> from 2 to 3.\<close>

definition sample_contracts :: "(ContractName, Contract) hashmap" where
  "sample_contracts =
     [(''hyle'', \<lparr>c_name = ''hyle'', c_program_id = [0, 0, 0, 0], c_state = [], c_verifier = ''hyle'',
         c_timeout_window = NoTimeout\<rparr>),
      (''c'', \<lparr>c_name = ''c'', c_program_id = [1], c_state = [2], c_verifier = ''test'', c_timeout_window = Timeout 100\<rparr>)]"

definition sample_output :: HyleOutput where
  "sample_output =
     \<lparr>ho_version = 1, ho_initial_state = [2], ho_next_state = [3], ho_identity = ''u@c'', ho_index = 0,
      ho_blobs = [], ho_tx_blob_count = 1, ho_tx_hash = ''h'', ho_success = True, ho_state_reads = [],
      ho_tx_ctx = None, ho_onchain_effects = [], ho_program_outputs = []\<rparr>"

definition sample_blob :: UnsettledBlobMetadata where
  "sample_blob = \<lparr>um_blob = \<lparr>b_contract_name = ''c'', b_data = [9]\<rparr>, um_possible_proofs = [([1], sample_output)]\<rparr>"

end
