(* ===== verification/Hyle_Tld.thy ===== *)
theory Hyle_Tld
  imports Contract_Registration Native_Verifiers Sample_Env
begin

text \<open>
  The built-in contract \<open>hyle\<close>
  (\<open>crates/hyle-modules/src/node_state/hyle_tld.rs\<close>): its blobs register, delete and
  update contracts, or force the settlement of other transactions. A blob is checked
  statically when its transaction is received and executed on the pending contract
  changes when the transaction settles. The types of pending changes are those of
  \<open>node_state.rs\<close>.
\<close>

subsection \<open>Pending contract changes\<close>

datatype SideEffect =
    Register "bytes option"
  | UpdateState
  | UpdateProgramId
  | UpdateTimeoutWindow
  | Delete

record ModifiedContractFields =
  mf_program_id :: bool
  mf_state :: bool
  mf_verifier :: bool
  mf_timeout_window :: bool

definition ModifiedContractFields_all :: ModifiedContractFields where
  "ModifiedContractFields_all =
     \<lparr>mf_program_id = True, mf_state = True, mf_verifier = True, mf_timeout_window = True\<rparr>"

definition ModifiedContractFields_default :: ModifiedContractFields where
  "ModifiedContractFields_default =
     \<lparr>mf_program_id = False, mf_state = False, mf_verifier = False, mf_timeout_window = False\<rparr>"

type_synonym ModifiedContractData = "Contract option \<times> ModifiedContractFields \<times> SideEffect list"
type_synonym ContractChanges = "(ContractName, ModifiedContractData) btreemap"
type_synonym Contracts = "(ContractName, Contract) hashmap"

text \<open>A pending change hides the stored contract, also when it is a deletion.\<close>

definition get_contract :: "Contracts \<Rightarrow> ContractChanges \<Rightarrow> ContractName \<Rightarrow> (Contract, NodeError) Result" where
  "get_contract contracts contract_changes contract_name =
     (case (case map_of contract_changes contract_name of
              Some (mc, _, _) \<Rightarrow> Some mc
            | None \<Rightarrow> map_option Some (hm_get contracts contract_name)) of
        Some (Some contract) \<Rightarrow> Ok contract
      | _ \<Rightarrow> Err (ContractNoLongerExists contract_name))"

subsection \<open>Executing a blob\<close>

definition handle_register_blob ::
    "Env \<Rightarrow> Contracts \<Rightarrow> ContractChanges \<Rightarrow> RegisterContractAction \<Rightarrow> (ContractChanges, NodeError) Result" where
  "handle_register_blob E contracts contract_changes reg =
     and_then
       (validate_contract_registration_metadata E ''hyle'' (ra_contract_name reg) (ra_verifier reg)
          (ra_program_id reg) (ra_state_commitment reg))
       (\<lambda>_.
          if (ra_contract_name reg \<noteq> ''hyle'' \<and> hm_contains contracts (ra_contract_name reg)) \<or>
             hm_contains contract_changes (ra_contract_name reg)
          then Err (AlreadyRegistered (ra_contract_name reg))
          else Ok (bt_insert (ra_contract_name reg)
             (Some \<lparr>c_name = ra_contract_name reg,
                    c_program_id = ra_program_id reg,
                    c_state = ra_state_commitment reg,
                    c_verifier = ra_verifier reg,
                    c_timeout_window = (case ra_timeout_window reg of
                       Some w \<Rightarrow> w | None \<Rightarrow> TimeoutWindow_default)\<rparr>,
              ModifiedContractFields_all,
              [Register (ra_constructor_metadata reg)]) contract_changes))"

text \<open>
  The last error is the message of the source for an unknown contract, which says that
  the contract is already registered.
\<close>

definition handle_delete_blob ::
    "Contracts \<Rightarrow> ContractChanges \<Rightarrow> DeleteContractAction \<Rightarrow> (ContractChanges, NodeError) Result" where
  "handle_delete_blob contracts contract_changes del =
     (if da_contract_name del = ''hyle'' then Err CannotDeleteHyle
      else if hm_contains contracts (da_contract_name del) \<or> hm_contains contract_changes (da_contract_name del)
      then Ok (bt_insert (da_contract_name del) (None, ModifiedContractFields_all, [Delete]) contract_changes)
      else Err (AlreadyRegistered (da_contract_name del)))"

definition handle_update_program_id_blob ::
    "Contracts \<Rightarrow> ContractChanges \<Rightarrow> UpdateContractProgramIdAction \<Rightarrow> (ContractChanges, NodeError) Result" where
  "handle_update_program_id_blob contracts contract_changes update =
     (if up_contract_name update = ''hyle'' then Err CannotUpdateHyle
      else and_then (get_contract contracts contract_changes (up_contract_name update)) (\<lambda>contract.
        Ok (bt_insert (up_contract_name update)
          (case map_of contract_changes (up_contract_name update) of
             Some (mc, mf, effects) \<Rightarrow>
               (map_option (\<lambda>c. c\<lparr>c_program_id := up_program_id update\<rparr>) mc,
                mf\<lparr>mf_program_id := True\<rparr>, effects @ [UpdateProgramId])
           | None \<Rightarrow>
               (Some (contract\<lparr>c_program_id := up_program_id update\<rparr>),
                ModifiedContractFields_default\<lparr>mf_program_id := True\<rparr>, [UpdateProgramId]))
          contract_changes)))"

definition handle_update_timeout_window_blob ::
    "Contracts \<Rightarrow> ContractChanges \<Rightarrow> UpdateContractTimeoutWindowAction \<Rightarrow> (ContractChanges, NodeError) Result" where
  "handle_update_timeout_window_blob contracts contract_changes update =
     (if uw_contract_name update = ''hyle'' then Err CannotUpdateHyle
      else and_then (get_contract contracts contract_changes (uw_contract_name update)) (\<lambda>contract.
        Ok (bt_insert (uw_contract_name update)
          (case map_of contract_changes (uw_contract_name update) of
             Some (mc, mf, effects) \<Rightarrow>
               (map_option (\<lambda>c. c\<lparr>c_timeout_window := uw_timeout_window update\<rparr>) mc,
                mf\<lparr>mf_timeout_window := True\<rparr>, effects @ [UpdateTimeoutWindow])
           | None \<Rightarrow>
               (Some (contract\<lparr>c_timeout_window := uw_timeout_window update\<rparr>),
                ModifiedContractFields_default\<lparr>mf_timeout_window := True\<rparr>, [UpdateTimeoutWindow]))
          contract_changes)))"

definition handle_blob_for_hyle_tld ::
    "Env \<Rightarrow> Contracts \<Rightarrow> ContractChanges \<Rightarrow> Blob \<Rightarrow> (ContractChanges, NodeError) Result" where
  "handle_blob_for_hyle_tld E contracts contract_changes current_blob =
     (case dec_register E (b_data current_blob) of
        Some reg \<Rightarrow> handle_register_blob E contracts contract_changes (sd_parameters reg)
      | None \<Rightarrow>
     (case dec_delete E (b_data current_blob) of
        Some reg \<Rightarrow> handle_delete_blob contracts contract_changes (sd_parameters reg)
      | None \<Rightarrow>
     (case dec_update_program_id E (b_data current_blob) of
        Some reg \<Rightarrow> handle_update_program_id_blob contracts contract_changes (sd_parameters reg)
      | None \<Rightarrow>
     (case dec_update_timeout_window E (b_data current_blob) of
        Some reg \<Rightarrow> handle_update_timeout_window_blob contracts contract_changes (sd_parameters reg)
      | None \<Rightarrow>
          if dec_nuke E (b_data current_blob) \<noteq> None then Ok contract_changes
          else Err InvalidTldBlob))))"

subsection \<open>The static check of a transaction\<close>

definition HYLI_TLD_ID :: Identity where
  "HYLI_TLD_ID = ''hyli@wallet''"

definition validate_nuke :: "Env \<Rightarrow> BlobTransaction \<Rightarrow> BlobIndex \<Rightarrow> NukeTxAction \<Rightarrow> (unit, HyleBlobError) Result" where
  "validate_nuke E tx index nuke =
     (let calldata =
            \<lparr>cd_tx_hash = BlobTransaction_hashed E tx,
             cd_identity = btx_identity tx,
             cd_blobs = IndexedBlobs_from (btx_blobs tx),
             cd_tx_blob_count = length (btx_blobs tx),
             cd_index = index,
             cd_tx_ctx = None,
             cd_private_input = []\<rparr>
      in case enc_nuke_txs E (nk_txs nuke) of
           None \<Rightarrow> Err NukeTxsUnserializable
         | Some expected_data \<Rightarrow>
             and_then (map_err NukeSignatureRejected (CheckSecp256k1_expect E calldata expected_data None)) (\<lambda>secp_blob.
               case env_HYLI_TLD_PUBKEY E of
                 None \<Rightarrow> Err PubkeyNotSet
               | Some public_key \<Rightarrow>
                   (case hex_decode E public_key of
                      None \<Rightarrow> Err PubkeyNotHex
                    | Some hyli_tld_pubkey \<Rightarrow>
                        if sp_public_key secp_blob \<noteq> hyli_tld_pubkey
                        then Err (NotSignedByHyli (sp_public_key secp_blob)) else Ok ())))"

definition validate_hyle_blob :: "Env \<Rightarrow> BlobTransaction \<Rightarrow> BlobIndex \<Rightarrow> Blob \<Rightarrow> (unit, HyleBlobError) Result" where
  "validate_hyle_blob E tx index blob =
     (if b_contract_name blob \<noteq> ''hyle'' then Ok ()
      else if dec_update_program_id E (b_data blob) \<noteq> None \<or> dec_delete E (b_data blob) \<noteq> None \<or>
              dec_update_timeout_window E (b_data blob) \<noteq> None
      then (if btx_identity tx \<noteq> HYLI_TLD_ID then Err (UnauthorizedHyleAction (btx_identity tx)) else Ok ())
      else (case dec_nuke E (b_data blob) of
              Some nuke_data \<Rightarrow> validate_nuke E tx index (sd_parameters nuke_data)
            | None \<Rightarrow>
                if dec_register E (b_data blob) \<noteq> None then Ok ()
                else Err (UnsupportedHyleAction blob)))"

fun validate_hyle_blobs_from :: "Env \<Rightarrow> BlobTransaction \<Rightarrow> (BlobIndex \<times> Blob) list \<Rightarrow> (unit, HyleBlobError) Result" where
  "validate_hyle_blobs_from E tx [] = Ok ()"
| "validate_hyle_blobs_from E tx ((index, blob) # rest) =
     and_then (validate_hyle_blob E tx index blob) (\<lambda>_. validate_hyle_blobs_from E tx rest)"

definition validate_hyle_contract_blobs :: "Env \<Rightarrow> BlobTransaction \<Rightarrow> (unit, HyleBlobError) Result" where
  "validate_hyle_contract_blobs E tx = validate_hyle_blobs_from E tx (enumerate 0 (btx_blobs tx))"

subsection \<open>Invariants of contracts and pending changes\<close>

text \<open>
  Contracts are stored under their own name and the built-in contract is present. A
  pending change keeps names, and never deletes the built-in contract.
\<close>

definition contracts_inv :: "Contracts \<Rightarrow> bool" where
  "contracts_inv contracts \<longleftrightarrow>
     hm_inv contracts \<and> (\<forall>k c. map_of contracts k = Some c \<longrightarrow> c_name c = k) \<and> hm_contains contracts ''hyle''"

definition change_ok :: "ContractName \<Rightarrow> ModifiedContractData \<Rightarrow> bool" where
  "change_ok k d = (case fst d of Some c \<Rightarrow> c_name c = k | None \<Rightarrow> k \<noteq> ''hyle'')"

definition changes_inv :: "ContractChanges \<Rightarrow> bool" where
  "changes_inv ch \<longleftrightarrow> bt_inv ch \<and> (\<forall>k d. map_of ch k = Some d \<longrightarrow> change_ok k d)"

lemma change_ok_simps [simp]:
  "change_ok k (Some c, mf, se) \<longleftrightarrow> c_name c = k"
  "change_ok k (None, mf, se) \<longleftrightarrow> k \<noteq> ''hyle''"
  by (simp_all add: change_ok_def)

lemma changes_inv_Nil [simp]: "changes_inv []"
  by (simp add: changes_inv_def)

lemma changes_inv_insert: "changes_inv ch \<Longrightarrow> change_ok k d \<Longrightarrow> changes_inv (bt_insert k d ch)"
  by (auto simp: changes_inv_def hm_simps)

lemma changes_invD: "changes_inv ch \<Longrightarrow> map_of ch k = Some d \<Longrightarrow> change_ok k d"
  by (cases d) (auto simp: changes_inv_def)

lemma get_contract_Ok:
  "get_contract contracts ch k = Ok c \<longleftrightarrow>
     (\<exists>mf se. map_of ch k = Some (Some c, mf, se)) \<or> (map_of ch k = None \<and> map_of contracts k = Some c)"
  by (auto simp: get_contract_def split: option.splits)

lemma get_contract_name:
  "contracts_inv contracts \<Longrightarrow> changes_inv ch \<Longrightarrow> get_contract contracts ch k = Ok c \<Longrightarrow> c_name c = k"
  by (auto simp: get_contract_Ok contracts_inv_def dest: changes_invD)

lemma get_contract_insert [hm_simps]:
  "get_contract contracts (bt_insert k (mc, mf, se) ch) k' =
     (if k' = k then (case mc of Some c \<Rightarrow> Ok c | None \<Rightarrow> Err (ContractNoLongerExists k))
      else get_contract contracts ch k')"
  by (auto simp: get_contract_def hm_simps split: option.split)

subsection \<open>What a blob for the built-in contract may change\<close>

lemma handle_register_blob_Ok:
  "handle_register_blob E contracts ch reg = Ok ch' \<Longrightarrow>
     (ra_contract_name reg = ''hyle'' \<or> \<not> hm_contains contracts (ra_contract_name reg)) \<and>
     map_of ch (ra_contract_name reg) = None \<and>
     (\<exists>c mf se. c_name c = ra_contract_name reg \<and> ch' = bt_insert (ra_contract_name reg) (Some c, mf, se) ch)"
  unfolding handle_register_blob_def hm_contains_def
  by (force simp: ok_simps simp del: not_None_eq split: if_splits)

lemma handle_delete_blob_Ok:
  "handle_delete_blob contracts ch del = Ok ch' \<Longrightarrow> da_contract_name del \<noteq> ''hyle'' \<and>
     ch' = bt_insert (da_contract_name del) (None, ModifiedContractFields_all, [Delete]) ch"
  by (auto simp: handle_delete_blob_def split: if_splits)

lemma handle_update_program_id_blob_Ok:
  assumes "handle_update_program_id_blob contracts ch u = Ok ch'"
  shows "\<exists>c mf se. get_contract contracts ch (up_contract_name u) = Ok c \<and> up_contract_name u \<noteq> ''hyle'' \<and>
    ch' = bt_insert (up_contract_name u) (Some (c\<lparr>c_program_id := up_program_id u\<rparr>), mf, se) ch"
  using assms
  by (cases "map_of ch (up_contract_name u)")
    (auto simp: handle_update_program_id_blob_def ok_simps get_contract_Ok split: if_splits; blast)+

lemma handle_update_timeout_window_blob_Ok:
  assumes "handle_update_timeout_window_blob contracts ch u = Ok ch'"
  shows "\<exists>c mf se. get_contract contracts ch (uw_contract_name u) = Ok c \<and> uw_contract_name u \<noteq> ''hyle'' \<and>
    ch' = bt_insert (uw_contract_name u) (Some (c\<lparr>c_timeout_window := uw_timeout_window u\<rparr>), mf, se) ch"
  using assms
  by (cases "map_of ch (uw_contract_name u)")
    (auto simp: handle_update_timeout_window_blob_def ok_simps get_contract_Ok split: if_splits; blast)+

lemmas handle_blob_Ok = handle_register_blob_Ok handle_delete_blob_Ok
  handle_update_program_id_blob_Ok handle_update_timeout_window_blob_Ok

lemma handle_blob_inv:
  assumes "contracts_inv contracts" "changes_inv ch" "handle_blob_for_hyle_tld E contracts ch b = Ok ch'"
  shows "changes_inv ch'"
  using assms
  by (auto simp: handle_blob_for_hyle_tld_def get_contract_name
      split: option.splits if_splits dest!: handle_blob_Ok intro!: changes_inv_insert)

lemma validate_hyle_blobs_from_Ok:
  "validate_hyle_blobs_from E tx ibs = Ok u \<longleftrightarrow> (\<forall>(i, b) \<in> set ibs. validate_hyle_blob E tx i b = Ok ())"
  by (induction ibs) (auto simp: ok_simps)

lemma validate_hyle_contract_blobs_Ok:
  assumes "validate_hyle_contract_blobs E tx = Ok ()" "b \<in> set (btx_blobs tx)"
  shows "\<exists>i. validate_hyle_blob E tx i b = Ok ()"
proof -
  obtain i where "i < length (btx_blobs tx)" "btx_blobs tx ! i = b"
    using assms(2) by (auto simp: in_set_conv_nth)
  then have "(i, b) \<in> set (enumerate 0 (btx_blobs tx))"
    by (simp add: in_set_enumerate_eq)
  with assms(1) show ?thesis
    by (auto simp: validate_hyle_contract_blobs_def validate_hyle_blobs_from_Ok)
qed

text \<open>
  C17. Only \<open>hyli@wallet\<close> touches registered contracts through the built-in contract: when a
  transaction of another identity passes the static check, executing one of its blobs
  for \<open>hyle\<close> changes neither a registered contract other than \<open>hyle\<close> nor a contract with a
  pending change.
\<close>

theorem hyle_blob_unprivileged:
  assumes "validate_hyle_contract_blobs E tx = Ok ()"
    and "btx_identity tx \<noteq> ''hyli@wallet''"
    and "b \<in> set (btx_blobs tx)" and "b_contract_name b = ''hyle''"
    and "handle_blob_for_hyle_tld E contracts ch b = Ok ch'"
    and "(hm_contains contracts k \<and> k \<noteq> ''hyle'') \<or> hm_contains ch k"
  shows "map_of ch' k = map_of ch k"
proof -
  obtain i where "validate_hyle_blob E tx i b = Ok ()"
    using validate_hyle_contract_blobs_Ok assms(1,3) by blast
  then have "dec_update_program_id E (b_data b) = None" "dec_delete E (b_data b) = None"
      "dec_update_timeout_window E (b_data b) = None"
    using assms(2,4) by (auto simp: validate_hyle_blob_def HYLI_TLD_ID_def split: if_splits)
  with assms(5,6) show ?thesis
    by (auto simp: handle_blob_for_hyle_tld_def hm_simps hm_contains_def simp del: not_None_eq
        split: option.splits if_splits dest!: handle_register_blob_Ok)
qed

theorem hyle_blob_unprivileged_witness:
  "map_of (bt_insert ''c'' (Some \<lparr>c_name = ''c'', c_program_id = [1], c_state = [2], c_verifier = ''test'',
       c_timeout_window = TimeoutWindow_default\<rparr>, ModifiedContractFields_all, [Register None]) []) ''d'' = None"
proof -
  let ?b = "\<lparr>b_contract_name = ''hyle'', b_data = [1]\<rparr>"
  let ?d = "\<lparr>c_name = ''d'', c_program_id = [], c_state = [], c_verifier = [], c_timeout_window = NoTimeout\<rparr>"
  have "validate_hyle_contract_blobs sample_env sample_tx = Ok ()"
    by (simp add: validate_hyle_contract_blobs_def sample_tx_def validate_hyle_blob_def)
  moreover have "handle_blob_for_hyle_tld sample_env [(''d'', ?d)] [] ?b =
      Ok (bt_insert ''c'' (Some \<lparr>c_name = ''c'', c_program_id = [1], c_state = [2], c_verifier = ''test'',
        c_timeout_window = TimeoutWindow_default\<rparr>, ModifiedContractFields_all, [Register None]) [])"
    by (simp add: handle_blob_for_hyle_tld_def handle_register_blob_def sample_register_def hm_contains_def
        validate_contract_registration_metadata_def validate_contract_name_registration_def str_contains_def
        validate_program_id_def validate_state_commitment_size_def MAX_STATE_COMMITMENT_SIZE_def)
  ultimately show ?thesis
    using hyle_blob_unprivileged [of sample_env sample_tx ?b "[(''d'', ?d)]" "[]" _ "''d''"]
    by (simp add: sample_tx_def hm_contains_def)
qed

lemma validate_nuke_Ok:
  assumes "validate_nuke E tx i nuke = Ok ()"
  shows "\<exists>b d data key. b \<in> set (btx_blobs tx) \<and> b_contract_name b = ''secp256k1'' \<and>
    dec_secp_blob E (b_data b) = Some d \<and> sp_identity d = btx_identity tx \<and>
    enc_nuke_txs E (nk_txs nuke) = Some data \<and> sp_data d = sha2_256 E data \<and>
    env_HYLI_TLD_PUBKEY E = Some key \<and> hex_decode E key = Some (sp_public_key d)"
proof -
  let ?cd = "\<lparr>cd_tx_hash = BlobTransaction_hashed E tx, cd_identity = btx_identity tx,
    cd_blobs = IndexedBlobs_from (btx_blobs tx), cd_tx_blob_count = length (btx_blobs tx),
    cd_index = i, cd_tx_ctx = None, cd_private_input = []\<rparr>"
  obtain data where enc: "enc_nuke_txs E (nk_txs nuke) = Some data"
    using assms by (auto simp: validate_nuke_def Let_def split: option.split_asm)
  obtain d where ck: "CheckSecp256k1_expect E ?cd data None = Ok d"
    using assms enc by (auto simp: validate_nuke_def Let_def ok_simps)
  obtain key where "env_HYLI_TLD_PUBKEY E = Some key" "hex_decode E key = Some (sp_public_key d)"
    using assms enc ck by (auto simp: validate_nuke_def Let_def split: option.split_asm if_split_asm)
  moreover have "snd ` set (cd_blobs ?cd) = set (btx_blobs tx)"
    by (simp add: IndexedBlobs_from_def set_map [symmetric] del: set_map)
  ultimately show ?thesis
    using enc CheckSecp256k1_expect_Ok [OF ck] by auto
qed



text \<open>
  The exception for the name \<open>hyle\<close> in the test for registered contracts lets any identity
  register the built-in contract again, with another program, state and verifier.
\<close>

lemma hyle_can_be_reregistered:
  assumes "is_ok (validate_program_id E (ra_verifier reg) (ra_program_id reg))"
    and "length (ra_state_commitment reg) \<le> MAX_STATE_COMMITMENT_SIZE"
    and "ra_contract_name reg = ''hyle''"
  shows "\<exists>ch. handle_register_blob E contracts [] reg = Ok ch \<and>
    get_contract contracts ch ''hyle'' = Ok \<lparr>c_name = ''hyle'', c_program_id = ra_program_id reg,
      c_state = ra_state_commitment reg, c_verifier = ra_verifier reg,
      c_timeout_window = (case ra_timeout_window reg of Some w \<Rightarrow> w | None \<Rightarrow> TimeoutWindow_default)\<rparr>"
proof -
  have "validate_contract_registration_metadata E ''hyle'' ''hyle'' (ra_verifier reg) (ra_program_id reg)
      (ra_state_commitment reg) = Ok ()"
    using assms by (simp add: validate_metadata_Ok validate_name_cases)
  then show ?thesis
    using assms(3) by (simp add: handle_register_blob_def hm_contains_def get_contract_def)
qed

end
