(* ===== verification/Settlement.thy ===== *)
theory Settlement
  imports Hyle_Tld
begin

text \<open>
  Settlement of one transaction (\<open>crates/hyle-modules/src/node_state.rs\<close>): the coherence
  check on an incoming proof output, the execution of one proof on the pending contract
  changes, and the search for one proof per blob that settles the whole transaction.

  The search is compared with an enumeration of all outcomes in lexicographic order of
  the chosen proofs, and a successful outcome is shown to move the state of each
  contract along a chain of proofs that starts at the stored state.
\<close>

record SettlementResult =
  sr_contract_changes :: ContractChanges
  sr_blob_proof_output_indices :: "nat list"

subsection \<open>The check of an incoming proof output\<close>

definition check_register_effect ::
    "HyleOutput \<Rightarrow> RegisterContractAction \<Rightarrow> (unit, NodeError) Result" where
  "check_register_effect hyle_output action =
     (case ho_onchain_effects hyle_output of
        [] \<Rightarrow> Err (RegisterWithoutEffect (ho_index hyle_output))
      | eff # _ \<Rightarrow>
          (case eff of
             RegisterContract effect \<Rightarrow>
               if effect \<noteq> RegisterContractEffect_from action
               then Err (RegisterEffectMismatch (ho_index hyle_output)) else Ok ()
           | DeleteContract _ \<Rightarrow> Err (RegisterOtherEffect (ho_index hyle_output))))"

definition check_delete_effect ::
    "HyleOutput \<Rightarrow> DeleteContractAction \<Rightarrow> (unit, NodeError) Result" where
  "check_delete_effect hyle_output action =
     (case ho_onchain_effects hyle_output of
        [] \<Rightarrow> Err (DeleteWithoutEffect (ho_index hyle_output))
      | eff # _ \<Rightarrow>
          (case eff of
             DeleteContract effect \<Rightarrow>
               if effect \<noteq> da_contract_name action
               then Err (DeleteEffectMismatch (ho_index hyle_output)) else Ok ()
           | RegisterContract _ \<Rightarrow> Err (DeleteOtherEffect (ho_index hyle_output))))"

definition verify_hyle_output ::
    "Env \<Rightarrow> UnsettledBlobTransaction \<Rightarrow> HyleOutput \<Rightarrow> (unit, NodeError) Result" where
  "verify_hyle_output E unsettled_tx hyle_output =
     (if ut_identity unsettled_tx \<noteq> ho_identity hyle_output
      then Err (ProofIdentityMismatch (ho_identity hyle_output) (ut_identity unsettled_tx))
      else if ho_tx_hash hyle_output \<noteq> ut_hash unsettled_tx
      then Err (ProofTxHashMismatch (ho_tx_hash hyle_output) (ut_hash unsettled_tx))
      else if (case ho_tx_ctx hyle_output of Some tx_ctx \<Rightarrow> tx_ctx \<noteq> ut_tx_context unsettled_tx | None \<Rightarrow> False)
      then Err ProofTxContextMismatch
      else if \<not> includes_all (ut_blobs_hash unsettled_tx) (BlobsHashes_from_indexed E (ho_blobs hyle_output))
      then Err ProofBlobsHashMismatch
      else
        (case map_of (ut_blobs unsettled_tx) (ho_index hyle_output) of
           None \<Rightarrow> Err BlobIndexOutOfBounds
         | Some metadata \<Rightarrow>
             (case dec_register E (b_data (um_blob metadata)) of
                Some data \<Rightarrow> check_register_effect hyle_output (sd_parameters data)
              | None \<Rightarrow>
                  (case dec_delete E (b_data (um_blob metadata)) of
                     Some data \<Rightarrow> check_delete_effect hyle_output (sd_parameters data)
                   | None \<Rightarrow> Ok ()))))"

subsection \<open>Executing one proof\<close>

fun check_state_reads ::
    "Contracts \<Rightarrow> ContractChanges \<Rightarrow> (ContractName \<times> StateCommitment) list \<Rightarrow> (unit, NodeError) Result" where
  "check_state_reads contracts contract_changes [] = Ok ()"
| "check_state_reads contracts contract_changes (state_read # rest) =
     and_then (get_contract contracts contract_changes (fst state_read)) (\<lambda>other_contract.
       if snd state_read \<noteq> c_state other_contract then Err (StateReadMismatch (fst state_read))
       else check_state_reads contracts contract_changes rest)"

definition apply_onchain_effect ::
    "Env \<Rightarrow> Contract \<Rightarrow> Blob \<Rightarrow> OnchainEffect \<Rightarrow> ContractChanges \<Rightarrow> (ContractChanges, NodeError) Result" where
  "apply_onchain_effect E contract blob effect contract_changes =
     (case effect of
        RegisterContract effect \<Rightarrow>
          and_then
            (validate_contract_registration_metadata E (c_name contract) (re_contract_name effect)
               (re_verifier effect) (re_program_id effect) (re_state_commitment effect))
            (\<lambda>_. case dec_register E (b_data blob) of
                    None \<Rightarrow> Err RegisterMetadataUndecodable
                  | Some metadata \<Rightarrow>
                      Ok (bt_insert (re_contract_name effect)
                        (Some \<lparr>c_name = re_contract_name effect,
                               c_program_id = re_program_id effect,
                               c_state = re_state_commitment effect,
                               c_verifier = re_verifier effect,
                               c_timeout_window = (case re_timeout_window effect of
                                  Some w \<Rightarrow> w | None \<Rightarrow> c_timeout_window contract)\<rparr>,
                         ModifiedContractFields_all,
                         [Register (ra_constructor_metadata (sd_parameters metadata))]) contract_changes))
      | DeleteContract cn \<Rightarrow>
          and_then (validate_contract_name_registration (c_name contract) cn) (\<lambda>_.
            Ok (bt_insert cn
              (case map_of contract_changes cn of
                 Some (_, mf, effects) \<Rightarrow> (None, mf, effects @ [Delete])
               | None \<Rightarrow> (None, ModifiedContractFields_all, [Delete])) contract_changes)))"

fun apply_onchain_effects ::
    "Env \<Rightarrow> Contract \<Rightarrow> Blob \<Rightarrow> OnchainEffect list \<Rightarrow> ContractChanges \<Rightarrow> (ContractChanges, NodeError) Result" where
  "apply_onchain_effects E contract blob [] contract_changes = Ok contract_changes"
| "apply_onchain_effects E contract blob (effect # effects) contract_changes =
     and_then (apply_onchain_effect E contract blob effect contract_changes)
       (apply_onchain_effects E contract blob effects)"

text \<open>The entry update at the end of \<open>process_proof\<close>; a deleted contract stays deleted.\<close>

definition update_state :: "Contract \<Rightarrow> StateCommitment \<Rightarrow> ContractChanges \<Rightarrow> ContractChanges" where
  "update_state contract next_state contract_changes =
     bt_insert (c_name contract)
       (case map_of contract_changes (c_name contract) of
          Some (Some c, mf, effects) \<Rightarrow>
            (Some (c\<lparr>c_state := next_state\<rparr>), mf\<lparr>mf_state := True\<rparr>, effects @ [UpdateState])
        | Some (None, mf, effects) \<Rightarrow> (None, mf, effects)
        | None \<Rightarrow>
            (Some (contract\<lparr>c_state := next_state\<rparr>),
             ModifiedContractFields_default\<lparr>mf_state := True\<rparr>, [UpdateState]))
       contract_changes"

definition process_proof ::
    "Env \<Rightarrow> Contracts \<Rightarrow> ContractChanges \<Rightarrow> ContractName \<Rightarrow> ProgramId \<times> HyleOutput \<Rightarrow>
     UnsettledBlobMetadata \<Rightarrow> (ContractChanges, NodeError) Result" where
  "process_proof E contracts contract_changes contract_name proof_metadata current_blob =
     (let (program_id, hyle_output) = proof_metadata
      in and_then (validate_state_commitment_size (ho_next_state hyle_output)) (\<lambda>_.
         and_then (get_contract contracts contract_changes contract_name) (\<lambda>contract.
         if ho_initial_state hyle_output \<noteq> c_state contract
         then Err (InitialStateMismatch (ho_initial_state hyle_output) (c_state contract))
         else if program_id \<noteq> c_program_id contract
         then Err (ProgramIdMismatch program_id (c_program_id contract))
         else
           and_then (check_state_reads contracts contract_changes (ho_state_reads hyle_output)) (\<lambda>_.
           and_then (apply_onchain_effects E contract (um_blob current_blob)
                      (ho_onchain_effects hyle_output) contract_changes) (\<lambda>changes.
           Ok (update_state contract (ho_next_state hyle_output) changes))))))"

subsection \<open>The search\<close>

text \<open>
  \<open>settle_blobs_recursively\<close> takes the next blob, \<open>try_proofs\<close> is its loop over the proofs
  of that blob: \<open>i\<close> is the loop counter, \<open>indices\<close> the indices of the earlier blobs.
\<close>

fun settle_blobs_recursively ::
    "Env \<Rightarrow> Contracts \<Rightarrow> ContractChanges \<Rightarrow> UnsettledBlobMetadata list \<Rightarrow> nat list \<Rightarrow>
     TransactionStateEvent list \<Rightarrow> (SettlementResult, unit) Result option \<times> TransactionStateEvent list"
and try_proofs ::
    "Env \<Rightarrow> Contracts \<Rightarrow> ContractChanges \<Rightarrow> UnsettledBlobMetadata \<Rightarrow> UnsettledBlobMetadata list \<Rightarrow>
     nat list \<Rightarrow> nat \<Rightarrow> (ProgramId \<times> HyleOutput) list \<Rightarrow>
     TransactionStateEvent list \<Rightarrow> (SettlementResult, unit) Result option \<times> TransactionStateEvent list"
where
  "settle_blobs_recursively E contracts contract_changes [] indices events =
     (Some (Ok \<lparr>sr_contract_changes = contract_changes, sr_blob_proof_output_indices = indices\<rparr>), events)"
| "settle_blobs_recursively E contracts contract_changes (current_blob # blob_iter) indices events =
     (if b_contract_name (um_blob current_blob) = ''hyle'' then
        (case handle_blob_for_hyle_tld E contracts contract_changes (um_blob current_blob) of
           Inr changes \<Rightarrow> settle_blobs_recursively E contracts changes blob_iter (indices @ [0]) events
         | Inl err \<Rightarrow> (Some (Err ()), events @ [SettleEvent (RejectedHyleBlob err)]))
      else
        try_proofs E contracts contract_changes current_blob blob_iter indices 0
          (um_possible_proofs current_blob) events)"
| "try_proofs E contracts contract_changes current_blob blob_iter indices i [] events = (None, events)"
| "try_proofs E contracts contract_changes current_blob blob_iter indices i (proof_metadata # rest) events =
     (case process_proof E contracts contract_changes (b_contract_name (um_blob current_blob))
             proof_metadata current_blob of
        Inl msg \<Rightarrow>
          try_proofs E contracts contract_changes current_blob blob_iter indices (Suc i) rest
            (events @ [SettleEvent (RejectedProof i (b_contract_name (um_blob current_blob)) msg)])
      | Inr current_contracts \<Rightarrow>
          if \<not> ho_success (snd proof_metadata)
          then (Some (Err ()), events @ [SettleEvent (ProvenFailure i (ho_program_outputs (snd proof_metadata)))])
          else
            (case settle_blobs_recursively E contracts current_contracts blob_iter (indices @ [i]) events of
               (Some res, events') \<Rightarrow> (Some res, events')
             | (None, events') \<Rightarrow>
                 try_proofs E contracts contract_changes current_blob blob_iter indices (Suc i) rest events'))"

subsection \<open>Reference: all outcomes in order of the chosen proofs\<close>

text \<open>
  An outcome is a success with the final changes and one proof index per blob, or a proven
  failure. The enumeration has the outcomes of the first proof of the first blob first.
\<close>

type_synonym outcome = "(ContractChanges \<times> nat list, unit) Result"

fun cons_index :: "nat \<Rightarrow> outcome \<Rightarrow> outcome" where
  "cons_index i (Inr (ch, is)) = Inr (ch, i # is)"
| "cons_index i (Inl u) = Inl u"

definition proof_outcomes :: "Env \<Rightarrow> Contracts \<Rightarrow> ContractChanges \<Rightarrow> UnsettledBlobMetadata \<Rightarrow> nat \<Rightarrow>
    ProgramId \<times> HyleOutput \<Rightarrow> (ContractChanges \<Rightarrow> outcome list) \<Rightarrow> outcome list" where
  "proof_outcomes E contracts ch b i p later =
     (case process_proof E contracts ch (b_contract_name (um_blob b)) p b of
        Inl _ \<Rightarrow> []
      | Inr ch' \<Rightarrow> if \<not> ho_success (snd p) then [Inl ()] else map (cons_index i) (later ch'))"

fun outcomes :: "Env \<Rightarrow> Contracts \<Rightarrow> ContractChanges \<Rightarrow> UnsettledBlobMetadata list \<Rightarrow> outcome list" where
  "outcomes E contracts ch [] = [Inr (ch, [])]"
| "outcomes E contracts ch (b # bs) =
     (if b_contract_name (um_blob b) = ''hyle'' then
        (case handle_blob_for_hyle_tld E contracts ch (um_blob b) of
           Inr ch' \<Rightarrow> map (cons_index 0) (outcomes E contracts ch' bs)
         | Inl _ \<Rightarrow> [Inl ()])
      else
        concat (map (\<lambda>(i, p). proof_outcomes E contracts ch b i p (\<lambda>ch'. outcomes E contracts ch' bs))
          (enumerate 0 (um_possible_proofs b))))"

fun result_of :: "nat list \<Rightarrow> outcome \<Rightarrow> (SettlementResult, unit) Result" where
  "result_of indices (Inr (ch, is)) =
     Ok \<lparr>sr_contract_changes = ch, sr_blob_proof_output_indices = indices @ is\<rparr>"
| "result_of indices (Inl u) = Err u"

text \<open>Replaying a given choice of proofs, one per blob.\<close>

fun replay :: "Env \<Rightarrow> Contracts \<Rightarrow> ContractChanges \<Rightarrow> UnsettledBlobMetadata list \<Rightarrow> nat list \<Rightarrow> ContractChanges option" where
  "replay E contracts ch [] [] = Some ch"
| "replay E contracts ch (b # bs) (i # is) =
     (if b_contract_name (um_blob b) = ''hyle'' then
        (case handle_blob_for_hyle_tld E contracts ch (um_blob b) of
           Inr ch' \<Rightarrow> if i = 0 then replay E contracts ch' bs is else None
         | Inl _ \<Rightarrow> None)
      else if i < length (um_possible_proofs b) \<and> ho_success (snd (um_possible_proofs b ! i)) then
        (case process_proof E contracts ch (b_contract_name (um_blob b)) (um_possible_proofs b ! i) b of
           Inr ch' \<Rightarrow> replay E contracts ch' bs is
         | Inl _ \<Rightarrow> None)
      else None)"
| "replay E contracts ch _ _ = None"

lemma result_of_cons_index: "result_of indices (cons_index i r) = result_of (indices @ [i]) r"
  by (cases "(i, r)" rule: cons_index.cases) auto

lemma cons_index_Inr: "cons_index i r = Inr (ch, is) \<longleftrightarrow> (\<exists>js. is = i # js \<and> r = Inr (ch, js))"
  by (cases "(i, r)" rule: cons_index.cases) auto

lemma settle_outcomes:
  "fst (settle_blobs_recursively E contracts ch bs indices events) =
     map_option (result_of indices) (front (outcomes E contracts ch bs))"
  and try_outcomes:
  "fst (try_proofs E contracts ch b bs indices i ps events) =
     map_option (result_of indices) (front (concat (map (\<lambda>(i, p).
       proof_outcomes E contracts ch b i p (\<lambda>ch'. outcomes E contracts ch' bs)) (enumerate i ps))))"
proof (induction E contracts ch bs indices events and E contracts ch b bs indices i ps events
    rule: settle_blobs_recursively_try_proofs.induct)
  case (2 E contracts ch b bs indices events)
  then show ?case
    by (auto simp: front_map option.map_comp comp_def result_of_cons_index split: sum.split)
next
  case (4 E contracts ch b bs indices i p ps events)
  show ?case
  proof (cases "process_proof E contracts ch (b_contract_name (um_blob b)) p b")
    case (Inl e)
    with 4(1) show ?thesis by (simp add: proof_outcomes_def)
  next
    case (Inr ch')
    show ?thesis
    proof (cases "ho_success (snd p)")
      case True
      obtain r ev where r: "settle_blobs_recursively E contracts ch' bs (indices @ [i]) events = (r, ev)"
        by force
      have first: "r = map_option (result_of (indices @ [i])) (front (outcomes E contracts ch' bs))"
        using 4(2) [OF Inr] True r by simp
      show ?thesis
      proof (cases r)
        case None
        then show ?thesis
          using 4(3) [OF Inr _ r [symmetric] None] Inr True r first
          by (simp add: proof_outcomes_def front_append front_map)
      next
        case (Some res)
        then obtain o1 where "front (outcomes E contracts ch' bs) = Some o1" "res = result_of (indices @ [i]) o1"
          using first by auto
        with Some Inr True r show ?thesis
          by (simp add: proof_outcomes_def front_append front_map result_of_cons_index)
      qed
    qed (use Inr in \<open>simp add: proof_outcomes_def\<close>)
  qed
qed simp_all

lemma Inr_in_cons_index:
  "Inr (ch, is) \<in> cons_index i ` S \<longleftrightarrow> (\<exists>js. is = i # js \<and> Inr (ch, js) \<in> S)"
  by (metis (no_types, lifting) cons_index_Inr image_iff)

lemma Inr_in_proof_outcomes:
  "Inr (ch', is) \<in> set (proof_outcomes E contracts ch b i p later) \<longleftrightarrow>
     (\<exists>ch1 js. process_proof E contracts ch (b_contract_name (um_blob b)) p b = Inr ch1 \<and>
       ho_success (snd p) \<and> is = i # js \<and> Inr (ch', js) \<in> set (later ch1))"
  by (cases "process_proof E contracts ch (b_contract_name (um_blob b)) p b")
    (auto simp: proof_outcomes_def Inr_in_cons_index)

lemma replay_outcomes:
  "replay E contracts ch bs is = Some ch' \<longleftrightarrow> Inr (ch', is) \<in> set (outcomes E contracts ch bs)"
proof (induction bs arbitrary: ch "is")
  case Nil
  then show ?case by (cases "is") auto
next
  case (Cons b bs)
  show ?case
  proof (cases "b_contract_name (um_blob b) = ''hyle''")
    case True
    then show ?thesis
      by (cases "is") (auto simp: Inr_in_cons_index Cons.IH split: sum.split)
  next
    case False
    have "Inr (ch', is) \<in> set (outcomes E contracts ch (b # bs)) \<longleftrightarrow>
        (\<exists>(i, p) \<in> set (enumerate 0 (um_possible_proofs b)).
          Inr (ch', is) \<in> set (proof_outcomes E contracts ch b i p (\<lambda>ch'. outcomes E contracts ch' bs)))"
      using False by auto
    also have "\<dots> \<longleftrightarrow> replay E contracts ch (b # bs) is = Some ch'"
      using False
      by (cases "is")
        (auto simp: Inr_in_proof_outcomes in_set_enumerate_eq Cons.IH split: sum.splits
          intro!: bexI [where x = "(i, um_possible_proofs b ! i)" for i])
    finally show ?thesis by simp
  qed
qed

subsection \<open>What one proof may change\<close>

fun effect_target :: "OnchainEffect \<Rightarrow> ContractName" where
  "effect_target (RegisterContract e) = re_contract_name e"
| "effect_target (DeleteContract cn) = cn"

lemma apply_onchain_effect_Ok:
  assumes "apply_onchain_effect E contract blob eff ch = Ok ch'"
  shows "is_ok (validate_contract_name_registration (c_name contract) (effect_target eff))"
    and "\<exists>d. ch' = bt_insert (effect_target eff) d ch \<and> (fst d \<noteq> None \<longrightarrow> change_ok (effect_target eff) d)"
proof -
  show "is_ok (validate_contract_name_registration (c_name contract) (effect_target eff))"
    using assms by (cases eff) (auto simp: apply_onchain_effect_def and_then_Ok validate_metadata_Ok is_ok_iff)
  show "\<exists>d. ch' = bt_insert (effect_target eff) d ch \<and> (fst d \<noteq> None \<longrightarrow> change_ok (effect_target eff) d)"
  proof (cases eff)
    case (RegisterContract e)
    then show ?thesis
      using assms
      by (auto simp: apply_onchain_effect_def and_then_Ok change_ok_def split: option.split_asm intro!: exI)
  next
    case (DeleteContract cn)
    then show ?thesis
      using assms
      by (auto simp: apply_onchain_effect_def and_then_Ok simp del: split_paired_Ex split: option.splits)
  qed
qed

lemma apply_onchain_effects_other:
  "apply_onchain_effects E contract blob effs ch = Ok ch' \<Longrightarrow> k \<notin> effect_target ` set effs \<Longrightarrow>
     map_of ch' k = map_of ch k"
proof (induction effs arbitrary: ch)
  case (Cons eff effs)
  then obtain ch1 where ch1: "apply_onchain_effect E contract blob eff ch = Ok ch1"
      and rest: "apply_onchain_effects E contract blob effs ch1 = Ok ch'"
    by (auto simp: ok_simps)
  have "map_of ch1 k = map_of ch k"
    using apply_onchain_effect_Ok(2) [OF ch1] Cons.prems(2) by (auto simp: hm_simps)
  with Cons.IH [OF rest] Cons.prems(2) show ?case by simp
qed simp

lemma apply_onchain_effects_names:
  "apply_onchain_effects E contract blob effs ch = Ok ch' \<Longrightarrow> eff \<in> set effs \<Longrightarrow>
     is_ok (validate_contract_name_registration (c_name contract) (effect_target eff))"
  by (induction effs arbitrary: ch) (auto simp: ok_simps dest: apply_onchain_effect_Ok(1) [unfolded is_ok_iff])

lemma apply_onchain_effects_inv:
  assumes "c_name contract \<noteq> ''hyle''"
  shows "apply_onchain_effects E contract blob effs ch = Ok ch' \<Longrightarrow> changes_inv ch \<Longrightarrow> changes_inv ch'"
proof (induction effs arbitrary: ch)
  case (Cons eff effs)
  then obtain ch1 where ch1: "apply_onchain_effect E contract blob eff ch = Ok ch1"
      and rest: "apply_onchain_effects E contract blob effs ch1 = Ok ch'"
    by (auto simp: ok_simps)
  obtain d where d: "ch1 = bt_insert (effect_target eff) d ch"
      "fst d \<noteq> None \<longrightarrow> change_ok (effect_target eff) d"
    using apply_onchain_effect_Ok(2) [OF ch1] by blast
  have "effect_target eff \<noteq> ''hyle''"
    using apply_onchain_effect_Ok(1) [OF ch1] assms validate_name_hyle [of "c_name contract"]
    by (auto simp: ok_simps)
  with d have "change_ok (effect_target eff) d" by (auto simp: change_ok_def)
  with d have "changes_inv ch1" using Cons.prems(2) by (simp add: changes_inv_insert)
  with Cons.IH rest show ?case by blast
qed simp

lemma update_state_other: "k \<noteq> c_name contract \<Longrightarrow> map_of (update_state contract s ch) k = map_of ch k"
  by (simp add: update_state_def hm_simps)

lemma update_state_get:
  assumes "get_contract contracts ch (c_name contract) = Ok contract"
  shows "get_contract contracts (update_state contract s ch) (c_name contract) = Ok (contract\<lparr>c_state := s\<rparr>)"
proof -
  consider mf se where "map_of ch (c_name contract) = Some (Some contract, mf, se)"
    | "map_of ch (c_name contract) = None"
    using assms by (auto simp: get_contract_Ok)
  then show ?thesis
    by cases (simp_all add: update_state_def get_contract_def hm_simps)
qed

lemma update_state_inv:
  assumes "changes_inv ch"
  shows "changes_inv (update_state contract s ch)"
  unfolding update_state_def
  using changes_invD [OF assms, of "c_name contract"]
  by (intro changes_inv_insert [OF assms]) (auto split: option.split)

lemma process_proof_Ok:
  assumes "process_proof E contracts ch n (pid, ho) b = Ok ch'"
  obtains contract ch1 where "get_contract contracts ch n = Ok contract"
    and "ho_initial_state ho = c_state contract" and "pid = c_program_id contract"
    and "length (ho_next_state ho) \<le> MAX_STATE_COMMITMENT_SIZE"
    and "check_state_reads contracts ch (ho_state_reads ho) = Ok ()"
    and "apply_onchain_effects E contract (um_blob b) (ho_onchain_effects ho) ch = Ok ch1"
    and "ch' = update_state contract (ho_next_state ho) ch1"
  using assms
  by (auto simp: process_proof_def ok_simps validate_state_commitment_size_def split: if_splits)

lemma process_proof_inv:
  assumes "contracts_inv contracts" "changes_inv ch" "n \<noteq> ''hyle''"
    and "process_proof E contracts ch n p b = Ok ch'"
  shows "changes_inv ch'"
proof -
  obtain pid ho where p: "p = (pid, ho)" by force
  from assms(4) [unfolded p] obtain contract ch1 where c: "get_contract contracts ch n = Ok contract"
      and eff: "apply_onchain_effects E contract (um_blob b) (ho_onchain_effects ho) ch = Ok ch1"
      and ch': "ch' = update_state contract (ho_next_state ho) ch1"
    by (rule process_proof_Ok)
  have "c_name contract = n" using get_contract_name assms c by blast
  then show ?thesis
    using ch' apply_onchain_effects_inv eff assms update_state_inv by metis
qed

text \<open>A proof for a contract changes that contract and its direct subdomains only.\<close>

lemma process_proof_isolation:
  assumes inv: "contracts_inv contracts" "changes_inv ch" and n: "n \<noteq> ''hyle''"
    and pp: "process_proof E contracts ch n p b = Ok ch'"
    and k: "k \<noteq> n" "\<not> subdomain_of n k"
  shows "map_of ch' k = map_of ch k"
proof -
  obtain pid ho where p: "p = (pid, ho)" by force
  from pp [unfolded p] obtain contract ch1 where c: "get_contract contracts ch n = Ok contract"
      and eff: "apply_onchain_effects E contract (um_blob b) (ho_onchain_effects ho) ch = Ok ch1"
      and ch': "ch' = update_state contract (ho_next_state ho) ch1"
    by (rule process_proof_Ok)
  have name: "c_name contract = n" using get_contract_name inv c by blast
  then have "k \<notin> effect_target ` set (ho_onchain_effects ho)"
    using apply_onchain_effects_names [OF eff] k n by (auto simp: validate_name_cases)
  then show ?thesis
    using name k ch' by (simp add: update_state_other apply_onchain_effects_other [OF eff])
qed

lemma replay_inv:
  "contracts_inv contracts \<Longrightarrow> changes_inv ch \<Longrightarrow> replay E contracts ch bs is = Some ch' \<Longrightarrow> changes_inv ch'"
  by (induction E contracts ch bs "is" rule: replay.induct)
    (auto split: if_splits sum.splits dest: handle_blob_inv process_proof_inv)

lemma settle_Ok_iff:
  assumes "fst (settle_blobs_recursively E contracts ch bs indices events) = Some (Ok r)"
  shows "\<exists>is. sr_blob_proof_output_indices r = indices @ is \<and>
    replay E contracts ch bs is = Some (sr_contract_changes r)"
proof -
  obtain x where x: "front (outcomes E contracts ch bs) = Some x" "result_of indices x = Ok r"
    using assms by (auto simp: settle_outcomes)
  then show ?thesis
    by (cases "(indices, x)" rule: result_of.cases) (auto simp: replay_outcomes dest: front_in_set)
qed

text \<open>
  A proven failure: the blobs before some blob replay, and that blob is then rejected by the
  built-in contract or has a valid proof that the program failed.
\<close>

definition blob_fails :: "Env \<Rightarrow> Contracts \<Rightarrow> ContractChanges \<Rightarrow> UnsettledBlobMetadata \<Rightarrow> bool" where
  "blob_fails E contracts ch b =
     (if b_contract_name (um_blob b) = ''hyle''
      then \<not> is_ok (handle_blob_for_hyle_tld E contracts ch (um_blob b))
      else list_ex (\<lambda>p. \<not> ho_success (snd p) \<and>
             is_ok (process_proof E contracts ch (b_contract_name (um_blob b)) p b)) (um_possible_proofs b))"

definition proven_failure :: "Env \<Rightarrow> Contracts \<Rightarrow> ContractChanges \<Rightarrow> UnsettledBlobMetadata list \<Rightarrow> bool" where
  "proven_failure E contracts ch bs \<longleftrightarrow>
     (\<exists>pre b post is ch1. bs = pre @ b # post \<and> replay E contracts ch pre is = Some ch1 \<and>
        blob_fails E contracts ch1 b)"

lemma replay_single:
  "replay E contracts ch [b] [i] = Some ch1 \<longleftrightarrow>
     (if b_contract_name (um_blob b) = ''hyle''
      then handle_blob_for_hyle_tld E contracts ch (um_blob b) = Inr ch1 \<and> i = 0
      else i < length (um_possible_proofs b) \<and> ho_success (snd (um_possible_proofs b ! i)) \<and>
        process_proof E contracts ch (b_contract_name (um_blob b)) (um_possible_proofs b ! i) b = Inr ch1)"
  by (auto split: sum.splits)

lemma proven_failure_Cons:
  "proven_failure E contracts ch (b # bs) \<longleftrightarrow> blob_fails E contracts ch b \<or>
     (\<exists>i ch1. replay E contracts ch [b] [i] = Some ch1 \<and> proven_failure E contracts ch1 bs)"
  (is "?l \<longleftrightarrow> ?f \<or> ?r")
proof
  assume ?l
  then obtain pre b' post "is" ch1 where p: "b # bs = pre @ b' # post"
      "replay E contracts ch pre is = Some ch1" "blob_fails E contracts ch1 b'"
    by (auto simp: proven_failure_def)
  show "?f \<or> ?r"
  proof (cases pre)
    case Nil
    with p show ?thesis by (cases "is") auto
  next
    case (Cons x pre')
    with p obtain i js where "is = i # js" by (cases "is") auto
    with p Cons show ?thesis
      by (force simp: proven_failure_def split: if_splits sum.splits)
  qed
next
  assume "?f \<or> ?r"
  then show ?l
  proof
    assume ?f
    then show ?l
      unfolding proven_failure_def
      by (intro exI [of _ "[]"] exI [of _ b] exI [of _ bs] exI [of _ "[]"] exI [of _ ch]) simp
  next
    assume ?r
    then obtain i ch1 pre b' post "is" ch2 where "replay E contracts ch [b] [i] = Some ch1"
        "bs = pre @ b' # post" "replay E contracts ch1 pre is = Some ch2" "blob_fails E contracts ch2 b'"
      by (auto simp: proven_failure_def)
    then show ?l
      unfolding proven_failure_def
      by (intro exI [of _ "b # pre"] exI [of _ b'] exI [of _ post] exI [of _ "i # is"] exI [of _ ch2])
        (auto split: if_splits sum.splits)
  qed
qed

lemma Inl_in_cons_index: "Inl () \<in> cons_index i ` S \<longleftrightarrow> Inl () \<in> S"
proof -
  have inl: "Inl () = cons_index i r \<longleftrightarrow> r = Inl ()" for r
    by (cases "(i, r)" rule: cons_index.cases) auto
  show ?thesis by (simp add: image_iff inl)
qed

lemma Inl_in_proof_outcomes:
  "Inl () \<in> set (proof_outcomes E contracts ch b i p later) \<longleftrightarrow>
     (\<exists>ch1. process_proof E contracts ch (b_contract_name (um_blob b)) p b = Inr ch1 \<and>
       (ho_success (snd p) \<longrightarrow> Inl () \<in> set (later ch1)))"
  by (cases "process_proof E contracts ch (b_contract_name (um_blob b)) p b")
    (auto simp: proof_outcomes_def Inl_in_cons_index)

lemma proven_failure_outcomes:
  "proven_failure E contracts ch bs \<longleftrightarrow> Inl () \<in> set (outcomes E contracts ch bs)"
proof (induction bs arbitrary: ch)
  case Nil
  then show ?case by (simp add: proven_failure_def)
next
  case (Cons b bs)
  show ?case
  proof (cases "b_contract_name (um_blob b) = ''hyle''")
    case True
    then show ?thesis
      unfolding proven_failure_Cons Cons.IH
      by (cases "handle_blob_for_hyle_tld E contracts ch (um_blob b)")
        (auto simp: blob_fails_def Inl_in_cons_index)
  next
    case False
    have "Inl () \<in> set (outcomes E contracts ch (b # bs)) \<longleftrightarrow>
        (\<exists>i < length (um_possible_proofs b).
          Inl () \<in> set (proof_outcomes E contracts ch b i (um_possible_proofs b ! i)
            (\<lambda>ch'. outcomes E contracts ch' bs)))"
      using False by (auto simp: bex_enumerate simp del: split_paired_Ex; metis surj_pair)
    also have "\<dots> \<longleftrightarrow> proven_failure E contracts ch (b # bs)"
      unfolding proven_failure_Cons Cons.IH Inl_in_proof_outcomes replay_single
      using False by (auto simp: blob_fails_def list_ex_length is_ok_iff)
    finally show ?thesis by simp
  qed
qed


subsection \<open>Chains of proofs and isolation\<close>

text \<open>The outputs that a choice of proofs uses for one contract, in blob order.\<close>

fun used_outputs :: "UnsettledBlobMetadata list \<Rightarrow> nat list \<Rightarrow> ContractName \<Rightarrow> HyleOutput list" where
  "used_outputs (b # bs) (i # is) c =
     (if b_contract_name (um_blob b) = c then [snd (um_possible_proofs b ! i)] else []) @ used_outputs bs is c"
| "used_outputs _ _ c = []"

fun state_chain :: "StateCommitment \<Rightarrow> HyleOutput list \<Rightarrow> StateCommitment \<Rightarrow> bool" where
  "state_chain s [] s' \<longleftrightarrow> s = s'"
| "state_chain s (ho # hos) s' \<longleftrightarrow> ho_initial_state ho = s \<and> ho_success ho \<and> state_chain (ho_next_state ho) hos s'"

text \<open>No blob of the transaction registers or deletes the contract.\<close>

definition keeps_contract :: "Env \<Rightarrow> ContractName \<Rightarrow> UnsettledBlobMetadata \<Rightarrow> bool" where
  "keeps_contract E c b \<longleftrightarrow>
     (if b_contract_name (um_blob b) = ''hyle''
      then (case dec_delete E (b_data (um_blob b)) of Some d \<Rightarrow> da_contract_name (sd_parameters d) \<noteq> c | None \<Rightarrow> True)
      else list_all (\<lambda>p. list_all (\<lambda>e. effect_target e \<noteq> c) (ho_onchain_effects (snd p))) (um_possible_proofs b))"

lemma process_proof_state:
  assumes inv: "contracts_inv contracts" "changes_inv ch"
    and pp: "process_proof E contracts ch n (pid, ho) b = Ok ch'"
    and eff: "\<forall>e \<in> set (ho_onchain_effects ho). effect_target e \<noteq> c"
    and c: "get_contract contracts ch c = Ok k"
  shows "\<exists>k'. get_contract contracts ch' c = Ok k' \<and>
    (if n = c then ho_initial_state ho = c_state k \<and> c_state k' = ho_next_state ho else k' = k)"
proof -
  from pp obtain contract ch1 where n: "get_contract contracts ch n = Ok contract"
      and init: "ho_initial_state ho = c_state contract"
      and eff1: "apply_onchain_effects E contract (um_blob b) (ho_onchain_effects ho) ch = Ok ch1"
      and ch': "ch' = update_state contract (ho_next_state ho) ch1"
    by (rule process_proof_Ok)
  have name: "c_name contract = n" using get_contract_name inv n by blast
  have same: "map_of ch1 c = map_of ch c"
    using apply_onchain_effects_other [OF eff1, of c] eff by force
  then have c1: "get_contract contracts ch1 c = Ok k" using c by (simp add: get_contract_def)
  show ?thesis
  proof (cases "n = c")
    case True
    with n c have "k = contract" by simp
    with True name init ch' c1 show ?thesis
      using update_state_get [of contracts ch1 contract] by auto
  next
    case False
    then have "map_of ch' c = map_of ch1 c" using ch' name by (simp add: update_state_other)
    with False c1 show ?thesis by (simp add: get_contract_def)
  qed
qed

lemma handle_blob_state:
  assumes "contracts_inv contracts" "handle_blob_for_hyle_tld E contracts ch (um_blob b) = Ok ch'"
    and "b_contract_name (um_blob b) = ''hyle''" "keeps_contract E c b" "c \<noteq> ''hyle''"
    and c: "get_contract contracts ch c = Ok k"
  shows "\<exists>k'. get_contract contracts ch' c = Ok k' \<and> c_state k' = c_state k"
proof -
  have "map_of ch c \<noteq> None \<or> hm_contains contracts c"
    using c by (auto simp: get_contract_Ok hm_contains_def)
  with assms show ?thesis
    by (auto simp: handle_blob_for_hyle_tld_def keeps_contract_def get_contract_insert simp del: not_None_eq
        split: option.split_asm if_split_asm dest!: handle_blob_Ok)
qed

lemma replay_state_chain:
  assumes "contracts_inv contracts" "changes_inv ch" "replay E contracts ch bs is = Some ch'"
    and "list_all (keeps_contract E c) bs" "c \<noteq> ''hyle''" "get_contract contracts ch c = Ok k"
  shows "\<exists>k'. get_contract contracts ch' c = Ok k' \<and>
    state_chain (c_state k) (used_outputs bs is c) (c_state k')"
  using assms
proof (induction bs arbitrary: ch "is" k)
  case Nil
  then show ?case by (cases "is") auto
next
  case (Cons b bs)
  obtain i js where is_Cons: "is = i # js" using Cons.prems(3) by (cases "is") auto
  show ?case
  proof (cases "b_contract_name (um_blob b) = ''hyle''")
    case True
    then obtain ch1 where h: "handle_blob_for_hyle_tld E contracts ch (um_blob b) = Ok ch1"
        and rest: "replay E contracts ch1 bs js = Some ch'"
      using Cons.prems(3) is_Cons by (auto split: sum.splits if_splits)
    obtain k1 where "get_contract contracts ch1 c = Ok k1" "c_state k1 = c_state k"
      using handle_blob_state [OF Cons.prems(1) h True] Cons.prems by auto
    with Cons.IH [OF Cons.prems(1) handle_blob_inv [OF Cons.prems(1,2) h] rest] Cons.prems True is_Cons
    show ?thesis by simp
  next
    case False
    let ?p = "um_possible_proofs b ! i"
    from False Cons.prems(3) is_Cons obtain ch1
      where i: "i < length (um_possible_proofs b)" and ok: "ho_success (snd ?p)"
        and h: "process_proof E contracts ch (b_contract_name (um_blob b)) ?p b = Ok ch1"
        and rest: "replay E contracts ch1 bs js = Some ch'"
      by (auto split: sum.splits if_splits)
    have eff: "\<forall>e \<in> set (ho_onchain_effects (snd ?p)). effect_target e \<noteq> c"
      using Cons.prems(4) False i by (auto simp: keeps_contract_def list_all_iff)
    obtain k1 where "get_contract contracts ch1 c = Ok k1"
        "if b_contract_name (um_blob b) = c
         then ho_initial_state (snd ?p) = c_state k \<and> c_state k1 = ho_next_state (snd ?p) else k1 = k"
      using process_proof_state [OF Cons.prems(1,2) _ eff Cons.prems(6)] h by (metis surjective_pairing)
    with Cons.IH [OF Cons.prems(1) process_proof_inv [OF Cons.prems(1,2) False h] rest] Cons.prems ok is_Cons
    show ?thesis by (auto split: if_splits)
  qed
qed

lemma sample_contracts_inv: "contracts_inv sample_contracts"
  by (auto simp: contracts_inv_def sample_contracts_def hm_inv_def hm_contains_def split: if_splits)

text \<open>The sample blob settles by its only proof.\<close>

lemma sample_settles:
  "\<exists>r. fst (settle_blobs_recursively sample_env sample_contracts [] [sample_blob] [] []) = Some (Ok r) \<and>
     sr_blob_proof_output_indices r = [0] \<and> map_of (sr_contract_changes r) ''hyle'' = None \<and>
     get_contract sample_contracts (sr_contract_changes r) ''c'' =
       Ok \<lparr>c_name = ''c'', c_program_id = [1], c_state = [3], c_verifier = ''test'', c_timeout_window = Timeout 100\<rparr>"
  by (simp add: sample_blob_def sample_output_def sample_contracts_def process_proof_def get_contract_def
      validate_state_commitment_size_def MAX_STATE_COMMITMENT_SIZE_def update_state_def)

text \<open>
  C15. Integrity of contract states: when a transaction settles as a success and none of its
  blobs registers or deletes a contract, the state of the contract moves along the chosen
  proofs. The first proof starts at the stored state, each next proof starts where the
  previous one ended, every one of them reports success, and the pending state is the
  final state of the last.
\<close>

theorem settled_state_chain:
  assumes "contracts_inv contracts" and "c \<noteq> ''hyle''" and "map_of contracts c = Some k"
    and "list_all (keeps_contract E c) bs"
    and "fst (settle_blobs_recursively E contracts [] bs [] events) = Some (Ok r)"
  shows "\<exists>k'. get_contract contracts (sr_contract_changes r) c = Ok k' \<and>
    state_chain (c_state k) (used_outputs bs (sr_blob_proof_output_indices r) c) (c_state k')"
proof -
  have "get_contract contracts [] c = Ok k"
    using assms(3) by (simp add: get_contract_def)
  moreover have "replay E contracts [] bs (sr_blob_proof_output_indices r) = Some (sr_contract_changes r)"
    using settle_Ok_iff [OF assms(5)] by simp
  ultimately show ?thesis
    using replay_state_chain assms(1,2,4) by (meson changes_inv_Nil)
qed

theorem settled_state_chain_witness:
  "\<exists>r k'. fst (settle_blobs_recursively sample_env sample_contracts [] [sample_blob] [] []) = Some (Ok r) \<and>
     get_contract sample_contracts (sr_contract_changes r) ''c'' = Ok k' \<and>
     state_chain [2] (used_outputs [sample_blob] (sr_blob_proof_output_indices r) ''c'') (c_state k')"
proof -
  let ?k = "\<lparr>c_name = ''c'', c_program_id = [1], c_state = [2], c_verifier = ''test'', c_timeout_window = Timeout 100\<rparr>"
  obtain r where r: "fst (settle_blobs_recursively sample_env sample_contracts [] [sample_blob] [] []) = Some (Ok r)"
    using sample_settles by blast
  have "list_all (keeps_contract sample_env ''c'') [sample_blob]"
    by (simp add: keeps_contract_def sample_blob_def sample_output_def)
  moreover have "map_of sample_contracts ''c'' = Some ?k"
    by (simp add: sample_contracts_def)
  ultimately show ?thesis
    using settled_state_chain [OF sample_contracts_inv, of "''c''" ?k sample_env "[sample_blob]" "[]" r] r by auto
qed

text \<open>
  C16. Isolation: a successful transaction without blobs for \<open>hyle\<close> changes only contracts
  named by its blobs and direct subdomains of these.
\<close>

theorem settled_isolation:
  assumes "contracts_inv contracts"
    and "\<forall>b \<in> set bs. b_contract_name (um_blob b) \<noteq> ''hyle''"
    and "fst (settle_blobs_recursively E contracts [] bs [] events) = Some (Ok r)"
    and "\<forall>b \<in> set bs. k \<noteq> b_contract_name (um_blob b) \<and> \<not> subdomain_of (b_contract_name (um_blob b)) k"
  shows "map_of (sr_contract_changes r) k = None"
proof -
  have "map_of ch' k = map_of ch k" if "changes_inv ch" "replay E contracts ch bs is = Some ch'" for ch ch' "is"
    using that assms(2,4)
  proof (induction bs arbitrary: ch "is")
    case Nil
    then show ?case by (cases "is") auto
  next
    case (Cons b bs)
    then obtain i js ch1 where h: "process_proof E contracts ch (b_contract_name (um_blob b)) (um_possible_proofs b ! i) b = Ok ch1"
        and rest: "replay E contracts ch1 bs js = Some ch'"
      by (cases "is") (auto split: sum.splits if_splits)
    have "map_of ch1 k = map_of ch k"
      using process_proof_isolation [OF assms(1) Cons.prems(1) _ h] Cons.prems(3,4) by simp
    moreover have "changes_inv ch1"
      using process_proof_inv [OF assms(1) Cons.prems(1) _ h] Cons.prems(3) by simp
    ultimately show ?case
      using Cons.IH [OF _ rest] Cons.prems(3,4) by simp
  qed
  then show ?thesis
    using settle_Ok_iff [OF assms(3)] by (metis append_Nil changes_inv_Nil map_of.simps(1))
qed

theorem settled_isolation_witness:
  "\<exists>r. fst (settle_blobs_recursively sample_env sample_contracts [] [sample_blob] [] []) = Some (Ok r) \<and>
     map_of (sr_contract_changes r) ''hyle'' = None"
proof -
  obtain r where r: "fst (settle_blobs_recursively sample_env sample_contracts [] [sample_blob] [] []) = Some (Ok r)"
    using sample_settles by blast
  have "\<not> subdomain_of ''c'' ''hyle''"
    by (auto simp: subdomain_of_def Cons_eq_append_conv)
  then show ?thesis
    using settled_isolation [OF sample_contracts_inv _ r, of "''hyle''"] r
    by (auto simp: sample_blob_def)
qed

text \<open>
  A proof output is checked against the action of its blob by its first effect only, and not
  at all when the blob is no registration or deletion: here an output that deletes a
  contract passes the check for a blob that says nothing of the kind.
\<close>

lemma unchecked_effects:
  assumes "verify_hyle_output E tx ho = Ok ()" and "ho_index ho \<in> dom (map_of (ut_blobs tx))"
    and "ho_onchain_effects ho \<noteq> [] \<or> (\<forall>b \<in> ran (map_of (ut_blobs tx)).
      dec_register E (b_data (um_blob b)) = None \<and> dec_delete E (b_data (um_blob b)) = None)"
  shows "verify_hyle_output E tx (ho\<lparr>ho_onchain_effects := ho_onchain_effects ho @ effs\<rparr>) = Ok ()"
proof -
  obtain md where md: "map_of (ut_blobs tx) (ho_index ho) = Some md" using assms(2) by auto
  then have "md \<in> ran (map_of (ut_blobs tx))" by (rule ranI)
  with assms md show ?thesis
    by (cases "ho_onchain_effects ho")
      (auto simp: verify_hyle_output_def check_register_effect_def check_delete_effect_def
        split: option.splits if_splits OnchainEffect.splits)
qed

end
