(* ===== verification/Ordered_Tx_Map.thy ===== *)
theory Ordered_Tx_Map
  imports Hyle_Block
begin

text \<open>
  The unsettled transactions of the node
  (\<open>crates/hyle-modules/src/node_state/ordered_tx_map.rs\<close>): a map from transaction hash
  to transaction, and for each contract the queue of the hashes of the transactions that
  touch it, in the order they were sequenced.

  The abstract specification is a list of transactions in sequencing order. A concrete
  map represents such a list when its queues are the projections of the list; every
  operation is shown to implement the corresponding operation on lists.
\<close>

record OrderedTxMap =
  om_map :: "(TxHash, UnsettledBlobTransaction) hashmap"
  om_tx_order :: "(ContractName, TxHash list) hashmap"

definition OrderedTxMap_default :: OrderedTxMap where
  "OrderedTxMap_default = \<lparr>om_map = [], om_tx_order = []\<rparr>"

definition otm_get :: "OrderedTxMap \<Rightarrow> TxHash \<Rightarrow> UnsettledBlobTransaction option" where
  "otm_get m hash = hm_get (om_map m) hash"

text \<open>
  \<open>get_mut\<close> hands out a reference through which the caller replaces the transaction.
\<close>

definition otm_set :: "OrderedTxMap \<Rightarrow> TxHash \<Rightarrow> UnsettledBlobTransaction \<Rightarrow> OrderedTxMap" where
  "otm_set m hash tx = m\<lparr>om_map := hm_insert hash tx (om_map m)\<rparr>"

definition otm_len :: "OrderedTxMap \<Rightarrow> nat" where
  "otm_len m = length (om_map m)"

definition get_tx_order :: "OrderedTxMap \<Rightarrow> ContractName \<Rightarrow> TxHash list option" where
  "get_tx_order m contract = hm_get (om_tx_order m) contract"

definition get_next_unsettled_tx :: "OrderedTxMap \<Rightarrow> ContractName \<Rightarrow> TxHash option" where
  "get_next_unsettled_tx m contract = Option.bind (hm_get (om_tx_order m) contract) front"

definition get_earliest_unsettled_height :: "OrderedTxMap \<Rightarrow> ContractName \<Rightarrow> BlockHeight option" where
  "get_earliest_unsettled_height m contract =
     map_option (\<lambda>tx. tc_block_height (ut_tx_context tx))
       (Option.bind (Option.bind (hm_get (om_tx_order m) contract) front) (hm_get (om_map m)))"

text \<open>The contracts of one blob: the contract it is for and the one it registers or deletes.\<close>

definition blob_contracts :: "Env \<Rightarrow> Blob \<Rightarrow> ContractName list" where
  "blob_contracts E b =
     b_contract_name b #
       (case dec_register E (b_data b) of
          Some d \<Rightarrow> [ra_contract_name (sd_parameters d)]
        | None \<Rightarrow>
            (case dec_delete E (b_data b) of
               Some d \<Rightarrow> [da_contract_name (sd_parameters d)]
             | None \<Rightarrow> []))"

text \<open>The result is a \<open>HashSet\<close>: a list without duplicates whose order is immaterial.\<close>

definition get_contracts_blocked_by_tx :: "Env \<Rightarrow> UnsettledBlobTransaction \<Rightarrow> ContractName list" where
  "get_contracts_blocked_by_tx E tx =
     remdups (concat (map (\<lambda>(_, um). blob_contracts E (um_blob um)) (ut_blobs tx)))"

definition is_next_to_settle :: "Env \<Rightarrow> OrderedTxMap \<Rightarrow> TxHash \<Rightarrow> bool" where
  "is_next_to_settle E m tx_hash =
     (case hm_get (om_map m) tx_hash of
        Some unsettled_blob_tx \<Rightarrow>
          list_all (\<lambda>c. get_next_unsettled_tx m c = Some tx_hash)
            (get_contracts_blocked_by_tx E unsettled_blob_tx)
      | None \<Rightarrow> False)"

definition get_for_settlement :: "Env \<Rightarrow> OrderedTxMap \<Rightarrow> TxHash \<Rightarrow> (UnsettledBlobTransaction \<times> bool) option" where
  "get_for_settlement E m hash =
     (case hm_get (om_map m) hash of
        Some tx \<Rightarrow>
          Some (tx, list_all (\<lambda>c. Option.bind (hm_get (om_tx_order m) c) front = Some hash)
                      (get_contracts_blocked_by_tx E tx))
      | None \<Rightarrow> None)"

definition get_next_txs_blocked_by_tx :: "Env \<Rightarrow> OrderedTxMap \<Rightarrow> UnsettledBlobTransaction \<Rightarrow> TxHash btreeset" where
  "get_next_txs_blocked_by_tx E m tx =
     bs_extend (List.map_filter (get_next_unsettled_tx m) (get_contracts_blocked_by_tx E tx)) []"

text \<open>The body of the loop of \<open>add\<close>: push the hash on the queue of one contract.\<close>

fun add_to_queue :: "TxHash \<Rightarrow> ContractName \<Rightarrow> (ContractName, TxHash list) hashmap \<times> bool \<Rightarrow>
    (ContractName, TxHash list) hashmap \<times> bool" where
  "add_to_queue hash contract (tx_order, is_next) =
     (case hm_get tx_order contract of
        Some v \<Rightarrow> (hm_insert contract (v @ [hash]) tx_order, length (v @ [hash]) = 1 \<and> is_next)
      | None \<Rightarrow> (hm_insert contract [hash] tx_order, True \<and> is_next))"

definition otm_add :: "Env \<Rightarrow> OrderedTxMap \<Rightarrow> UnsettledBlobTransaction \<Rightarrow> OrderedTxMap \<times> bool option" where
  "otm_add E m tx =
     (if hm_contains (om_map m) (ut_hash tx) then (m, None)
      else
        let (tx_order, is_next) =
              fold (add_to_queue (ut_hash tx)) (get_contracts_blocked_by_tx E tx) (om_tx_order m, True)
        in (\<lparr>om_map = hm_insert (ut_hash tx) tx (om_map m), om_tx_order = tx_order\<rparr>, Some is_next))"

text \<open>The body of the loop of \<open>remove\<close>: an emptied queue is dropped.\<close>

definition remove_from_queue :: "TxHash \<Rightarrow> ContractName \<Rightarrow> (ContractName, TxHash list) hashmap \<Rightarrow>
    (ContractName, TxHash list) hashmap" where
  "remove_from_queue hash contract tx_order =
     (case hm_get tx_order contract of
        Some v \<Rightarrow>
          let v' = filter (\<lambda>h. h \<noteq> hash) v
          in if v' = [] then hm_remove contract tx_order else hm_insert contract v' tx_order
      | None \<Rightarrow> tx_order)"

definition otm_remove :: "Env \<Rightarrow> OrderedTxMap \<Rightarrow> TxHash \<Rightarrow> OrderedTxMap \<times> UnsettledBlobTransaction option" where
  "otm_remove E m hash =
     (case hm_get (om_map m) hash of
        Some tx \<Rightarrow>
          (\<lparr>om_map = hm_remove hash (om_map m),
            om_tx_order = fold (remove_from_queue (ut_hash tx)) (get_contracts_blocked_by_tx E tx) (om_tx_order m)\<rparr>,
           Some tx)
      | None \<Rightarrow> (m, None))"

subsection \<open>The abstract specification: transactions in sequencing order\<close>

definition touches :: "Env \<Rightarrow> UnsettledBlobTransaction \<Rightarrow> ContractName \<Rightarrow> bool" where
  "touches E tx c = (c \<in> set (get_contracts_blocked_by_tx E tx))"

definition queue_of :: "Env \<Rightarrow> UnsettledBlobTransaction list \<Rightarrow> ContractName \<Rightarrow> TxHash list" where
  "queue_of E ts c = map ut_hash (filter (\<lambda>t. touches E t c) ts)"

definition lookup_tx :: "UnsettledBlobTransaction list \<Rightarrow> TxHash \<Rightarrow> UnsettledBlobTransaction option" where
  "lookup_tx ts h = find (\<lambda>t. ut_hash t = h) ts"

definition otm_repr :: "Env \<Rightarrow> OrderedTxMap \<Rightarrow> UnsettledBlobTransaction list \<Rightarrow> bool" where
  "otm_repr E m ts \<longleftrightarrow>
     hm_inv (om_map m) \<and> distinct (map ut_hash ts) \<and>
     (\<forall>h. map_of (om_map m) h = lookup_tx ts h) \<and>
     (\<forall>c. map_of (om_tx_order m) c = (if queue_of E ts c = [] then None else Some (queue_of E ts c)))"

definition otm_inv :: "Env \<Rightarrow> OrderedTxMap \<Rightarrow> bool" where
  "otm_inv E m \<longleftrightarrow> (\<exists>ts. otm_repr E m ts)"

lemma lookup_tx_Some: "lookup_tx ts h = Some t \<Longrightarrow> t \<in> set ts \<and> ut_hash t = h"
  by (auto simp: lookup_tx_def find_Some_iff)

lemma lookup_tx_None: "lookup_tx ts h = None \<longleftrightarrow> h \<notin> ut_hash ` set ts"
  by (auto simp: lookup_tx_def find_None_iff)

lemma lookup_tx_in: "distinct (map ut_hash ts) \<Longrightarrow> t \<in> set ts \<Longrightarrow> lookup_tx ts (ut_hash t) = Some t"
  by (induction ts) (auto simp: lookup_tx_def)

lemma lookup_tx_single: "lookup_tx [t] h = (if ut_hash t = h then Some t else None)"
  by (simp add: lookup_tx_def)

lemma lookup_tx_append: "lookup_tx (ts @ us) h = (case lookup_tx ts h of None \<Rightarrow> lookup_tx us h | Some t \<Rightarrow> Some t)"
  by (induction ts) (auto simp: lookup_tx_def)

lemma lookup_tx_filter: "lookup_tx (filter (\<lambda>t. ut_hash t \<noteq> h) ts) h' = (if h' = h then None else lookup_tx ts h')"
  by (induction ts) (auto simp: lookup_tx_def)

lemma fold_add_to_queue:
  assumes "distinct cs"
  shows "map_of (fst (fold (add_to_queue h) cs (ord, b))) c =
      (if c \<in> set cs then Some ((case map_of ord c of None \<Rightarrow> [] | Some v \<Rightarrow> v) @ [h]) else map_of ord c)"
    and "snd (fold (add_to_queue h) cs (ord, b)) \<longleftrightarrow>
      b \<and> (\<forall>c \<in> set cs. case map_of ord c of None \<Rightarrow> True | Some v \<Rightarrow> v = [])"
  using assms
proof (induction cs arbitrary: ord b)
  case (Cons x cs)
  {
    case 1
    then show ?case
      by (cases "map_of ord x") (auto simp: Cons.IH hm_simps split: option.splits)
  next
    case 2
    have other: "(\<forall>c \<in> set cs. case map_of (hm_insert x v ord) c of None \<Rightarrow> True | Some v \<Rightarrow> v = []) \<longleftrightarrow>
        (\<forall>c \<in> set cs. case map_of ord c of None \<Rightarrow> True | Some v \<Rightarrow> v = [])" for v
      using 2 by (intro ball_cong) (auto simp: hm_simps)
    show ?case
      using 2 by (cases "map_of ord x") (auto simp: Cons.IH other)
  }
qed simp_all

lemma map_of_remove_from_queue:
  "map_of (remove_from_queue h x ord) c =
     (if c = x then (case map_of ord x of
        Some v \<Rightarrow> if filter (\<lambda>k. k \<noteq> h) v = [] then None else Some (filter (\<lambda>k. k \<noteq> h) v)
      | None \<Rightarrow> None) else map_of ord c)"
  by (auto simp: remove_from_queue_def Let_def hm_simps split: option.split)

lemma fold_remove_from_queue:
  assumes "distinct cs"
  shows "map_of (fold (remove_from_queue h) cs ord) c =
     (if c \<in> set cs then (case map_of ord c of
        Some v \<Rightarrow> if filter (\<lambda>k. k \<noteq> h) v = [] then None else Some (filter (\<lambda>k. k \<noteq> h) v)
      | None \<Rightarrow> None) else map_of ord c)"
  using assms
proof (induction cs arbitrary: ord)
  case (Cons x cs)
  then show ?case by (auto simp: map_of_remove_from_queue)
qed simp

lemma distinct_blocked [simp]: "distinct (get_contracts_blocked_by_tx E tx)"
  by (simp add: get_contracts_blocked_by_tx_def)

subsection \<open>Every operation implements its abstract counterpart\<close>

lemma otm_repr_default: "otm_repr E OrderedTxMap_default []"
  by (simp add: otm_repr_def OrderedTxMap_default_def lookup_tx_def queue_of_def)

lemma otm_get_repr: "otm_repr E m ts \<Longrightarrow> otm_get m h = lookup_tx ts h"
  by (simp add: otm_repr_def otm_get_def)

lemma get_next_repr: "otm_repr E m ts \<Longrightarrow> get_next_unsettled_tx m c = front (queue_of E ts c)"
  by (simp add: otm_repr_def get_next_unsettled_tx_def front_def)

lemma otm_add_repr:
  assumes r: "otm_repr E m ts"
  shows "ut_hash tx \<in> ut_hash ` set ts \<Longrightarrow> otm_add E m tx = (m, None)"
    and "ut_hash tx \<notin> ut_hash ` set ts \<Longrightarrow>
      \<exists>m'. otm_add E m tx = (m', Some (\<forall>c. touches E tx c \<longrightarrow> queue_of E ts c = [])) \<and>
        otm_repr E m' (ts @ [tx])"
proof -
  have get: "map_of (om_map m) h = lookup_tx ts h" for h
    using r by (simp add: otm_repr_def)
  show "otm_add E m tx = (m, None)" if "ut_hash tx \<in> ut_hash ` set ts"
    using that by (simp add: otm_add_def hm_contains_def get lookup_tx_None)
  assume new: "ut_hash tx \<notin> ut_hash ` set ts"
  let ?cs = "get_contracts_blocked_by_tx E tx"
  obtain ord n where f: "fold (add_to_queue (ut_hash tx)) ?cs (om_tx_order m, True) = (ord, n)"
    by force
  let ?m' = "\<lparr>om_map = hm_insert (ut_hash tx) tx (om_map m), om_tx_order = ord\<rparr>"
  have add: "otm_add E m tx = (?m', Some n)"
    using new by (simp add: otm_add_def hm_contains_def get lookup_tx_None f)
  have ord: "map_of ord c = (if touches E tx c
      then Some ((case map_of (om_tx_order m) c of None \<Rightarrow> [] | Some v \<Rightarrow> v) @ [ut_hash tx])
      else map_of (om_tx_order m) c)" for c
    using fold_add_to_queue(1) [of ?cs "ut_hash tx" "om_tx_order m" True c] f
    by (simp add: touches_def)
  have n: "n \<longleftrightarrow> (\<forall>c. touches E tx c \<longrightarrow> queue_of E ts c = [])"
    using fold_add_to_queue(2) [of ?cs "ut_hash tx" "om_tx_order m" True] f r
    by (auto simp: touches_def otm_repr_def)
  have none: "lookup_tx ts (ut_hash tx) = None"
    using new by (simp add: lookup_tx_None)
  have "otm_repr E ?m' (ts @ [tx])"
    using r new none unfolding otm_repr_def
    by (auto simp: ord hm_simps lookup_tx_append lookup_tx_single queue_of_def split: option.split)
  with add n show "\<exists>m'. otm_add E m tx = (m', Some (\<forall>c. touches E tx c \<longrightarrow> queue_of E ts c = [])) \<and>
      otm_repr E m' (ts @ [tx])"
    by simp
qed

lemma queue_of_filter:
  "queue_of E (filter (\<lambda>t. ut_hash t \<noteq> h) ts) c = filter (\<lambda>k. k \<noteq> h) (queue_of E ts c)"
  by (induction ts) (auto simp: queue_of_def)

lemma otm_remove_repr:
  assumes r: "otm_repr E m ts"
  shows "\<exists>m'. otm_remove E m h = (m', lookup_tx ts h) \<and> otm_repr E m' (filter (\<lambda>t. ut_hash t \<noteq> h) ts)"
proof (cases "lookup_tx ts h")
  case None
  then have "filter (\<lambda>t. ut_hash t \<noteq> h) ts = ts"
    by (auto simp: lookup_tx_None intro: filter_True)
  with None r show ?thesis
    by (simp add: otm_remove_def otm_repr_def)
next
  case (Some tx)
  then have tx: "tx \<in> set ts" "ut_hash tx = h" by (auto dest: lookup_tx_Some)
  have only: "t \<in> set ts \<Longrightarrow> ut_hash t = h \<Longrightarrow> t = tx" for t
    using r tx by (metis Some lookup_tx_in option.inject otm_repr_def)
  have untouched: "filter (\<lambda>k. k \<noteq> h) (queue_of E ts c) = queue_of E ts c" if "\<not> touches E tx c" for c
    using that only by (auto simp: queue_of_def intro!: filter_True)
  let ?m' = "\<lparr>om_map = hm_remove h (om_map m),
    om_tx_order = fold (remove_from_queue h) (get_contracts_blocked_by_tx E tx) (om_tx_order m)\<rparr>"
  have "otm_remove E m h = (?m', Some tx)"
    using r Some tx by (simp add: otm_remove_def otm_repr_def)
  moreover have "otm_repr E ?m' (filter (\<lambda>t. ut_hash t \<noteq> h) ts)"
    using r untouched unfolding otm_repr_def
    by (auto simp: hm_simps lookup_tx_filter queue_of_filter fold_remove_from_queue touches_def
        distinct_map_filter)
  ultimately show ?thesis using Some by auto
qed

lemma otm_set_repr:
  assumes r: "otm_repr E m ts" and old: "lookup_tx ts h = Some tx"
    and same: "ut_hash tx' = h" "\<And>c. touches E tx' c = touches E tx c"
  shows "otm_repr E (otm_set m h tx') (map (\<lambda>t. if ut_hash t = h then tx' else t) ts)"
proof -
  let ?f = "\<lambda>t. if ut_hash t = h then tx' else t"
  have hashes: "ut_hash \<circ> ?f = ut_hash"
    using same by auto
  have only: "t \<in> set ts \<Longrightarrow> ut_hash t = h \<Longrightarrow> t = tx" for t
    using r old by (metis lookup_tx_in option.inject otm_repr_def)
  have look: "lookup_tx (map ?f us) k = (if k = h \<and> lookup_tx us h \<noteq> None then Some tx' else lookup_tx us k)" for us k
    using same by (induction us) (auto simp: lookup_tx_def)
  have queue: "queue_of E (map ?f ts) c = queue_of E ts c" for c
  proof -
    have "filter (\<lambda>t. touches E t c) (map ?f us) = map ?f (filter (\<lambda>t. touches E t c) us)"
      if "set us \<subseteq> set ts" for us
      using that only same by (induction us) auto
    then show ?thesis using same by (simp add: queue_of_def)
  qed
  show ?thesis
    using r old look queue unfolding otm_repr_def otm_set_def by (auto simp: hm_simps hashes)
qed

lemma is_next_repr:
  assumes r: "otm_repr E m ts"
  shows "is_next_to_settle E m h \<longleftrightarrow>
    (\<exists>pre tx post. ts = pre @ tx # post \<and> ut_hash tx = h \<and>
      (\<forall>t \<in> set pre. \<forall>c. touches E tx c \<longrightarrow> \<not> touches E t c))"
proof (cases "lookup_tx ts h")
  case None
  then have "\<not> is_next_to_settle E m h"
    using r by (simp add: is_next_to_settle_def otm_repr_def)
  with None show ?thesis by (auto simp: lookup_tx_None)
next
  case (Some tx)
  then obtain pre post where ts: "ts = pre @ tx # post" and h: "ut_hash tx = h"
    by (meson lookup_tx_Some split_list)
  have dist: "distinct (map ut_hash ts)" using r by (simp add: otm_repr_def)
  have uniq: "pre' = pre \<and> tx' = tx" if "ts = pre' @ tx' # post'" "ut_hash tx' = h" for pre' tx' post'
  proof -
    have "tx' = tx" using that dist Some by (metis in_set_conv_decomp lookup_tx_in option.inject)
    moreover have "tx \<notin> set pre" "tx \<notin> set post" using dist ts by (auto simp: distinct_map)
    ultimately show ?thesis using that(1) ts by (simp add: append_Cons_eq_iff)
  qed
  have "front (queue_of E ts c) = Some h \<longleftrightarrow> (\<forall>t \<in> set pre. \<not> touches E t c)" if "touches E tx c" for c
  proof -
    have q: "queue_of E ts c = queue_of E pre c @ h # queue_of E post c"
      using that h by (simp add: ts queue_of_def)
    have empty: "queue_of E pre c = [] \<longleftrightarrow> (\<forall>t \<in> set pre. \<not> touches E t c)"
      by (auto simp: queue_of_def filter_empty_conv)
    have "h \<notin> set (queue_of E pre c)" using dist ts h by (auto simp: queue_of_def)
    then show ?thesis
      unfolding empty [symmetric] q by (cases "queue_of E pre c") (auto simp: front_def)
  qed
  then have "is_next_to_settle E m h \<longleftrightarrow> (\<forall>t \<in> set pre. \<forall>c. touches E tx c \<longrightarrow> \<not> touches E t c)"
    using r Some by (auto simp: is_next_to_settle_def otm_repr_def get_next_repr [OF r] list_all_iff touches_def)
  then show ?thesis using ts h uniq by blast
qed

lemma get_for_settlement_eq:
  "get_for_settlement E m h = map_option (\<lambda>tx. (tx, is_next_to_settle E m h)) (otm_get m h)"
  by (simp add: get_for_settlement_def otm_get_def is_next_to_settle_def get_next_unsettled_tx_def
      split: option.split)

subsection \<open>Sizes\<close>

lemma otm_remove_get: "snd (otm_remove E m h) = otm_get m h"
  by (simp add: otm_remove_def otm_get_def split: option.split)

lemma otm_remove_len: "otm_get m h \<noteq> None \<Longrightarrow> otm_len (fst (otm_remove E m h)) < otm_len m"
  by (auto simp: otm_remove_def otm_get_def otm_len_def length_hm_remove_less split: option.splits)

lemma otm_remove_len_le: "otm_len (fst (otm_remove E m h)) \<le> otm_len m"
  by (auto simp: otm_remove_def otm_len_def length_delete_le split: option.split)

lemma otm_set_len: "otm_get m h \<noteq> None \<Longrightarrow> otm_len (otm_set m h tx) = otm_len m"
  by (simp add: otm_set_def otm_get_def otm_len_def length_hm_insert_same)

subsection \<open>The interface the node relies on\<close>

text \<open>
  What the settlement code needs of the store of unsettled transactions: the head of a
  queue is a stored transaction that touches the contract, a removal keeps the invariant,
  removes exactly that transaction and makes the store smaller.
\<close>

locale tx_store =
  fixes get :: "'m \<Rightarrow> 'h \<Rightarrow> 't option"
    and next_tx :: "'m \<Rightarrow> 'c \<Rightarrow> 'h option"
    and rem :: "'m \<Rightarrow> 'h \<Rightarrow> 'm"
    and sz :: "'m \<Rightarrow> nat"
    and inv :: "'m \<Rightarrow> bool"
    and touch :: "'t \<Rightarrow> 'c \<Rightarrow> bool"
  assumes next_stored: "inv m \<Longrightarrow> next_tx m c = Some h \<Longrightarrow> \<exists>t. get m h = Some t \<and> touch t c"
    and next_None: "inv m \<Longrightarrow> next_tx m c = None \<Longrightarrow> get m h = Some t \<Longrightarrow> \<not> touch t c"
    and rem_inv: "inv m \<Longrightarrow> inv (rem m h)"
    and rem_get: "inv m \<Longrightarrow> get (rem m h) k = (if k = h then None else get m k)"
    and rem_size: "get m h \<noteq> None \<Longrightarrow> sz (rem m h) < sz m"
begin

text \<open>Removing the head of one queue again and again ends.\<close>

lemma drain_induct [consumes 1, case_names drain]:
  assumes "inv m"
    and step: "\<And>m. inv m \<Longrightarrow> (\<And>h t. next_tx m c = Some h \<Longrightarrow> get m h = Some t \<Longrightarrow> P (rem m h)) \<Longrightarrow> P m"
  shows "P m"
  using assms(1)
proof (induction "sz m" arbitrary: m rule: less_induct)
  case less
  show ?case
  proof (rule step [OF less.prems])
    fix h t
    assume "next_tx m c = Some h" "get m h = Some t"
    then show "P (rem m h)"
      using less.hyps less.prems rem_inv rem_size by (metis option.discI)
  qed
qed

lemma next_rem_other: "inv m \<Longrightarrow> next_tx (rem m h) c = Some k \<Longrightarrow> k \<noteq> h"
  using next_stored [OF rem_inv] rem_get by (metis option.discI)

end

lemma otm_inv_default: "otm_inv E OrderedTxMap_default"
  unfolding otm_inv_def using otm_repr_default by blast

lemma otm_inv_add: "otm_inv E m \<Longrightarrow> otm_inv E (fst (otm_add E m tx))"
  unfolding otm_inv_def by (metis fst_conv otm_add_repr)

lemma otm_inv_remove: "otm_inv E m \<Longrightarrow> otm_inv E (fst (otm_remove E m h))"
  unfolding otm_inv_def by (metis fst_conv otm_remove_repr)

lemma otm_inv_set:
  assumes "otm_inv E m" "otm_get m h = Some tx" "ut_hash tx' = h"
    and "\<And>c. touches E tx' c = touches E tx c"
  shows "otm_inv E (otm_set m h tx')"
proof -
  from assms(1) obtain ts where r: "otm_repr E m ts" by (auto simp: otm_inv_def)
  with assms(2) have "lookup_tx ts h = Some tx" by (simp add: otm_get_repr)
  then show ?thesis
    using otm_set_repr [OF r _ assms(3,4)] unfolding otm_inv_def by blast
qed

lemma otm_inv_hash: "otm_inv E m \<Longrightarrow> otm_get m h = Some tx \<Longrightarrow> ut_hash tx = h"
  unfolding otm_inv_def by (metis lookup_tx_Some otm_get_repr)

interpretation otm: tx_store otm_get get_next_unsettled_tx "\<lambda>m h. fst (otm_remove E m h)" otm_len
  "otm_inv E" "touches E" for E
proof unfold_locales
  fix m c h
  assume "otm_inv E m" "get_next_unsettled_tx m c = Some h"
  then obtain ts where r: "otm_repr E m ts" and q: "front (queue_of E ts c) = Some h"
    by (auto simp: otm_inv_def get_next_repr)
  then have "h \<in> set (queue_of E ts c)"
    by (auto simp: front_eq_Some)
  then obtain t where "t \<in> set ts" "touches E t c" "ut_hash t = h"
    by (auto simp: queue_of_def)
  with r show "\<exists>t. otm_get m h = Some t \<and> touches E t c"
    by (metis lookup_tx_in otm_get_repr otm_repr_def)
next
  fix m c h t
  assume "otm_inv E m" "get_next_unsettled_tx m c = None" "otm_get m h = Some t"
  then show "\<not> touches E t c"
    unfolding otm_inv_def
    by (auto simp: get_next_repr otm_get_repr front_eq_None queue_of_def filter_empty_conv dest!: lookup_tx_Some)
next
  fix m h k
  assume "otm_inv E m"
  then obtain ts where r: "otm_repr E m ts" by (auto simp: otm_inv_def)
  obtain m' where "otm_remove E m h = (m', lookup_tx ts h)"
    and "otm_repr E m' (filter (\<lambda>t. ut_hash t \<noteq> h) ts)"
    using otm_remove_repr [OF r] by blast
  with r show "otm_get (fst (otm_remove E m h)) k = (if k = h then None else otm_get m k)"
    by (simp add: otm_get_repr lookup_tx_filter)
qed (simp_all add: otm_inv_remove otm_remove_len)

end
