(* ===== verification/Timeouts.thy ===== *)
theory Timeouts
  imports Hyle_Block
begin

text \<open>
  The timeout schedule of the node (\<open>crates/hyle-modules/src/node_state/timeouts.rs\<close>):
  for each block height the transactions to time out when that block is processed.
\<close>

record Timeouts =
  to_by_block :: "(BlockHeight, TxHash list) hashmap"

definition Timeouts_default :: Timeouts where
  "Timeouts_default = \<lparr>to_by_block = []\<rparr>"

definition timeouts_drop :: "Timeouts \<Rightarrow> BlockHeight \<Rightarrow> Timeouts \<times> TxHash list" where
  "timeouts_drop t at =
     (t\<lparr>to_by_block := hm_remove at (to_by_block t)\<rparr>,
      (case hm_get (to_by_block t) at of None \<Rightarrow> [] | Some txs \<Rightarrow> txs))"

text \<open>The sum of the two heights is a \<open>u64\<close> addition, which wraps.\<close>

definition timeouts_set :: "Timeouts \<Rightarrow> TxHash \<Rightarrow> BlockHeight \<Rightarrow> BlockHeight \<Rightarrow> Timeouts" where
  "timeouts_set t tx block_height timeout_window =
     t\<lparr>to_by_block := hm_push (block_height + timeout_window) tx (to_by_block t)\<rparr>"

definition timeouts_count_all :: "Timeouts \<Rightarrow> nat" where
  "timeouts_count_all t = sum_list (map (\<lambda>(_, v). length v) (to_by_block t))"

text \<open>The transactions due at a height.\<close>

definition due :: "Timeouts \<Rightarrow> BlockHeight \<Rightarrow> TxHash list" where
  "due t at = (case hm_get (to_by_block t) at of None \<Rightarrow> [] | Some txs \<Rightarrow> txs)"

lemma timeouts_drop_due: "snd (timeouts_drop t at) = due t at"
  by (simp add: timeouts_drop_def due_def)

lemma due_drop: "due (fst (timeouts_drop t at)) h = (if h = at then [] else due t h)"
  by (simp add: timeouts_drop_def due_def hm_simps)

lemma due_set: "due (timeouts_set t tx b w) h = (if h = b + w then due t h @ [tx] else due t h)"
  by (simp add: timeouts_set_def due_def hm_push_def hm_simps split: option.split)

lemma sum_lengths_insert:
  "sum_list (map (\<lambda>(_, v). length v) (hm_insert k v m)) + (case map_of m k of None \<Rightarrow> 0 | Some u \<Rightarrow> length u) =
     sum_list (map (\<lambda>(_, v). length v) m) + length v"
  by (induction m) (auto split: option.splits)

lemma count_all_set: "timeouts_count_all (timeouts_set t tx b w) = Suc (timeouts_count_all t)"
proof -
  let ?m = "to_by_block t"
  have "sum_list (map (\<lambda>(_, v). length v) (hm_push k x m)) = Suc (sum_list (map (\<lambda>(_, v). length v) m))"
    for k :: BlockHeight and x :: TxHash and m
    using sum_lengths_insert [of k "(case map_of m k of None \<Rightarrow> [] | Some xs \<Rightarrow> xs) @ [x]" m]
    by (auto simp: hm_push_def split: option.splits)
  then show ?thesis by (simp add: timeouts_count_all_def timeouts_set_def)
qed

end
