(* ===== verification/Node_State.thy ===== *)
theory Node_State
  imports Settlement Ordered_Tx_Map Timeouts
begin

text \<open>
  The node state (\<open>crates/hyle-modules/src/node_state.rs\<close>): how a sequenced block updates
  contracts, unsettled transactions and timeouts, and what it reports about them.

  The mutable \<open>NodeStateStore\<close> and the block under construction are passed and returned. An
  operation that may not return, because of a panic or of a loop that does not end, has an
  option as its result; the theory \<open>Node_State_Blocks\<close> shows that it is never \<open>None\<close>.
  Metrics and log lines are left out.
\<close>

record NodeStateStore =
  ns_timeouts :: Timeouts
  ns_current_height :: BlockHeight
  ns_contracts :: Contracts
  ns_unsettled_transactions :: OrderedTxMap

definition hyle_contract_definition :: Contract where
  "hyle_contract_definition =
     \<lparr>c_name = ''hyle'',
      c_program_id = [0, 0, 0, 0],
      c_state = [],
      c_verifier = ''hyle'',
      c_timeout_window = NoTimeout\<rparr>"

definition NodeStateStore_default :: NodeStateStore where
  "NodeStateStore_default =
     \<lparr>ns_timeouts = Timeouts_default,
      ns_current_height = 0,
      ns_contracts = hm_insert (c_name hyle_contract_definition) hyle_contract_definition [],
      ns_unsettled_transactions = OrderedTxMap_default\<rparr>"

record SettledTxOutput =
  so_tx :: UnsettledBlobTransaction
  so_result :: "(SettlementResult, unit) Result"

datatype BlobTxHandled =
    ShouldSettle TxHash
  | Duplicate
  | HandledOk

text \<open>Appending to the events of a transaction.\<close>

definition push_event :: "TxHash \<Rightarrow> TransactionStateEvent \<Rightarrow> Block \<Rightarrow> Block" where
  "push_event h ev b = b\<lparr>bk_transactions_events := bt_push h ev (bk_transactions_events b)\<rparr>"

text \<open>Recording the data proposal and the lane of a transaction.\<close>

definition record_origin :: "TxHash \<Rightarrow> DataProposalHash \<Rightarrow> LaneId \<Rightarrow> Block \<Rightarrow> Block" where
  "record_origin h dp lane b =
     b\<lparr>bk_dp_parent_hashes := bt_insert h dp (bk_dp_parent_hashes b),
       bk_lane_ids := bt_insert h lane (bk_lane_ids b)\<rparr>"

subsection \<open>Timeout windows of transactions\<close>

fun combine_timeouts :: "TimeoutWindow \<Rightarrow> TimeoutWindow \<Rightarrow> TimeoutWindow" where
  "combine_timeouts NoTimeout contract_timeout = contract_timeout"
| "combine_timeouts (Timeout a) (Timeout b) = Timeout (min a b)"
| "combine_timeouts _ _ = NoTimeout"

definition contract_timeouts :: "NodeStateStore \<Rightarrow> Blob list \<Rightarrow> TimeoutWindow list" where
  "contract_timeouts st blobs =
     List.map_filter (\<lambda>blob. map_option c_timeout_window (hm_get (ns_contracts st) (b_contract_name blob))) blobs"

definition get_tx_timeout_window :: "NodeStateStore \<Rightarrow> Blob list \<Rightarrow> TimeoutWindow" where
  "get_tx_timeout_window st blobs =
     (if ns_current_height st > 445000 then
        (case contract_timeouts st blobs of
           [] \<Rightarrow> NoTimeout
         | w # ws \<Rightarrow> fold min ws w)
      else foldl combine_timeouts NoTimeout (contract_timeouts st blobs))"

definition set_timeout :: "NodeStateStore \<Rightarrow> TxHash \<Rightarrow> TimeoutWindow \<Rightarrow> NodeStateStore" where
  "set_timeout st h w =
     (case w of
        Timeout timeout_window \<Rightarrow>
          st\<lparr>ns_timeouts := timeouts_set (ns_timeouts st) h (ns_current_height st) timeout_window\<rparr>
      | NoTimeout \<Rightarrow> st)"

subsection \<open>Blob transactions\<close>

text \<open>
  The closure of the \<open>filter_map\<close> over the blobs: the metadata to keep, if any, and whether
  the blob leaves the transaction settleable without further proofs.
\<close>

definition handle_blob ::
    "Env \<Rightarrow> Contracts \<Rightarrow> TxHash \<Rightarrow> Blob list \<Rightarrow> BlobIndex \<Rightarrow> Blob \<Rightarrow> UnsettledBlobMetadata option \<times> bool" where
  "handle_blob E contracts blob_tx_hash blobs index blob =
     (case Option.bind (hm_get contracts (b_contract_name blob)) (\<lambda>c. NativeVerifiers_try_from (c_verifier c)) of
        Some verifier \<Rightarrow>
          let hyle_output = native_verify E blob_tx_hash index blob blobs verifier
          in if ho_success hyle_output then (None, True)
             else (Some \<lparr>um_blob = blob,
                         um_possible_proofs = [(ProgramId_from_NativeVerifiers verifier, hyle_output)]\<rparr>, True)
      | None \<Rightarrow>
          (Some \<lparr>um_blob = blob, um_possible_proofs = []\<rparr>, b_contract_name blob = ''hyle''))"

definition unsettled_blobs ::
    "Env \<Rightarrow> Contracts \<Rightarrow> TxHash \<Rightarrow> Blob list \<Rightarrow> (BlobIndex, UnsettledBlobMetadata) btreemap \<times> bool" where
  "unsettled_blobs E contracts blob_tx_hash blobs =
     (bt_collect (List.map_filter (\<lambda>(index, blob).
        map_option (Pair index) (fst (handle_blob E contracts blob_tx_hash blobs index blob))) (enumerate 0 blobs)),
      list_all (\<lambda>(index, blob). snd (handle_blob E contracts blob_tx_hash blobs index blob)) (enumerate 0 blobs))"

definition handle_blob_tx ::
    "Env \<Rightarrow> NodeStateStore \<Rightarrow> DataProposalHash \<Rightarrow> BlobTransaction \<Rightarrow> TxContext \<Rightarrow>
     (NodeStateStore \<times> BlobTxHandled, NodeError) Result" where
  "handle_blob_tx E st parent_dp_hash tx tx_context =
     (let tx_hash = BlobTransaction_hashed E tx;
          unknown = filter (\<lambda>blob. \<not> hm_contains (ns_contracts st) (b_contract_name blob)) (btx_blobs tx)
      in
      case validate_identity tx of Inl e \<Rightarrow> Err (IdentityInvalid e) | Inr _ \<Rightarrow>
      if btx_blobs tx = [] then Err NoBlobs else
      case validate_hyle_contract_blobs E tx of Inl e \<Rightarrow> Err (InvalidHyleBlobs e) | Inr _ \<Rightarrow>
      if unknown \<noteq> [] then Err (UnknownContracts (map b_contract_name unknown)) else
      let (blobs, should_try_and_settle) = unsettled_blobs E (ns_contracts st) tx_hash (btx_blobs tx);
          (unsettled, added) = otm_add E (ns_unsettled_transactions st)
            \<lparr>ut_identity = btx_identity tx, ut_parent_dp_hash = parent_dp_hash, ut_hash = tx_hash,
             ut_tx_context = tx_context, ut_blobs_hash = blobs_hash E tx, ut_blobs = blobs\<rparr>;
          st1 = st\<lparr>ns_unsettled_transactions := unsettled\<rparr>
      in
      case added of
        None \<Rightarrow> Ok (st1, Duplicate)
      | Some should_settle \<Rightarrow>
          let st2 = (if is_next_to_settle E unsettled tx_hash
                     then set_timeout st1 tx_hash (get_tx_timeout_window st1 (btx_blobs tx)) else st1)
          in Ok (st2, if should_settle \<and> should_try_and_settle then ShouldSettle tx_hash else HandledOk))"

subsection \<open>Proofs\<close>

definition handle_blob_proof ::
    "Env \<Rightarrow> NodeStateStore \<Rightarrow> TxHash \<Rightarrow> BlobProofOutput \<Rightarrow> Block \<Rightarrow>
     NodeStateStore \<times> Block \<times> (TxHash option, NodeError) Result" where
  "handle_blob_proof E st proof_tx_hash blob_proof_data b =
     (let blob_tx_hash = bp_blob_tx_hash blob_proof_data;
          hyle_output = bp_hyle_output blob_proof_data
      in
      case get_for_settlement E (ns_unsettled_transactions st) blob_tx_hash of
        None \<Rightarrow> (st, b, Err (BlobTxNotFound blob_tx_hash))
      | Some (unsettled_tx, should_settle_tx) \<Rightarrow>
          let b1 = record_origin (ut_hash unsettled_tx) (ut_parent_dp_hash unsettled_tx)
                     (tc_lane_id (ut_tx_context unsettled_tx)) b
          in
          case verify_hyle_output E unsettled_tx hyle_output of
            Inl e \<Rightarrow> (st, b1, Err e)
          | Inr _ \<Rightarrow>
              (case map_of (ut_blobs unsettled_tx) (ho_index hyle_output) of
                 None \<Rightarrow> (st, b1, Err (BlobNotInTx (ho_index hyle_output) blob_tx_hash))
               | Some blob \<Rightarrow>
                   let blob' = blob\<lparr>um_possible_proofs := um_possible_proofs blob @ [(bp_program_id blob_proof_data, hyle_output)]\<rparr>;
                       tx' = unsettled_tx\<lparr>ut_blobs := bt_insert (ho_index hyle_output) blob' (ut_blobs unsettled_tx)\<rparr>;
                       b2 = push_event blob_tx_hash
                              (NewProof (ho_index hyle_output) proof_tx_hash (ho_program_outputs hyle_output)) b1;
                       handled = \<lparr>hb_proof_tx_hash = proof_tx_hash,
                                  hb_blob_tx_hash = ut_hash unsettled_tx,
                                  hb_blob_index = ho_index hyle_output,
                                  hb_contract_name = b_contract_name (um_blob blob),
                                  hb_hyle_output = hyle_output,
                                  hb_blob_proof_output_index = length (um_possible_proofs blob') - 1\<rparr>
                   in (st\<lparr>ns_unsettled_transactions := otm_set (ns_unsettled_transactions st) blob_tx_hash tx'\<rparr>,
                       b2\<lparr>bk_blob_proof_outputs := bk_blob_proof_outputs b2 @ [handled]\<rparr>,
                       Ok (if should_settle_tx then Some (ut_hash unsettled_tx) else None))))"

subsection \<open>Trying to settle a transaction\<close>

definition native_blob_failed :: "UnsettledBlobMetadata \<Rightarrow> bool" where
  "native_blob_failed blob \<longleftrightarrow>
     b_contract_name (um_blob blob) \<in> set NATIVE_VERIFIERS_CONTRACT_LIST \<and>
     list_ex (\<lambda>p. \<not> ho_success (snd p)) (um_possible_proofs blob)"

text \<open>
  The result carries the store, and the events, data proposal hash and lane of the
  transaction, which the source updates through references also when it returns an error.
  The transaction that \<open>remove\<close> returns is the one read at the start.
\<close>

definition try_to_settle_blob_tx ::
    "Env \<Rightarrow> NodeStateStore \<Rightarrow> TxHash \<Rightarrow> TransactionStateEvent list \<Rightarrow> DataProposalHash \<Rightarrow> LaneId \<Rightarrow>
     NodeStateStore \<times> TransactionStateEvent list \<times> DataProposalHash \<times> LaneId \<times> (SettledTxOutput, NodeError) Result" where
  "try_to_settle_blob_tx E st h events dp lane =
     (case otm_get (ns_unsettled_transactions st) h of
        None \<Rightarrow> (st, events, dp, lane, Err (UnsettledTxNotFound h))
      | Some tx \<Rightarrow>
          let dp' = ut_parent_dp_hash tx;
              lane' = tc_lane_id (ut_tx_context tx);
              blobs = map snd (ut_blobs tx)
          in
          if \<not> list_all (\<lambda>m. hm_contains (ns_contracts st) (b_contract_name (um_blob m))) blobs
          then (st, events, dp', lane', Err BlobContractsNotRegistered)
          else
            let (res, events') =
                  (if list_ex native_blob_failed blobs then (Some (Err ()), events)
                   else settle_blobs_recursively E (ns_contracts st) [] blobs [] events)
            in case res of
                 None \<Rightarrow> (st, events', dp', lane', Err (NotReadyToSettle (ut_hash tx)))
               | Some result \<Rightarrow>
                   if is_ok result \<and> \<not> is_next_to_settle E (ns_unsettled_transactions st) h
                   then (st, events', dp', lane', Err (NotNextToSettle h))
                   else (st\<lparr>ns_unsettled_transactions := fst (otm_remove E (ns_unsettled_transactions st) h)\<rparr>,
                         events', dp', lane', Ok \<lparr>so_tx = tx, so_result = result\<rparr>))"

subsection \<open>The effects of a settled transaction\<close>

fun find_register :: "SideEffect list \<Rightarrow> bytes option option" where
  "find_register [] = None"
| "find_register (se # ses) = (case se of Register m \<Rightarrow> Some m | _ \<Rightarrow> find_register ses)"

text \<open>
  The loop over the blobs of a settled transaction: verified blobs, transactions to force,
  staking actions.
\<close>

definition note_settled_blob ::
    "Env \<Rightarrow> TxHash \<Rightarrow> Identity \<Rightarrow> nat list \<Rightarrow> BlobIndex \<times> UnsettledBlobMetadata \<Rightarrow>
     Block \<times> (TxHash, HyleOutput list) btreemap \<Rightarrow> Block \<times> (TxHash, HyleOutput list) btreemap" where
  "note_settled_blob E bth identity indices entry acc =
     (let (blob_index, metadata) = entry;
          (b, txs_to_nuke) = acc;
          blob = um_blob metadata;
          b1 = b\<lparr>bk_verified_blobs := bk_verified_blobs b @
                 [(bth, blob_index, if blob_index < length indices then Some (indices ! blob_index) else None)]\<rparr>;
          nukes = (case dec_nuke E (b_data blob) of
                     Some data \<Rightarrow> fold (\<lambda>(h, outs). bt_insert h outs) (nk_txs (sd_parameters data)) txs_to_nuke
                   | None \<Rightarrow> txs_to_nuke);
          b2 = (if b_contract_name blob = ''staking'' then
                  (case dec_staking E (b_data blob) of
                     Some structured_blob \<Rightarrow>
                       b1\<lparr>bk_staking_actions := bk_staking_actions b1 @ [(identity, sd_parameters structured_blob)]\<rparr>
                   | None \<Rightarrow> b1)
                else b1)
      in (b2, nukes))"

text \<open>
  Timing out the queue of a deleted contract. A hash at the head of a queue that is not
  stored would make this loop run forever.
\<close>

partial_function (option) timeout_queue ::
    "Env \<Rightarrow> ContractName \<Rightarrow> OrderedTxMap \<Rightarrow> Block \<Rightarrow> ContractName list \<Rightarrow>
     (OrderedTxMap \<times> Block \<times> ContractName list) option" where
  "timeout_queue E contract_name m b blocked =
     (case get_next_unsettled_tx m contract_name of
        None \<Rightarrow> Some (m, b, blocked)
      | Some tx_hash \<Rightarrow>
          (case otm_remove E m tx_hash of
             (m', Some popped_tx) \<Rightarrow>
               timeout_queue E contract_name m'
                 (record_origin tx_hash (ut_parent_dp_hash popped_tx) (tc_lane_id (ut_tx_context popped_tx))
                   (push_event tx_hash TimedOut b))
                 (List.union blocked (get_contracts_blocked_by_tx E popped_tx))
           | (m', None) \<Rightarrow> timeout_queue E contract_name m' b blocked))"

declare timeout_queue.simps [code]

definition delete_contract ::
    "Env \<Rightarrow> TxHash \<Rightarrow> ContractName \<Rightarrow> NodeStateStore \<Rightarrow> Block \<Rightarrow> TxHash btreeset \<Rightarrow>
     (NodeStateStore \<times> Block \<times> TxHash btreeset) option" where
  "delete_contract E bth contract_name st b next_txs =
     (case timeout_queue E contract_name (ns_unsettled_transactions st) b [] of
        None \<Rightarrow> None
      | Some (m, b1, blocked) \<Rightarrow>
          Some (st\<lparr>ns_contracts := hm_remove contract_name (ns_contracts st), ns_unsettled_transactions := m\<rparr>,
                b1\<lparr>bk_registered_contracts := AList.delete contract_name (bk_registered_contracts b1),
                   bk_deleted_contracts := bt_insert contract_name bth (bk_deleted_contracts b1)\<rparr>,
                bs_extend (List.map_filter (get_next_unsettled_tx m) blocked) next_txs))"

definition update_contract ::
    "TxHash \<Rightarrow> ContractName \<Rightarrow> Contract \<Rightarrow> ModifiedContractFields \<Rightarrow> SideEffect list \<Rightarrow>
     NodeStateStore \<Rightarrow> Block \<Rightarrow> NodeStateStore \<times> Block" where
  "update_contract bth contract_name contract mf side_effects st b =
     (let b1 = (if hm_contains (ns_contracts st) contract_name then b
                else b\<lparr>bk_registered_contracts := bt_insert contract_name
                         (bth,
                          \<lparr>re_verifier = c_verifier contract,
                           re_program_id = c_program_id contract,
                           re_state_commitment = c_state contract,
                           re_contract_name = contract_name,
                           re_timeout_window = Some (c_timeout_window contract)\<rparr>,
                          (case find_register side_effects of Some m \<Rightarrow> m | None \<Rightarrow> None))
                         (bk_registered_contracts b),
                       bk_deleted_contracts := AList.delete contract_name (bk_deleted_contracts b)\<rparr>);
          b2 = (if mf_state mf
                then b1\<lparr>bk_updated_states := bt_insert (c_name contract) (c_state contract) (bk_updated_states b1)\<rparr>
                else b1);
          b3 = (if mf_program_id mf
                then b2\<lparr>bk_updated_program_ids :=
                          bt_insert (c_name contract) (c_program_id contract) (bk_updated_program_ids b2)\<rparr>
                else b2);
          b4 = (if mf_timeout_window mf
                then b3\<lparr>bk_updated_timeout_windows :=
                          bt_insert (c_name contract) (c_timeout_window contract) (bk_updated_timeout_windows b3)\<rparr>
                else b3)
      in (st\<lparr>ns_contracts := hm_insert (c_name contract) contract (ns_contracts st)\<rparr>, b4))"

definition apply_change ::
    "Env \<Rightarrow> TxHash \<Rightarrow> ContractName \<Rightarrow> ModifiedContractData \<Rightarrow> NodeStateStore \<Rightarrow> Block \<Rightarrow> TxHash btreeset \<Rightarrow>
     (NodeStateStore \<times> Block \<times> TxHash btreeset) option" where
  "apply_change E bth contract_name data st b next_txs =
     (case data of
        (None, _, _) \<Rightarrow> delete_contract E bth contract_name st b next_txs
      | (Some contract, mf, side_effects) \<Rightarrow>
          (case update_contract bth contract_name contract mf side_effects st b of
             (st', b') \<Rightarrow> Some (st', b', next_txs)))"

fun apply_changes ::
    "Env \<Rightarrow> TxHash \<Rightarrow> ContractChanges \<Rightarrow> NodeStateStore \<Rightarrow> Block \<Rightarrow> TxHash btreeset \<Rightarrow>
     (NodeStateStore \<times> Block \<times> TxHash btreeset) option" where
  "apply_changes E bth [] st b next_txs = Some (st, b, next_txs)"
| "apply_changes E bth ((contract_name, data) # rest) st b next_txs =
     (case apply_change E bth contract_name data st b next_txs of
        None \<Rightarrow> None
      | Some (st', b', next_txs') \<Rightarrow> apply_changes E bth rest st' b' next_txs')"

subsection \<open>Forcing the settlement of other transactions\<close>

text \<open>
  The proof made up for one output of a transaction to nuke: a failed output gets the
  current state of the contract.
\<close>

definition nuke_proof :: "Contracts \<Rightarrow> UnsettledBlobTransaction \<Rightarrow> HyleOutput \<Rightarrow> (ProgramId \<times> HyleOutput) option" where
  "nuke_proof contracts tx hyle_output =
     (case map_of (ut_blobs tx) (ho_index hyle_output) of
        None \<Rightarrow> None
      | Some metadata \<Rightarrow>
          map_option (\<lambda>contract.
            (c_program_id contract,
             if ho_success hyle_output then hyle_output
             else hyle_output\<lparr>ho_initial_state := c_state contract, ho_next_state := c_state contract\<rparr>))
            (hm_get contracts (b_contract_name (um_blob metadata))))"

definition nuke_updates ::
    "NodeStateStore \<Rightarrow> (TxHash, HyleOutput list) btreemap \<Rightarrow> (TxHash, (ProgramId \<times> HyleOutput) list) btreemap" where
  "nuke_updates st txs_to_nuke =
     filter (\<lambda>(_, updates). updates \<noteq> [])
       (map (\<lambda>(tx_hash, hyle_outputs).
          (tx_hash,
           (case otm_get (ns_unsettled_transactions st) tx_hash of
              Some tx \<Rightarrow> List.map_filter (nuke_proof (ns_contracts st) tx) hyle_outputs
            | None \<Rightarrow> []))) txs_to_nuke)"

definition apply_nuke_proof ::
    "TxHash \<Rightarrow> TxHash \<Rightarrow> ProgramId \<times> HyleOutput \<Rightarrow> OrderedTxMap \<times> Block \<times> TxHash btreeset \<Rightarrow>
     OrderedTxMap \<times> Block \<times> TxHash btreeset" where
  "apply_nuke_proof bth tx_hash update acc =
     (let (program_id, hyle_output) = update;
          (m, b, forced_txs) = acc
      in case otm_get m tx_hash of
           None \<Rightarrow> (m, b, forced_txs)
         | Some tx \<Rightarrow>
             (case map_of (ut_blobs tx) (ho_index hyle_output) of
                None \<Rightarrow> (m, b, forced_txs)
              | Some metadata \<Rightarrow>
                  (otm_set m tx_hash (tx\<lparr>ut_blobs := bt_insert (ho_index hyle_output)
                     (metadata\<lparr>um_possible_proofs := um_possible_proofs metadata @ [(program_id, hyle_output)]\<rparr>)
                     (ut_blobs tx)\<rparr>),
                   push_event tx_hash (NewProof (ho_index hyle_output) bth (ho_program_outputs hyle_output)) b,
                   bs_insert tx_hash forced_txs)))"

definition apply_nukes ::
    "TxHash \<Rightarrow> (TxHash, (ProgramId \<times> HyleOutput) list) btreemap \<Rightarrow> OrderedTxMap \<Rightarrow> Block \<Rightarrow>
     OrderedTxMap \<times> Block \<times> TxHash btreeset" where
  "apply_nukes bth updates m b =
     fold (\<lambda>(tx_hash, us). fold (apply_nuke_proof bth tx_hash) us) updates (m, b, [])"

subsection \<open>Settling\<close>

definition on_settled_success ::
    "Env \<Rightarrow> TxHash \<Rightarrow> UnsettledBlobTransaction \<Rightarrow> SettlementResult \<Rightarrow> NodeStateStore \<Rightarrow> Block \<Rightarrow> TxHash btreeset \<Rightarrow>
     (NodeStateStore \<times> Block \<times> TxHash btreeset) option" where
  "on_settled_success E bth settled_tx r st b next_txs =
     (let (b1, txs_to_nuke) =
            fold (note_settled_blob E bth (ut_identity settled_tx) (sr_blob_proof_output_indices r))
              (ut_blobs settled_tx) (push_event bth Settled b, [])
      in case apply_changes E bth (sr_contract_changes r) st b1 next_txs of
           None \<Rightarrow> None
         | Some (st2, b2, next_txs2) \<Rightarrow>
             let (m, b3, forced_txs) =
                   apply_nukes bth (nuke_updates st2 txs_to_nuke) (ns_unsettled_transactions st2) b2
             in Some (st2\<lparr>ns_unsettled_transactions := m\<rparr>,
                      b3\<lparr>bk_successful_txs := bk_successful_txs b3 @ [bth]\<rparr>,
                      bs_extend forced_txs next_txs2))"

definition on_settled_blob_tx ::
    "Env \<Rightarrow> TxHash \<Rightarrow> UnsettledBlobTransaction \<Rightarrow> (SettlementResult, unit) Result \<Rightarrow> NodeStateStore \<Rightarrow> Block \<Rightarrow>
     (NodeStateStore \<times> Block \<times> TxHash btreeset) option" where
  "on_settled_blob_tx E bth settled_tx tx_result st b =
     (let next_txs = get_next_txs_blocked_by_tx E (ns_unsettled_transactions st) settled_tx
      in case tx_result of
           Inl _ \<Rightarrow>
             Some (st,
                   (push_event bth SettledAsFailed b)\<lparr>bk_failed_txs := bk_failed_txs b @ [bth]\<rparr>,
                   next_txs)
         | Inr r \<Rightarrow> on_settled_success E bth settled_tx r st b next_txs)"

text \<open>
  One round of the loop of \<open>settle_txs_until_done\<close>. The last component has the transactions
  to try next when this one settled.
\<close>

definition settle_round ::
    "Env \<Rightarrow> NodeStateStore \<Rightarrow> Block \<Rightarrow> TxHash \<Rightarrow> (NodeStateStore \<times> Block \<times> TxHash btreeset option) option" where
  "settle_round E st b bth =
     (let events = (case map_of (bk_transactions_events b) bth of Some v \<Rightarrow> v | None \<Rightarrow> []);
          dp_parent_hash = (case map_of (bk_dp_parent_hashes b) bth of Some v \<Rightarrow> v | None \<Rightarrow> []);
          lane_id = (case map_of (bk_lane_ids b) bth of Some v \<Rightarrow> v | None \<Rightarrow> []);
          (st1, events', dp', lane', res) = try_to_settle_blob_tx E st bth events dp_parent_hash lane_id;
          b1 = record_origin bth dp' lane'
                 (b\<lparr>bk_transactions_events := bt_insert bth events' (bk_transactions_events b)\<rparr>)
      in case res of
           Inr out \<Rightarrow>
             map_option (\<lambda>(st2, b2, txs). (st2, b2, Some txs))
               (on_settled_blob_tx E bth (so_tx out) (so_result out) st1 b1)
         | Inl e \<Rightarrow> Some (st1, push_event bth (SettleEvent (FailedToSettle e)) b1, None))"

subsection \<open>Why settling ends\<close>

text \<open>
  A round that settles a transaction removes it, and nothing in a round adds one, so the
  number of unsettled transactions decreases; a round that does not settle keeps it.
\<close>

abbreviation unsettled_len :: "NodeStateStore \<Rightarrow> nat" where
  "unsettled_len st \<equiv> otm_len (ns_unsettled_transactions st)"

lemma timeout_queue_len: "timeout_queue E c m b blocked = Some r \<Longrightarrow> otm_len (fst r) \<le> otm_len m"
proof (induction rule: timeout_queue.raw_induct [rotated 1, consumes 1, case_names step])
  case (step f E c m b blocked r)
  show ?case
  proof (cases "get_next_unsettled_tx m c")
    case None
    with step.hyps show ?thesis by auto
  next
    case (Some h)
    obtain m' t where rem: "otm_remove E m h = (m', t)" by force
    have "otm_len m' \<le> otm_len m" using otm_remove_len_le [of E m h] rem by simp
    moreover have "otm_len (fst r) \<le> otm_len m'"
      using step Some rem by (auto split: option.splits)
    ultimately show ?thesis by simp
  qed
qed

lemma delete_contract_len:
  "delete_contract E bth c st b n = Some (st', b', n') \<Longrightarrow> unsettled_len st' \<le> unsettled_len st"
  by (auto simp: delete_contract_def split: option.splits dest: timeout_queue_len)

lemma update_contract_unsettled:
  "update_contract bth c k mf se st b = (st', b') \<Longrightarrow> ns_unsettled_transactions st' = ns_unsettled_transactions st"
  by (auto simp: update_contract_def Let_def)

lemma apply_change_len:
  "apply_change E bth c d st b n = Some (st', b', n') \<Longrightarrow> unsettled_len st' \<le> unsettled_len st"
  by (auto simp: apply_change_def split: option.splits prod.splits
      dest: delete_contract_len update_contract_unsettled)

lemma apply_changes_len:
  "apply_changes E bth ch st b n = Some (st', b', n') \<Longrightarrow> unsettled_len st' \<le> unsettled_len st"
proof (induction E bth ch st b n rule: apply_changes.induct)
  case (2 E bth c d rest st b n)
  then obtain st1 b1 n1 where c: "apply_change E bth c d st b n = Some (st1, b1, n1)"
      and r: "apply_changes E bth rest st1 b1 n1 = Some (st', b', n')"
    by (auto split: option.splits)
  have "unsettled_len st' \<le> unsettled_len st1" using 2(1) [OF c refl refl r] .
  with apply_change_len [OF c] show ?case by simp
qed simp

lemma apply_nuke_proof_len: "otm_len (fst (apply_nuke_proof bth h u acc)) = otm_len (fst acc)"
  by (auto simp: apply_nuke_proof_def Let_def otm_set_len split: option.split prod.split)

lemma apply_nukes_len: "otm_len (fst (apply_nukes bth us m b)) = otm_len m"
proof -
  have inner: "otm_len (fst (fold (apply_nuke_proof bth h) ps acc)) = otm_len (fst acc)" for h ps acc
    by (induction ps arbitrary: acc) (auto simp: apply_nuke_proof_len)
  have "otm_len (fst (fold (\<lambda>(h, ps). fold (apply_nuke_proof bth h) ps) us acc)) = otm_len (fst acc)" for acc
    by (induction us arbitrary: acc) (auto simp: inner)
  then show ?thesis by (simp add: apply_nukes_def)
qed

lemma on_settled_len:
  assumes "on_settled_blob_tx E bth tx res st b = Some (st', b', n')"
  shows "unsettled_len st' \<le> unsettled_len st"
proof (cases res)
  case (Inl u)
  with assms show ?thesis by (simp add: on_settled_blob_tx_def Let_def)
next
  case (Inr r)
  with assms show ?thesis
    by (auto simp: on_settled_blob_tx_def on_settled_success_def Let_def
        split: option.splits prod.splits dest!: apply_changes_len) (metis apply_nukes_len fst_conv)
qed

lemma try_to_settle_cases:
  assumes "try_to_settle_blob_tx E st h ev dp lane = (st', ev', dp', lane', res)"
  shows "(\<exists>e. res = Inl e \<and> st' = st) \<or>
    (\<exists>out. res = Inr out \<and> otm_get (ns_unsettled_transactions st) h = Some (so_tx out) \<and>
      st' = st\<lparr>ns_unsettled_transactions := fst (otm_remove E (ns_unsettled_transactions st) h)\<rparr>)"
  using assms
  by (auto simp: try_to_settle_blob_tx_def Let_def split: option.splits if_splits prod.splits)

lemma settle_round_len:
  assumes "settle_round E st b h = Some (st', b', next)"
  shows "next = None \<Longrightarrow> unsettled_len st' = unsettled_len st"
    and "next = Some txs \<Longrightarrow> unsettled_len st' < unsettled_len st"
proof -
  let ?t = "try_to_settle_blob_tx E st h
    (case map_of (bk_transactions_events b) h of Some v \<Rightarrow> v | None \<Rightarrow> [])
    (case map_of (bk_dp_parent_hashes b) h of Some v \<Rightarrow> v | None \<Rightarrow> [])
    (case map_of (bk_lane_ids b) h of Some v \<Rightarrow> v | None \<Rightarrow> [])"
  obtain st1 ev dp lane res where t: "?t = (st1, ev, dp, lane, res)"
    by (cases ?t) auto
  show "unsettled_len st' = unsettled_len st" if "next = None"
    using assms that try_to_settle_cases [OF t]
    by (auto simp: settle_round_def Let_def t)
  show "unsettled_len st' < unsettled_len st" if "next = Some txs"
    using assms that try_to_settle_cases [OF t]
      otm_remove_len [of "ns_unsettled_transactions st" h E]
    by (auto simp: settle_round_def Let_def t dest!: on_settled_len)
qed

function settle_txs_until_done ::
    "Env \<Rightarrow> NodeStateStore \<Rightarrow> Block \<Rightarrow> TxHash btreeset \<Rightarrow> TxHash btreeset \<Rightarrow>
     (NodeStateStore \<times> Block \<times> TxHash btreeset) option" where
  "settle_txs_until_done E st b [] unsettlable_txs = Some (st, b, unsettlable_txs)"
| "settle_txs_until_done E st b (bth # blob_tx_to_try_and_settle) unsettlable_txs =
     (case settle_round E st b bth of
        None \<Rightarrow> None
      | Some (st', b', Some txs) \<Rightarrow>
          settle_txs_until_done E st' b' (bs_extend txs blob_tx_to_try_and_settle) unsettlable_txs
      | Some (st', b', None) \<Rightarrow>
          settle_txs_until_done E st' b' blob_tx_to_try_and_settle (bs_insert bth unsettlable_txs))"
  by pat_completeness auto

termination
  by (relation "measures [\<lambda>(E, st, b, todo, u). unsettled_len st, \<lambda>(E, st, b, todo, u). length todo]")
    (auto dest: settle_round_len)

subsection \<open>Timeouts of the transactions that are next\<close>

text \<open>
  The loop that sets the timeout of each transaction which could not be settled and is
  next for all its contracts. The \<open>unwrap\<close> is the inner \<open>None\<close>.
\<close>

fun set_next_timeouts :: "Env \<Rightarrow> TxHash list \<Rightarrow> NodeStateStore \<Rightarrow> NodeStateStore option" where
  "set_next_timeouts E [] st = Some st"
| "set_next_timeouts E (unsettled_tx # rest) st =
     (if is_next_to_settle E (ns_unsettled_transactions st) unsettled_tx then
        (case otm_get (ns_unsettled_transactions st) unsettled_tx of
           None \<Rightarrow> None
         | Some tx \<Rightarrow>
             set_next_timeouts E rest
               (set_timeout st unsettled_tx (get_tx_timeout_window st (map (\<lambda>(_, m). um_blob m) (ut_blobs tx)))))
      else set_next_timeouts E rest st)"

text \<open>Settling a set of transactions, then setting the timeouts of those left.\<close>

definition settle_and_set_timeouts ::
    "Env \<Rightarrow> NodeStateStore \<Rightarrow> Block \<Rightarrow> TxHash btreeset \<Rightarrow> (NodeStateStore \<times> Block) option" where
  "settle_and_set_timeouts E st b txs =
     (case settle_txs_until_done E st b txs [] of
        None \<Rightarrow> None
      | Some (st1, b1, next_unsettled_txs) \<Rightarrow>
          map_option (\<lambda>st2. (st2, b1)) (set_next_timeouts E next_unsettled_txs st1))"

text \<open>The closure of \<open>retain\<close> over the transactions due at this height, and the hashes it keeps.\<close>

fun time_out_txs :: "Env \<Rightarrow> TxHash list \<Rightarrow> NodeStateStore \<Rightarrow> Block \<Rightarrow> (NodeStateStore \<times> Block \<times> TxHash list) option" where
  "time_out_txs E [] st b = Some (st, b, [])"
| "time_out_txs E (h # hs) st b =
     (case otm_remove E (ns_unsettled_transactions st) h of
        (m, Some tx) \<Rightarrow>
          (case settle_and_set_timeouts E (st\<lparr>ns_unsettled_transactions := m\<rparr>)
                  (record_origin (ut_hash tx) (ut_parent_dp_hash tx) (tc_lane_id (ut_tx_context tx))
                    (push_event (ut_hash tx) TimedOut b))
                  (get_next_txs_blocked_by_tx E m tx) of
             None \<Rightarrow> None
           | Some (st1, b1) \<Rightarrow>
               map_option (\<lambda>(st2, b2, kept). (st2, b2, h # kept)) (time_out_txs E hs st1 b1))
      | (m, None) \<Rightarrow> time_out_txs E hs st b)"

definition clear_timeouts :: "Env \<Rightarrow> NodeStateStore \<Rightarrow> Block \<Rightarrow> (NodeStateStore \<times> Block) option" where
  "clear_timeouts E st b =
     (case timeouts_drop (ns_timeouts st) (bk_block_height b) of
        (timeouts, txs_at_timeout) \<Rightarrow>
          map_option (\<lambda>(st1, b1, kept). (st1, b1\<lparr>bk_timed_out_txs := kept\<rparr>))
            (time_out_txs E txs_at_timeout (st\<lparr>ns_timeouts := timeouts\<rparr>) b))"

subsection \<open>Handling a block\<close>

definition initial_block :: "Env \<Rightarrow> SignedBlock \<Rightarrow> Block" where
  "initial_block E signed_block =
     \<lparr>bk_parent_hash = SignedBlock_parent_hash signed_block,
      bk_hash = SignedBlock_hashed E signed_block,
      bk_block_height = SignedBlock_height signed_block,
      bk_block_timestamp = cp_timestamp (sk_consensus_proposal signed_block),
      bk_txs = [],
      bk_dp_parent_hashes = [],
      bk_lane_ids = [],
      bk_successful_txs = [],
      bk_failed_txs = [],
      bk_timed_out_txs = [],
      bk_dropped_duplicate_txs = [],
      bk_blob_proof_outputs = [],
      bk_verified_blobs = [],
      bk_new_bounded_validators =
        List.map_filter (\<lambda>v. case v of Bond candidate \<Rightarrow> Some (vs_validator (sg_signature candidate)) | _ \<Rightarrow> None)
          (cp_staking_actions (sk_consensus_proposal signed_block)),
      bk_staking_actions = [],
      bk_registered_contracts = [],
      bk_deleted_contracts = [],
      bk_updated_states = [],
      bk_updated_program_ids = [],
      bk_updated_timeout_windows = [],
      bk_transactions_events = []\<rparr>"

text \<open>The three outcomes of a blob transaction inside a block.\<close>

definition handle_block_blob_tx ::
    "Env \<Rightarrow> TimestampMs \<Rightarrow> LaneId \<Rightarrow> TxId \<Rightarrow> BlobTransaction \<Rightarrow> NodeStateStore \<Rightarrow> Block \<Rightarrow> (NodeStateStore \<times> Block) option" where
  "handle_block_blob_tx E timestamp lane_id tx_id blob_transaction st b =
     (case handle_blob_tx E st (fst tx_id) blob_transaction
             \<lparr>tc_lane_id = lane_id, tc_block_hash = bk_hash b, tc_block_height = bk_block_height b,
              tc_timestamp = timestamp, tc_chain_id = HYLE_TESTNET_CHAIN_ID\<rparr> of
        Inr (st1, ShouldSettle tx_hash) \<Rightarrow> settle_and_set_timeouts E st1 b (bs_insert tx_hash [])
      | Inr (st1, Duplicate) \<Rightarrow>
          Some (st1, push_event (snd tx_id) DroppedAsDuplicate
                       (b\<lparr>bk_dropped_duplicate_txs := bk_dropped_duplicate_txs b @ [tx_id]\<rparr>))
      | Inr (st1, HandledOk) \<Rightarrow> Some (st1, push_event (snd tx_id) Sequenced b)
      | Inl e \<Rightarrow>
          Some (st, (push_event (snd tx_id) (EvError (FailedBlobTx e)) b)
                      \<lparr>bk_failed_txs := bk_failed_txs b @ [snd tx_id]\<rparr>))"

text \<open>The closure of the \<open>filter_map\<close> over the proven blobs of a proof transaction.\<close>

definition handle_proven_blob ::
    "Env \<Rightarrow> TxId \<Rightarrow> BlobProofOutput \<Rightarrow> NodeStateStore \<times> Block \<times> TxHash btreeset \<Rightarrow> NodeStateStore \<times> Block \<times> TxHash btreeset" where
  "handle_proven_blob E tx_id blob_proof_data acc =
     (let (st, b, to_settle) = acc
      in case handle_blob_proof E st (snd tx_id) blob_proof_data b of
           (st1, b1, Inr (Some h)) \<Rightarrow> (st1, b1, bs_insert h to_settle)
         | (st1, b1, Inr None) \<Rightarrow> (st1, b1, to_settle)
         | (st1, b1, Inl err) \<Rightarrow>
             (st1,
              push_event
                (if hm_contains (bk_dp_parent_hashes b1) (bp_blob_tx_hash blob_proof_data)
                 then bp_blob_tx_hash blob_proof_data else snd tx_id)
                (EvError (FailedProofBlob (ho_index (bp_hyle_output blob_proof_data)) tx_id err)) b1,
              to_settle))"

definition handle_block_tx ::
    "Env \<Rightarrow> TimestampMs \<Rightarrow> LaneId \<times> TxId \<times> Transaction \<Rightarrow> NodeStateStore \<Rightarrow> Block \<Rightarrow> (NodeStateStore \<times> Block) option" where
  "handle_block_tx E timestamp entry st b =
     (let (lane_id, tx_id, tx) = entry;
          b1 = record_origin (snd tx_id) (fst tx_id) lane_id b
      in map_option (\<lambda>(st', b'). (st', b'\<lparr>bk_txs := bk_txs b' @ [(tx_id, tx)]\<rparr>))
           (case tx_transaction_data tx of
              TD_Blob blob_transaction \<Rightarrow> handle_block_blob_tx E timestamp lane_id tx_id blob_transaction st b1
            | TD_Proof _ \<Rightarrow> Some (st, b1)
            | TD_VerifiedProof proof_tx \<Rightarrow>
                (case fold (handle_proven_blob E tx_id) (vp_proven_blobs proof_tx) (st, b1, []) of
                   (st2, b2, to_settle) \<Rightarrow> settle_and_set_timeouts E st2 b2 to_settle)))"

fun handle_block_txs ::
    "Env \<Rightarrow> TimestampMs \<Rightarrow> (LaneId \<times> TxId \<times> Transaction) list \<Rightarrow> NodeStateStore \<Rightarrow> Block \<Rightarrow> (NodeStateStore \<times> Block) option" where
  "handle_block_txs E timestamp [] st b = Some (st, b)"
| "handle_block_txs E timestamp (entry # rest) st b =
     (case handle_block_tx E timestamp entry st b of
        None \<Rightarrow> None
      | Some (st', b') \<Rightarrow> handle_block_txs E timestamp rest st' b')"

text \<open>A block of the wrong height is refused and leaves the state unchanged.\<close>

definition handle_signed_block ::
    "Env \<Rightarrow> NodeStateStore \<Rightarrow> SignedBlock \<Rightarrow> (NodeStateStore \<times> Block, NodeError) Result option" where
  "handle_signed_block E st signed_block =
     (let next_block = (ns_current_height st + 1 = SignedBlock_height signed_block);
          initial = (ns_current_height st = 0 \<and> SignedBlock_height signed_block = 0)
      in if \<not> next_block \<and> \<not> initial
         then Some (Err (BadBlockHeight (SignedBlock_height signed_block) (ns_current_height st)))
         else
           (case clear_timeouts E (st\<lparr>ns_current_height := SignedBlock_height signed_block\<rparr>) (initial_block E signed_block) of
              None \<Rightarrow> None
            | Some (st1, b1) \<Rightarrow>
                map_option Ok
                  (handle_block_txs E (cp_timestamp (sk_consensus_proposal signed_block))
                    (iter_txs_with_id E signed_block) st1 b1)))"

subsection \<open>Queries\<close>

text \<open>
  The answers of the node state module
  (\<open>crates/hyle-modules/src/node_state/module.rs\<close>) to the commands of other modules.
\<close>

definition query_contract :: "NodeStateStore \<Rightarrow> ContractName \<Rightarrow> (BlockHeight \<times> Contract) option" where
  "query_contract st cmd = map_option (Pair (ns_current_height st)) (hm_get (ns_contracts st) cmd)"

definition query_settled_height :: "NodeStateStore \<Rightarrow> ContractName \<Rightarrow> BlockHeight option" where
  "query_settled_height st cmd =
     (if \<not> hm_contains (ns_contracts st) cmd then None
      else
        let height = (case get_earliest_unsettled_height (ns_unsettled_transactions st) cmd of
                        Some h \<Rightarrow> h | None \<Rightarrow> ns_current_height st)
        in Some (height - 1))"

definition query_unsettled_tx_count :: "NodeStateStore \<Rightarrow> ContractName option \<Rightarrow> u64" where
  "query_unsettled_tx_count st cmd =
     (case cmd of
        Some contract_name \<Rightarrow>
          (case get_tx_order (ns_unsettled_transactions st) contract_name of
             Some txs \<Rightarrow> word_of_nat (length txs)
           | None \<Rightarrow> 0)
      | None \<Rightarrow> word_of_nat (otm_len (ns_unsettled_transactions st)))"

definition query_unsettled_tx :: "NodeStateStore \<Rightarrow> TxHash \<Rightarrow> UnsettledBlobTransaction option" where
  "query_unsettled_tx st tx_hash = otm_get (ns_unsettled_transactions st) tx_hash"

end
