(* ===== verification/Node_State_Proofs.thy ===== *)
theory Node_State_Proofs
  imports Node_State
begin

text \<open>
  What the parts of a settlement do to the store and to the block under construction: the
  queue of a deleted contract is timed out, the pending changes are applied to the
  contracts and reported in the block, proofs are added to other transactions. The
  invariant of the store is kept and every part returns.
\<close>

definition node_inv :: "Env \<Rightarrow> NodeStateStore \<Rightarrow> bool" where
  "node_inv E st \<longleftrightarrow> otm_inv E (ns_unsettled_transactions st) \<and> contracts_inv (ns_contracts st)"

definition events_of :: "Block \<Rightarrow> TxHash \<Rightarrow> TransactionStateEvent list" where
  "events_of b h = (case map_of (bk_transactions_events b) h of None \<Rightarrow> [] | Some evs \<Rightarrow> evs)"

text \<open>The parts of a block that only some of the steps touch.\<close>

definition block_frame :: "Block \<Rightarrow> Block" where
  "block_frame b = b\<lparr>bk_transactions_events := [], bk_dp_parent_hashes := [], bk_lane_ids := []\<rparr>"

lemma block_frame_simps [simp]:
  "block_frame (push_event h ev b) = block_frame b"
  "block_frame (record_origin h dp lane b) = block_frame b"
  "block_frame (b\<lparr>bk_transactions_events := x\<rparr>) = block_frame b"
  by (simp_all add: block_frame_def push_event_def record_origin_def)

lemma block_frameD:
  assumes "block_frame b' = block_frame b"
  shows "bk_successful_txs b' = bk_successful_txs b" "bk_failed_txs b' = bk_failed_txs b"
    "bk_dropped_duplicate_txs b' = bk_dropped_duplicate_txs b"
    "bk_registered_contracts b' = bk_registered_contracts b" "bk_deleted_contracts b' = bk_deleted_contracts b"
    "bk_updated_states b' = bk_updated_states b" "bk_updated_program_ids b' = bk_updated_program_ids b"
    "bk_updated_timeout_windows b' = bk_updated_timeout_windows b"
  using arg_cong [OF assms, of bk_successful_txs] arg_cong [OF assms, of bk_failed_txs]
    arg_cong [OF assms, of bk_dropped_duplicate_txs] arg_cong [OF assms, of bk_registered_contracts]
    arg_cong [OF assms, of bk_deleted_contracts] arg_cong [OF assms, of bk_updated_states]
    arg_cong [OF assms, of bk_updated_program_ids] arg_cong [OF assms, of bk_updated_timeout_windows]
  by (simp_all add: block_frame_def)

lemma events_of_simps [simp]:
  "events_of (push_event h ev b) k = events_of b k @ (if k = h then [ev] else [])"
  "events_of (record_origin h dp lane b) k = events_of b k"
  "events_of (b\<lparr>bk_transactions_events := bt_insert h evs (bk_transactions_events b)\<rparr>) k =
     (if k = h then evs else events_of b k)"
  by (simp_all add: events_of_def push_event_def record_origin_def bt_push_def hm_simps split: option.split)

text \<open>Events are only appended, and only events of the given kinds.\<close>

definition events_grow :: "(TransactionStateEvent \<Rightarrow> bool) \<Rightarrow> Block \<Rightarrow> Block \<Rightarrow> bool" where
  "events_grow kinds b b' \<longleftrightarrow> (\<forall>k. \<exists>ts. events_of b' k = events_of b k @ ts \<and> list_all kinds ts)"

lemma events_grow_same: "(\<And>k. events_of b' k = events_of b k) \<Longrightarrow> events_grow kinds b b'"
  unfolding events_grow_def by (intro allI exI [of _ "[]"]) simp

lemma events_grow_trans: "events_grow kinds a b \<Longrightarrow> events_grow kinds b c \<Longrightarrow> events_grow kinds a c"
  unfolding events_grow_def by (metis append.assoc list_all_append)

lemma events_grow_push: "kinds ev \<Longrightarrow> events_grow kinds b (push_event h ev b)"
  unfolding events_grow_def
proof
  fix k
  assume "kinds ev"
  then show "\<exists>ts. events_of (push_event h ev b) k = events_of b k @ ts \<and> list_all kinds ts"
    by (intro exI [of _ "if k = h then [ev] else []"]) simp
qed

lemma events_grow_keeps:
  "events_grow kinds b b' \<Longrightarrow> \<not> kinds ev \<Longrightarrow> ev \<in> set (events_of b' k) \<longleftrightarrow> ev \<in> set (events_of b k)"
  unfolding events_grow_def by (metis Un_iff list_all_iff set_append)

subsection \<open>Timing out the queue of a deleted contract\<close>

lemma timeout_queue_total:
  assumes "otm_inv E m"
  shows "\<exists>m' b' blocked'. timeout_queue E c m b blocked = Some (m', b', blocked') \<and> otm_inv E m' \<and>
    (\<forall>h t. otm_get m' h = Some t \<longrightarrow> otm_get m h = Some t \<and> \<not> touches E t c) \<and>
    block_frame b' = block_frame b \<and> events_grow (\<lambda>ev. ev = TimedOut) b b'"
  using assms
proof (induction m arbitrary: b blocked rule: otm.drain_induct [where c = c])
  case (drain m)
  show ?case
  proof (cases "get_next_unsettled_tx m c")
    case None
    then have "timeout_queue E c m b blocked = Some (m, b, blocked)"
      by (subst timeout_queue.simps) simp
    with drain(1) None show ?thesis
      using otm.next_None by (auto simp: events_grow_same)
  next
    case (Some h)
    then obtain t where t: "otm_get m h = Some t" using drain(1) otm.next_stored by blast
    then obtain m1 where rem: "otm_remove E m h = (m1, Some t)"
      using otm_remove_get [of E m h] by (metis surjective_pairing)
    let ?b = "record_origin h (ut_parent_dp_hash t) (tc_lane_id (ut_tx_context t)) (push_event h TimedOut b)"
    have unfold: "timeout_queue E c m b blocked =
        timeout_queue E c m1 ?b (List.union blocked (get_contracts_blocked_by_tx E t))"
      using Some rem by (subst timeout_queue.simps) simp
    let ?bl = "List.union blocked (get_contracts_blocked_by_tx E t)"
    obtain m' b' bl' where eq: "timeout_queue E c m1 ?b ?bl = Some (m', b', bl')" and inv: "otm_inv E m'"
      and sub: "\<forall>k u. otm_get m' k = Some u \<longrightarrow> otm_get m1 k = Some u \<and> \<not> touches E u c"
      and fr: "block_frame b' = block_frame ?b"
      and ev: "events_grow (\<lambda>ev. ev = TimedOut) ?b b'"
      using drain(2) [OF Some t, of ?b ?bl] unfolding rem fst_conv by blast
    have get: "otm_get m1 k = (if k = h then None else otm_get m k)" for k
      using otm.rem_get [OF drain(1), of h] rem by simp
    have "events_grow (\<lambda>ev. ev = TimedOut) b ?b"
      using events_grow_push [of "\<lambda>ev. ev = TimedOut" TimedOut b h] by (simp add: events_grow_def)
    with ev have "events_grow (\<lambda>ev. ev = TimedOut) b b'" by (rule events_grow_trans [rotated])
    moreover have "otm_get m k = Some u \<and> \<not> touches E u c" if "otm_get m' k = Some u" for k u
      using sub that by (metis get option.discI)
    ultimately show ?thesis
      using eq inv fr unfold by simp
  qed
qed

subsection \<open>What the flags of a pending change say\<close>

text \<open>A field that a change does not flag is the field of the stored contract.\<close>

definition same_field :: "Contracts \<Rightarrow> ContractName \<Rightarrow> (Contract \<Rightarrow> 'a) \<Rightarrow> Contract \<Rightarrow> bool" where
  "same_field contracts k f c \<longleftrightarrow> (\<exists>c0. map_of contracts k = Some c0 \<and> f c = f c0)"

definition flags_ok :: "Contracts \<Rightarrow> ContractName \<Rightarrow> ModifiedContractData \<Rightarrow> bool" where
  "flags_ok contracts k d =
     (case d of
        (None, _) \<Rightarrow> True
      | (Some c, mf, _) \<Rightarrow>
          (mf_state mf \<or> same_field contracts k c_state c) \<and>
          (mf_program_id mf \<or> same_field contracts k c_program_id c) \<and>
          (mf_timeout_window mf \<or> same_field contracts k c_timeout_window c))"

definition changes_flags :: "Contracts \<Rightarrow> ContractChanges \<Rightarrow> bool" where
  "changes_flags contracts ch \<longleftrightarrow> (\<forall>k. case map_of ch k of None \<Rightarrow> True | Some d \<Rightarrow> flags_ok contracts k d)"

lemma flags_ok_simps [simp]:
  "flags_ok contracts k (None, mf, se)"
  "flags_ok contracts k (mc, ModifiedContractFields_all, se)"
  by (simp_all add: flags_ok_def ModifiedContractFields_all_def split: option.split)

lemma changes_flags_Nil [simp]: "changes_flags contracts []"
  by (simp add: changes_flags_def)

lemma changes_flags_insert:
  "changes_flags contracts ch \<Longrightarrow> flags_ok contracts k d \<Longrightarrow> changes_flags contracts (bt_insert k d ch)"
  by (auto simp: changes_flags_def hm_simps)

lemma changes_flagsD: "changes_flags contracts ch \<Longrightarrow> map_of ch k = Some d \<Longrightarrow> flags_ok contracts k d"
  by (auto simp: changes_flags_def dest!: spec [of _ k])

lemma handle_register_blob_flags:
  "changes_flags contracts ch \<Longrightarrow> handle_register_blob E contracts ch reg = Ok ch' \<Longrightarrow> changes_flags contracts ch'"
  by (auto simp: handle_register_blob_def and_then_Ok split: if_splits intro!: changes_flags_insert)

lemma handle_delete_blob_flags:
  "changes_flags contracts ch \<Longrightarrow> handle_delete_blob contracts ch del = Ok ch' \<Longrightarrow> changes_flags contracts ch'"
  by (auto simp: handle_delete_blob_def split: if_splits intro!: changes_flags_insert)

lemma handle_update_program_id_blob_flags:
  assumes "changes_flags contracts ch" "handle_update_program_id_blob contracts ch u = Ok ch'"
  shows "changes_flags contracts ch'"
  using assms changes_flagsD [OF assms(1), of "up_contract_name u"]
  by (cases "map_of ch (up_contract_name u)")
    (auto simp: handle_update_program_id_blob_def and_then_Ok get_contract_Ok flags_ok_def same_field_def
      split: if_splits intro!: changes_flags_insert)

lemma handle_update_timeout_window_blob_flags:
  assumes "changes_flags contracts ch" "handle_update_timeout_window_blob contracts ch u = Ok ch'"
  shows "changes_flags contracts ch'"
  using assms changes_flagsD [OF assms(1), of "uw_contract_name u"]
  by (cases "map_of ch (uw_contract_name u)")
    (auto simp: handle_update_timeout_window_blob_def and_then_Ok get_contract_Ok flags_ok_def same_field_def
      split: if_splits intro!: changes_flags_insert)

lemma handle_blob_flags:
  "changes_flags contracts ch \<Longrightarrow> handle_blob_for_hyle_tld E contracts ch b = Ok ch' \<Longrightarrow> changes_flags contracts ch'"
  by (auto simp: handle_blob_for_hyle_tld_def split: option.splits if_splits
      dest: handle_register_blob_flags handle_delete_blob_flags handle_update_program_id_blob_flags
        handle_update_timeout_window_blob_flags)

lemma apply_onchain_effect_flags:
  assumes "apply_onchain_effect E contract blob eff ch = Ok ch'"
  shows "\<exists>d. ch' = bt_insert (effect_target eff) d ch \<and> flags_ok contracts (effect_target eff) d"
proof (cases eff)
  case (RegisterContract e)
  then show ?thesis
    using assms
    by (auto simp: apply_onchain_effect_def and_then_Ok simp del: split_paired_Ex split: option.split_asm)
next
  case (DeleteContract cn)
  then show ?thesis
    using assms
    by (auto simp: apply_onchain_effect_def and_then_Ok simp del: split_paired_Ex split: option.splits)
qed

lemma apply_onchain_effects_flags:
  "apply_onchain_effects E contract blob effs ch = Ok ch' \<Longrightarrow> changes_flags contracts ch \<Longrightarrow>
     changes_flags contracts ch'"
  and apply_onchain_effects_grow:
  "apply_onchain_effects E contract blob effs ch = Ok ch' \<Longrightarrow> map_of ch' k = None \<Longrightarrow> map_of ch k = None"
proof (induction effs arbitrary: ch)
  case (Cons eff effs)
  {
    case 1
    then obtain ch1 where ch1: "apply_onchain_effect E contract blob eff ch = Ok ch1"
        and rest: "apply_onchain_effects E contract blob effs ch1 = Ok ch'"
      by (auto simp: and_then_Ok)
    show ?case
      using apply_onchain_effect_flags [OF ch1, of contracts] 1(2)
      by (intro Cons.IH(1) [OF rest]) (auto simp: changes_flags_insert simp del: split_paired_Ex)
  next
    case 2
    then obtain ch1 where ch1: "apply_onchain_effect E contract blob eff ch = Ok ch1"
        and rest: "apply_onchain_effects E contract blob effs ch1 = Ok ch'"
      by (auto simp: and_then_Ok)
    have "map_of ch1 k = None" using Cons.IH(2) [OF rest 2(2)] .
    then show ?case
      using apply_onchain_effect_flags [OF ch1, of "[]"]
      by (auto simp: hm_simps simp del: split_paired_Ex split: if_splits)
  }
qed simp_all

lemma update_state_flags:
  assumes "changes_flags contracts ch"
    and "map_of ch (c_name contract) = None \<Longrightarrow> map_of contracts (c_name contract) = Some contract"
  shows "changes_flags contracts (update_state contract s ch)"
  using assms changes_flagsD [OF assms(1), of "c_name contract"]
  by (auto simp: update_state_def flags_ok_def same_field_def split: option.split intro!: changes_flags_insert)

lemma process_proof_flags:
  assumes "contracts_inv contracts" "changes_inv ch" "changes_flags contracts ch"
    and "process_proof E contracts ch n p b = Ok ch'"
  shows "changes_flags contracts ch'"
proof -
  obtain pid ho where p: "p = (pid, ho)" by force
  from assms(4) [unfolded p] obtain contract ch1 where c: "get_contract contracts ch n = Ok contract"
      and eff: "apply_onchain_effects E contract (um_blob b) (ho_onchain_effects ho) ch = Ok ch1"
      and ch': "ch' = update_state contract (ho_next_state ho) ch1"
    by (rule process_proof_Ok)
  have "c_name contract = n" using get_contract_name assms c by blast
  then show ?thesis
    using ch' c apply_onchain_effects_flags [OF eff assms(3)] apply_onchain_effects_grow [OF eff, of n]
    by (auto simp: get_contract_Ok intro!: update_state_flags)
qed

lemma replay_flags:
  "contracts_inv contracts \<Longrightarrow> changes_inv ch \<Longrightarrow> changes_flags contracts ch \<Longrightarrow>
     replay E contracts ch bs is = Some ch' \<Longrightarrow> changes_flags contracts ch'"
  by (induction E contracts ch bs "is" rule: replay.induct)
    (auto split: if_splits sum.splits
      dest: handle_blob_inv process_proof_inv handle_blob_flags process_proof_flags)

subsection \<open>Applying the changes of a settled transaction\<close>

definition block_lists :: "Block \<Rightarrow> TxHash list \<times> TxHash list \<times> TxId list" where
  "block_lists b = (bk_successful_txs b, bk_failed_txs b, bk_dropped_duplicate_txs b)"

text \<open>The report of contract changes in a block.\<close>

definition block_report where
  "block_report b = (bk_registered_contracts b, bk_deleted_contracts b, bk_updated_states b,
     bk_updated_program_ids b, bk_updated_timeout_windows b)"

lemma delete_contract_total:
  assumes "otm_inv E (ns_unsettled_transactions st)"
  shows "\<exists>m b1 n'. delete_contract E bth c st b n =
      Some (st\<lparr>ns_contracts := hm_remove c (ns_contracts st), ns_unsettled_transactions := m\<rparr>,
        b1\<lparr>bk_registered_contracts := AList.delete c (bk_registered_contracts b),
           bk_deleted_contracts := bt_insert c bth (bk_deleted_contracts b)\<rparr>, n') \<and>
    otm_inv E m \<and> block_frame b1 = block_frame b \<and> events_grow (\<lambda>ev. ev = TimedOut) b b1 \<and>
    (\<forall>h t. otm_get m h = Some t \<longrightarrow> otm_get (ns_unsettled_transactions st) h = Some t \<and> \<not> touches E t c)"
proof -
  obtain m b1 bl where q: "timeout_queue E c (ns_unsettled_transactions st) b [] = Some (m, b1, bl)"
    and inv: "otm_inv E m" and fr: "block_frame b1 = block_frame b"
    and ev: "events_grow (\<lambda>ev. ev = TimedOut) b b1"
    and sub: "\<forall>h t. otm_get m h = Some t \<longrightarrow>
      otm_get (ns_unsettled_transactions st) h = Some t \<and> \<not> touches E t c"
    using timeout_queue_total [OF assms, of c b "[]"] by blast
  show ?thesis
    unfolding delete_contract_def q option.case prod.case block_frameD(4,5) [OF fr]
    using inv fr ev sub by blast
qed

lemma update_contract_block:
  assumes "update_contract bth c k mf se st b = (st', b')"
  shows "st' = st\<lparr>ns_contracts := hm_insert (c_name k) k (ns_contracts st)\<rparr>"
    and "block_lists b' = block_lists b" and "bk_transactions_events b' = bk_transactions_events b"
  using assms by (auto simp: update_contract_def Let_def block_lists_def split: if_splits)

lemma apply_change_total:
  assumes "otm_inv E (ns_unsettled_transactions st)"
  shows "\<exists>st' b' n'. apply_change E bth c d st b n = Some (st', b', n') \<and>
    otm_inv E (ns_unsettled_transactions st') \<and> ns_current_height st' = ns_current_height st \<and>
    block_lists b' = block_lists b \<and> events_grow (\<lambda>ev. ev = TimedOut) b b'"
proof -
  obtain mc mf se where d: "d = (mc, mf, se)" by (cases d) auto
  show ?thesis
  proof (cases mc)
    case None
    obtain m b1 n' where del: "delete_contract E bth c st b n =
        Some (st\<lparr>ns_contracts := hm_remove c (ns_contracts st), ns_unsettled_transactions := m\<rparr>,
          b1\<lparr>bk_registered_contracts := AList.delete c (bk_registered_contracts b),
             bk_deleted_contracts := bt_insert c bth (bk_deleted_contracts b)\<rparr>, n')" (is "_ = Some (?st, ?b, _)")
      and m: "otm_inv E m" and fr: "block_frame b1 = block_frame b"
      and ev: "events_grow (\<lambda>ev. ev = TimedOut) b b1"
      using delete_contract_total [OF assms] by blast
    have "block_lists ?b = block_lists b" using block_frameD [OF fr] by (simp add: block_lists_def)
    moreover have "events_grow (\<lambda>ev. ev = TimedOut) b ?b"
      using ev by (simp add: events_grow_def events_of_def)
    ultimately show ?thesis using m del None d by (simp add: apply_change_def)
  next
    case (Some k)
    obtain st1 b1 where u: "update_contract bth c k mf se st b = (st1, b1)" by force
    have "events_grow (\<lambda>ev. ev = TimedOut) b b1"
      using update_contract_block(3) [OF u] by (simp add: events_grow_same events_of_def)
    with u d Some assms update_contract_block [OF u] show ?thesis by (simp add: apply_change_def)
  qed
qed

lemma apply_changes_total:
  assumes "otm_inv E (ns_unsettled_transactions st)"
  shows "\<exists>st' b' n'. apply_changes E bth ch st b n = Some (st', b', n') \<and>
    otm_inv E (ns_unsettled_transactions st') \<and> ns_current_height st' = ns_current_height st \<and>
    block_lists b' = block_lists b \<and> events_grow (\<lambda>ev. ev = TimedOut) b b'"
  using assms
proof (induction E bth ch st b n rule: apply_changes.induct)
  case (1 E bth st b n)
  then show ?case by (simp add: events_grow_same)
next
  case (2 E bth c d rest st b n)
  obtain st1 b1 n1 where c: "apply_change E bth c d st b n = Some (st1, b1, n1)"
      and inv: "otm_inv E (ns_unsettled_transactions st1)" and hs: "ns_current_height st1 = ns_current_height st"
      and bl: "block_lists b1 = block_lists b"
      and ev: "events_grow (\<lambda>ev. ev = TimedOut) b b1"
    using apply_change_total [OF 2(2)] by blast
  obtain st' b' n' where "apply_changes E bth rest st1 b1 n1 = Some (st', b', n')"
      "otm_inv E (ns_unsettled_transactions st')" "ns_current_height st' = ns_current_height st1"
      "block_lists b' = block_lists b1" "events_grow (\<lambda>ev. ev = TimedOut) b1 b'"
    using 2(1) [OF c refl refl inv] by blast
  then show ?case using c bl hs events_grow_trans [OF ev] by simp
qed

lemma apply_change_contracts:
  assumes "apply_change E bth c d st b n = Some (st', b', n')" "change_ok c d"
  shows "map_of (ns_contracts st') = (map_of (ns_contracts st))(c := fst d)"
    and "hm_inv (ns_contracts st) \<Longrightarrow> hm_inv (ns_contracts st')"
proof -
  obtain mc mf se where d: "d = (mc, mf, se)" by (cases d) auto
  have "ns_contracts st' = (case mc of None \<Rightarrow> hm_remove c (ns_contracts st)
      | Some k \<Rightarrow> hm_insert c k (ns_contracts st))"
    using assms d
    by (auto simp: apply_change_def delete_contract_def split: option.splits prod.splits
        dest: update_contract_block(1))
  with d show "map_of (ns_contracts st') = (map_of (ns_contracts st))(c := fst d)"
    and "hm_inv (ns_contracts st) \<Longrightarrow> hm_inv (ns_contracts st')"
    by (auto simp: hm_simps split: option.split)
qed

lemma apply_changes_contracts:
  assumes "apply_changes E bth ch st b n = Some (st', b', n')"
    and "distinct (map fst ch)" and "\<forall>(k, d) \<in> set ch. change_ok k d"
  shows "map_of (ns_contracts st') c =
      (case map_of ch c of None \<Rightarrow> map_of (ns_contracts st) c | Some d \<Rightarrow> fst d)"
    and "hm_inv (ns_contracts st) \<Longrightarrow> hm_inv (ns_contracts st')"
  using assms
proof (induction ch arbitrary: st b n)
  case (Cons e rest)
  obtain k d where e: "e = (k, d)" by (cases e)
  {
    case 1
    then obtain st1 b1 n1 where a: "apply_change E bth k d st b n = Some (st1, b1, n1)"
        and r: "apply_changes E bth rest st1 b1 n1 = Some (st', b', n')"
      by (auto simp: e split: option.splits)
    have "map_of (ns_contracts st') c =
        (case map_of rest c of None \<Rightarrow> map_of (ns_contracts st1) c | Some d \<Rightarrow> fst d)"
      using Cons.IH(1) [OF r] 1(2,3) by (simp add: e)
    moreover have "map_of rest k = None" using 1(2) by (simp add: e map_of_eq_None_iff)
    ultimately show ?case
      using apply_change_contracts(1) [OF a] 1(3) by (cases "c = k") (simp_all add: e split: option.split)
  next
    case 2
    then obtain st1 b1 n1 where a: "apply_change E bth k d st b n = Some (st1, b1, n1)"
        and r: "apply_changes E bth rest st1 b1 n1 = Some (st', b', n')"
      by (auto simp: e split: option.splits)
    then show ?case
      using Cons.IH(2) [OF _ r] apply_change_contracts(2) [OF a] 2(1,3,4) by (simp add: e)
  }
qed simp_all

subsection \<open>The block reports every contract change\<close>

text \<open>
  What a field of a contract is according to the contracts before the block and the updates
  the block lists.
\<close>

definition field_reported :: "Contracts \<Rightarrow> (ContractName, 'a) btreemap \<Rightarrow> (Contract \<Rightarrow> 'a) \<Rightarrow> ContractName \<Rightarrow> Contract \<Rightarrow> bool" where
  "field_reported contracts0 updates f c k \<longleftrightarrow>
     (case map_of updates c of Some v \<Rightarrow> f k = v | None \<Rightarrow> same_field contracts0 c f k)"

text \<open>
  The contracts after a part of the block are those its report tells: a contract exists if
  the block registers it, or if it existed and the block does not delete it, and its
  fields are the last updates of the block or else those from before.
\<close>

definition report_ok :: "Contracts \<Rightarrow> Contracts \<Rightarrow> Block \<Rightarrow> bool" where
  "report_ok contracts0 contracts b \<longleftrightarrow>
     (\<forall>c. (map_of contracts c \<noteq> None) =
            (map_of (bk_registered_contracts b) c \<noteq> None \<or>
             map_of contracts0 c \<noteq> None \<and> map_of (bk_deleted_contracts b) c = None)) \<and>
     (\<forall>c k. map_of contracts c = Some k \<longrightarrow>
        field_reported contracts0 (bk_updated_states b) c_state c k \<and>
        field_reported contracts0 (bk_updated_program_ids b) c_program_id c k \<and>
        field_reported contracts0 (bk_updated_timeout_windows b) c_timeout_window c k)"

lemma report_ok_cong: "block_report b' = block_report b \<Longrightarrow> report_ok cs0 cs b' = report_ok cs0 cs b"
  by (simp add: report_ok_def block_report_def)

lemma field_reported_update:
  assumes "flag \<or> same_field cs c f k"
    and "\<And>k0. map_of cs c = Some k0 \<Longrightarrow> field_reported cs0 updates f c k0"
  shows "field_reported cs0 (if flag then bt_insert c (f k) updates else updates) f c k"
  using assms by (auto simp: field_reported_def same_field_def hm_simps split: option.splits)

lemma field_reported_other:
  "c \<noteq> c' \<Longrightarrow> field_reported cs0 (if flag then bt_insert c v updates else updates) f c' k =
     field_reported cs0 updates f c' k"
  by (simp add: field_reported_def hm_simps)

lemma update_contract_report:
  assumes "update_contract bth c k mf se st b = (st', b')" "c_name k = c"
  shows "hm_contains (ns_contracts st) c \<Longrightarrow> bk_registered_contracts b' = bk_registered_contracts b"
    and "\<not> hm_contains (ns_contracts st) c \<Longrightarrow>
      \<exists>r. bk_registered_contracts b' = bt_insert c r (bk_registered_contracts b)"
    and "bk_deleted_contracts b' =
      (if hm_contains (ns_contracts st) c then bk_deleted_contracts b else AList.delete c (bk_deleted_contracts b))"
    and "bk_updated_states b' =
      (if mf_state mf then bt_insert c (c_state k) (bk_updated_states b) else bk_updated_states b)"
    and "bk_updated_program_ids b' =
      (if mf_program_id mf then bt_insert c (c_program_id k) (bk_updated_program_ids b) else bk_updated_program_ids b)"
    and "bk_updated_timeout_windows b' =
      (if mf_timeout_window mf then bt_insert c (c_timeout_window k) (bk_updated_timeout_windows b)
       else bk_updated_timeout_windows b)"
  using assms
  by (auto simp: update_contract_def Let_def simp del: split_paired_Ex split: if_splits)

lemma apply_change_report:
  assumes rep: "report_ok cs0 (ns_contracts st) b"
    and a: "apply_change E bth c d st b n = Some (st', b', n')"
    and inv: "otm_inv E (ns_unsettled_transactions st)"
    and ok: "change_ok c d" "flags_ok (ns_contracts st) c d"
  shows "report_ok cs0 (ns_contracts st') b'"
proof -
  obtain mc mf se where d: "d = (mc, mf, se)" by (cases d) auto
  have cs: "map_of (ns_contracts st') = (map_of (ns_contracts st))(c := mc)"
    using apply_change_contracts(1) [OF a ok(1)] d by simp
  show ?thesis
  proof (cases mc)
    case None
    obtain m b1 n2 where "delete_contract E bth c st b n =
        Some (st\<lparr>ns_contracts := hm_remove c (ns_contracts st), ns_unsettled_transactions := m\<rparr>,
          b1\<lparr>bk_registered_contracts := AList.delete c (bk_registered_contracts b),
             bk_deleted_contracts := bt_insert c bth (bk_deleted_contracts b)\<rparr>, n2)"
      and fr: "block_frame b1 = block_frame b"
      using delete_contract_total [OF inv] by blast
    with a d None have b': "b' = b1\<lparr>bk_registered_contracts := AList.delete c (bk_registered_contracts b),
        bk_deleted_contracts := bt_insert c bth (bk_deleted_contracts b)\<rparr>"
      by (simp add: apply_change_def)
    show ?thesis
      using rep None unfolding report_ok_def b' cs
      by (simp add: block_frameD [OF fr] hm_simps)
  next
    case (Some k)
    then have name: "c_name k = c" using ok(1) d by simp
    have u: "update_contract bth c k mf se st b = (st', b')"
      using a d Some by (auto simp: apply_change_def split: prod.splits)
    note r = update_contract_report [OF u name]
    have fields: "field_reported cs0 (bk_updated_states b') c_state x k' \<and>
        field_reported cs0 (bk_updated_program_ids b') c_program_id x k' \<and>
        field_reported cs0 (bk_updated_timeout_windows b') c_timeout_window x k'"
      if x: "map_of (ns_contracts st') x = Some k'" for x k'
    proof (cases "x = c")
      case True
      with x cs Some have kk: "k' = k" by simp
      show ?thesis
        using ok(2) rep unfolding True kk r(4,5,6) d Some flags_ok_def report_ok_def option.case prod.case
        by (intro conjI field_reported_update [where cs = "ns_contracts st"]) simp_all
    next
      case False
      with x cs rep show ?thesis
        unfolding r(4,5,6) report_ok_def by (simp add: field_reported_other)
    qed
    have "(map_of (ns_contracts st') x \<noteq> None) = (map_of (bk_registered_contracts b') x \<noteq> None \<or>
        map_of cs0 x \<noteq> None \<and> map_of (bk_deleted_contracts b') x = None)" for x
      using rep r(1,2,3) unfolding cs Some report_ok_def
      by (cases "hm_contains (ns_contracts st) c"; cases "x = c")
        (auto simp: hm_contains_def hm_simps simp del: not_None_eq split_paired_Ex)
    with fields show ?thesis unfolding report_ok_def by blast
  qed
qed

lemma apply_changes_report:
  assumes "report_ok cs0 (ns_contracts st) b"
    and "apply_changes E bth ch st b n = Some (st', b', n')"
    and "otm_inv E (ns_unsettled_transactions st)" and "distinct (map fst ch)"
    and "\<forall>(k, d) \<in> set ch. change_ok k d \<and> flags_ok (ns_contracts st) k d"
  shows "report_ok cs0 (ns_contracts st') b'"
  using assms
proof (induction ch arbitrary: st b n)
  case (Cons e rest)
  obtain k d where e: "e = (k, d)" by (cases e)
  obtain st1 b1 n1 where a: "apply_change E bth k d st b n = Some (st1, b1, n1)"
      and r: "apply_changes E bth rest st1 b1 n1 = Some (st', b', n')"
    using Cons.prems(2) by (auto simp: e split: option.splits)
  have ok: "change_ok k d" "flags_ok (ns_contracts st) k d" using Cons.prems(5) by (auto simp: e)
  have inv1: "otm_inv E (ns_unsettled_transactions st1)"
    using apply_change_total [OF Cons.prems(3), of bth k d b n] a by auto
  have "flags_ok (ns_contracts st1) x d' = flags_ok (ns_contracts st) x d'" if "x \<noteq> k" for x d'
    using apply_change_contracts(1) [OF a ok(1)] that
    by (simp add: flags_ok_def same_field_def split: prod.split option.split)
  moreover have "x \<noteq> k" if "(x, d') \<in> set rest" for x d'
    using Cons.prems(4) that by (force simp: e)
  ultimately have "\<forall>(x, d') \<in> set rest. change_ok x d' \<and> flags_ok (ns_contracts st1) x d'"
    using Cons.prems(5) by (auto simp: e)
  then show ?case
    using Cons.IH [OF apply_change_report [OF Cons.prems(1) a Cons.prems(3) ok] r inv1] Cons.prems(4)
    by (simp add: e)
qed simp

subsection \<open>Adding proofs to unsettled transactions\<close>

lemma bt_insert_blobs:
  assumes "map_of bs i = Some md" "um_blob md' = um_blob md"
  shows "(\<lambda>(_, m). um_blob m) ` set (bt_insert i md' bs) = (\<lambda>(_, m). um_blob m) ` set bs"
  using assms
proof (induction bs)
  case (Cons e bs)
  obtain j m where e: "e = (j, m)" by (cases e)
  show ?case
  proof (cases "j = i")
    case True
    with Cons.prems show ?thesis by (simp add: e)
  next
    case False
    with Cons have IH: "(\<lambda>(_, m). um_blob m) ` set (bt_insert i md' bs) = (\<lambda>(_, m). um_blob m) ` set bs"
      by (simp add: e)
    have "um_blob md' \<in> (\<lambda>(_, m). um_blob m) ` set bs"
      using False Cons.prems by (force simp: e dest: map_of_SomeD)
    with False IH show ?thesis by (auto simp: e)
  qed
qed simp

lemma touches_add_proof:
  assumes "map_of (ut_blobs tx) i = Some md" "um_blob md' = um_blob md"
  shows "touches E (tx\<lparr>ut_blobs := bt_insert i md' (ut_blobs tx)\<rparr>) c = touches E tx c"
proof -
  have *: "touches E t c \<longleftrightarrow> (\<exists>b \<in> (\<lambda>(_, m). um_blob m) ` set (ut_blobs t). c \<in> set (blob_contracts E b))" for t
    by (force simp: touches_def get_contracts_blocked_by_tx_def)
  show ?thesis
    unfolding * using bt_insert_blobs [OF assms] by simp
qed

lemma otm_inv_add_proof:
  assumes "otm_inv E m" "otm_get m h = Some tx" "map_of (ut_blobs tx) i = Some md" "um_blob md' = um_blob md"
  shows "otm_inv E (otm_set m h (tx\<lparr>ut_blobs := bt_insert i md' (ut_blobs tx)\<rparr>))"
  using assms otm_inv_hash [OF assms(1,2)]
  by (intro otm_inv_set [OF assms(1,2)]) (simp_all add: touches_add_proof)

abbreviation is_new_proof :: "TransactionStateEvent \<Rightarrow> bool" where
  "is_new_proof ev \<equiv> (\<exists>i h out. ev = NewProof i h out)"

lemma apply_nuke_proof_keeps:
  assumes "apply_nuke_proof bth h u (m, b, f) = (m', b', f')" "otm_inv E m"
  shows "otm_inv E m' \<and> block_frame b' = block_frame b \<and> events_grow is_new_proof b b'"
  using assms
  by (auto simp: apply_nuke_proof_def Let_def split: prod.splits option.splits
      intro!: otm_inv_add_proof events_grow_same events_grow_push)

lemma apply_nukes_keeps:
  assumes "otm_inv E m"
  shows "\<exists>m' b' f'. apply_nukes bth us m b = (m', b', f') \<and> otm_inv E m' \<and> block_frame b' = block_frame b \<and>
    events_grow is_new_proof b b'"
proof -
  define good where "good = (\<lambda>acc :: OrderedTxMap \<times> Block \<times> TxHash btreeset. case acc of (m', b', f') \<Rightarrow>
    otm_inv E m' \<and> block_frame b' = block_frame b \<and> events_grow is_new_proof b b')"
  have step: "good (apply_nuke_proof bth h u acc)" if "good acc" for h u acc
  proof -
    obtain m1 b1 f1 where acc: "acc = (m1, b1, f1)" by (cases acc)
    obtain m2 b2 f2 where r: "apply_nuke_proof bth h u (m1, b1, f1) = (m2, b2, f2)"
      by (cases "apply_nuke_proof bth h u (m1, b1, f1)")
    have g: "otm_inv E m1" "block_frame b1 = block_frame b" "events_grow is_new_proof b b1"
      using that by (simp_all add: acc good_def)
    show ?thesis
      using apply_nuke_proof_keeps [OF r g(1)] g(2) events_grow_trans [OF g(3)]
      by (simp add: acc r good_def)
  qed
  have inner: "good acc \<Longrightarrow> good (fold (apply_nuke_proof bth h) ps acc)" for h ps acc
    by (rule fold_invariant [where Q = "\<lambda>_. True"]) (auto intro: step simp del: split_paired_All)
  have "good acc \<Longrightarrow> good (fold (\<lambda>(h, ps). fold (apply_nuke_proof bth h) ps) us acc)" for acc
    by (rule fold_invariant [where Q = "\<lambda>_. True"]) (auto simp: case_prod_beta intro: inner)
  moreover have "good (m, b, [])" using assms by (simp add: good_def events_grow_same)
  ultimately have "good (apply_nukes bth us m b)" by (simp add: apply_nukes_def)
  then show ?thesis unfolding good_def by (cases "apply_nukes bth us m b") auto
qed

subsection \<open>Settling one transaction\<close>

lemma note_settled_blobs_keep:
  assumes "fold (note_settled_blob E bth identity indices) blobs (b, nukes) = (b', nukes')"
  shows "block_lists b' = block_lists b" "block_report b' = block_report b" "\<And>k. events_of b' k = events_of b k"
proof -
  let ?P = "\<lambda>acc. block_lists (fst acc) = block_lists b \<and> block_report (fst acc) = block_report b \<and>
    bk_transactions_events (fst acc) = bk_transactions_events b"
  have "?P (fold (note_settled_blob E bth identity indices) blobs (b, nukes))"
    by (rule fold_invariant [where Q = "\<lambda>_. True"])
      (auto simp: note_settled_blob_def Let_def block_lists_def block_report_def
        split: prod.splits option.splits if_splits)
  then show "block_lists b' = block_lists b" "block_report b' = block_report b" "\<And>k. events_of b' k = events_of b k"
    by (simp_all add: assms events_of_def)
qed

abbreviation is_side_event :: "TransactionStateEvent \<Rightarrow> bool" where
  "is_side_event ev \<equiv> ev = TimedOut \<or> is_new_proof ev"

lemma events_grow_mono: "events_grow p b b' \<Longrightarrow> (\<And>ev. p ev \<Longrightarrow> q ev) \<Longrightarrow> events_grow q b b'"
  unfolding events_grow_def by (metis list_all_iff)

lemma contracts_inv_apply:
  assumes "contracts_inv cs" "changes_inv ch" "hm_inv cs'"
    and "\<And>c. map_of cs' c = (case map_of ch c of None \<Rightarrow> map_of cs c | Some d \<Rightarrow> fst d)"
  shows "contracts_inv cs'"
proof -
  have "c_name k = c" if "map_of cs' c = Some k" for c k
  proof (cases "map_of ch c")
    case None
    with that assms(1,4) show ?thesis by (simp add: contracts_inv_def)
  next
    case (Some d)
    with that assms(4) changes_invD [OF assms(2) Some] show ?thesis by (simp add: change_ok_def)
  qed
  moreover have "map_of cs' ''hyle'' \<noteq> None"
  proof (cases "map_of ch ''hyle''")
    case None
    then show ?thesis using assms(1,4) by (simp add: contracts_inv_def hm_contains_def)
  next
    case (Some d)
    then show ?thesis
      using assms(4) changes_invD [OF assms(2) Some] by (auto simp: change_ok_def split: option.splits)
  qed
  ultimately show ?thesis
    using assms(3) unfolding contracts_inv_def hm_contains_def by blast
qed

lemma on_settled_success_total:
  assumes inv: "node_inv E st" and ch: "changes_inv (sr_contract_changes r)"
    and fl: "changes_flags (ns_contracts st) (sr_contract_changes r)"
  shows "\<exists>st' b' n'. on_settled_success E bth tx r st b n = Some (st', b', n') \<and> node_inv E st' \<and>
    ns_current_height st' = ns_current_height st \<and>
    (\<forall>c. map_of (ns_contracts st') c =
      (case map_of (sr_contract_changes r) c of None \<Rightarrow> map_of (ns_contracts st) c | Some d \<Rightarrow> fst d)) \<and>
    block_lists b' = (bk_successful_txs b @ [bth], bk_failed_txs b, bk_dropped_duplicate_txs b) \<and>
    events_grow is_side_event (push_event bth Settled b) b' \<and>
    (\<forall>cs0. report_ok cs0 (ns_contracts st) b \<longrightarrow> report_ok cs0 (ns_contracts st') b')"
proof -
  let ?ch = "sr_contract_changes r"
  have otm: "otm_inv E (ns_unsettled_transactions st)" and cs: "contracts_inv (ns_contracts st)"
    using inv by (simp_all add: node_inv_def)
  have dist: "distinct (map fst ?ch)" using ch by (simp add: changes_inv_def bt_inv_distinct)
  have entry: "change_ok k d \<and> flags_ok (ns_contracts st) k d" if "(k, d) \<in> set ?ch" for k d
    using that map_of_is_SomeI [OF dist] changes_invD [OF ch] changes_flagsD [OF fl] by blast
  then have all_ok: "\<forall>(k, d) \<in> set ?ch. change_ok k d" by blast
  obtain b1 nukes where note1: "fold (note_settled_blob E bth (ut_identity tx) (sr_blob_proof_output_indices r))
      (ut_blobs tx) (push_event bth Settled b, []) = (b1, nukes)"
    by fastforce
  note b1 = note_settled_blobs_keep [OF note1]
  obtain st2 b2 n2 where ac: "apply_changes E bth ?ch st b1 n = Some (st2, b2, n2)"
      and inv2: "otm_inv E (ns_unsettled_transactions st2)" and hs2: "ns_current_height st2 = ns_current_height st"
      and bl2: "block_lists b2 = block_lists b1"
      and ev2: "events_grow (\<lambda>ev. ev = TimedOut) b1 b2"
    using apply_changes_total [OF otm, of bth ?ch b1 n] by blast
  obtain m b3 forced where nk: "apply_nukes bth (nuke_updates st2 nukes) (ns_unsettled_transactions st2) b2 = (m, b3, forced)"
      and m: "otm_inv E m" and fr3: "block_frame b3 = block_frame b2" and ev3: "events_grow is_new_proof b2 b3"
    using apply_nukes_keeps [OF inv2] by blast
  let ?st = "st2\<lparr>ns_unsettled_transactions := m\<rparr>"
  let ?b = "b3\<lparr>bk_successful_txs := bk_successful_txs b3 @ [bth]\<rparr>"
  have get: "map_of (ns_contracts st2) c =
      (case map_of ?ch c of None \<Rightarrow> map_of (ns_contracts st) c | Some d \<Rightarrow> fst d)" for c
    by (rule apply_changes_contracts(1) [OF ac dist all_ok])
  have hm: "hm_inv (ns_contracts st2)"
    using apply_changes_contracts(2) [OF ac dist all_ok] cs by (simp add: contracts_inv_def)
  have "node_inv E ?st"
    using m contracts_inv_apply [OF cs ch hm get] by (simp add: node_inv_def)
  moreover have "block_lists ?b = (bk_successful_txs b @ [bth], bk_failed_txs b, bk_dropped_duplicate_txs b)"
    using block_frameD [OF fr3] bl2 b1(1) by (simp add: block_lists_def push_event_def)
  moreover have "events_grow is_side_event (push_event bth Settled b) ?b"
  proof -
    have "events_grow is_side_event (push_event bth Settled b) b1"
      by (rule events_grow_same) (simp add: b1(3))
    then have "events_grow is_side_event (push_event bth Settled b) b3"
      using events_grow_mono [OF ev2, of is_side_event] events_grow_mono [OF ev3, of is_side_event]
        events_grow_trans by blast
    then show ?thesis by (simp add: events_grow_def events_of_def)
  qed
  moreover have "report_ok cs0 (ns_contracts ?st) ?b" if "report_ok cs0 (ns_contracts st) b" for cs0
  proof -
    have "report_ok cs0 (ns_contracts st) b1"
      using that b1(2) report_ok_cong [of b1 b] by (simp add: block_report_def push_event_def)
    then have "report_ok cs0 (ns_contracts st2) b2"
      using apply_changes_report [OF _ ac otm dist] entry by blast
    then show ?thesis
      using report_ok_cong [of ?b b2] block_frameD [OF fr3] by (simp add: block_report_def)
  qed
  moreover have "on_settled_success E bth tx r st b n = Some (?st, ?b, bs_extend forced n2)"
    using note1 ac nk by (simp add: on_settled_success_def Let_def)
  ultimately show ?thesis
    using get hs2
    by (intro exI [of _ ?st] exI [of _ ?b] exI [of _ "bs_extend forced n2"] conjI) simp_all
qed

abbreviation is_settle_event :: "TransactionStateEvent \<Rightarrow> bool" where
  "is_settle_event ev \<equiv> (\<exists>e. ev = SettleEvent e)"

lemma settle_blobs_events:
  "\<exists>es. snd (settle_blobs_recursively E contracts ch bs indices events) = events @ es \<and> list_all is_settle_event es"
  and try_proofs_events:
  "\<exists>es. snd (try_proofs E contracts ch b bs indices i ps events) = events @ es \<and> list_all is_settle_event es"
proof (induction E contracts ch bs indices events and E contracts ch b bs indices i ps events
    rule: settle_blobs_recursively_try_proofs.induct)
  case (2 E contracts ch b bs indices events)
  then show ?case by (auto split: sum.split)
next
  case (4 E contracts ch b bs indices i p ps events)
  show ?case
  proof (cases "process_proof E contracts ch (b_contract_name (um_blob b)) p b")
    case (Inl e)
    with 4(1) show ?thesis by fastforce
  next
    case (Inr ch')
    obtain r ev where r: "settle_blobs_recursively E contracts ch' bs (indices @ [i]) events = (r, ev)"
      by force
    show ?thesis
    proof (cases "ho_success (snd p)")
      case True
      then obtain es where es: "ev = events @ es" "list_all is_settle_event es"
        using 4(2) [OF Inr] r by auto
      show ?thesis
      proof (cases r)
        case None
        obtain es' where "snd (try_proofs E contracts ch b bs indices (Suc i) ps ev) = ev @ es'"
            "list_all is_settle_event es'"
          using 4(3) [OF Inr _ r [symmetric] None] True by auto
        with es show ?thesis using Inr True r None by simp
      qed (use es Inr True r in simp)
    qed (use Inr in simp)
  qed
qed auto

lemma try_to_settle_events:
  assumes "try_to_settle_blob_tx E st h ev dp lane = (st', ev', dp', lane', res)"
  shows "\<exists>es. ev' = ev @ es \<and> list_all is_settle_event es"
  using assms settle_blobs_events [of E "ns_contracts st" "[]" _ "[]" ev]
  by (auto simp: try_to_settle_blob_tx_def Let_def split: option.splits if_splits prod.splits) (metis snd_conv)+

text \<open>The changes of a successful settlement satisfy the invariants of pending changes.\<close>

lemma try_to_settle_Ok:
  assumes "try_to_settle_blob_tx E st h ev dp lane = (st', ev', dp', lane', Ok out)"
    and "contracts_inv (ns_contracts st)" and "so_result out = Ok r"
  shows "changes_inv (sr_contract_changes r)" "changes_flags (ns_contracts st) (sr_contract_changes r)"
    and "is_next_to_settle E (ns_unsettled_transactions st) h"
    and "\<exists>is. replay E (ns_contracts st) [] (map snd (ut_blobs (so_tx out))) is = Some (sr_contract_changes r)"
proof -
  obtain tx where tx: "otm_get (ns_unsettled_transactions st) h = Some tx"
    using assms(1) by (auto simp: try_to_settle_blob_tx_def split: option.splits)
  obtain events' where "settle_blobs_recursively E (ns_contracts st) [] (map snd (ut_blobs tx)) [] ev = (Some (Ok r), events')"
      and next_tx: "is_next_to_settle E (ns_unsettled_transactions st) h" and out: "so_tx out = tx"
    using assms(1,3) tx
    by (auto simp: try_to_settle_blob_tx_def Let_def ok_simps split: option.splits if_splits prod.splits)
  then obtain "is" where re: "replay E (ns_contracts st) [] (map snd (ut_blobs tx)) is = Some (sr_contract_changes r)"
    using settle_Ok_iff [of E "ns_contracts st" "[]" "map snd (ut_blobs tx)" "[]" ev r] by auto
  show "changes_inv (sr_contract_changes r)" "changes_flags (ns_contracts st) (sr_contract_changes r)"
    using replay_inv [OF assms(2) _ re] replay_flags [OF assms(2) _ _ re] by simp_all
  show "is_next_to_settle E (ns_unsettled_transactions st) h" by (rule next_tx)
  show "\<exists>is. replay E (ns_contracts st) [] (map snd (ut_blobs (so_tx out))) is = Some (sr_contract_changes r)"
    using re out by blast
qed

end
