(* ===== verification/Node_State_Blocks.thy ===== *)
theory Node_State_Blocks
  imports Node_State_Proofs
begin

text \<open>
  Properties of whole blocks. A round of settlement keeps the invariant of the store and
  returns. The traversal of a block is proved once, in the locale \<open>block_invariant\<close>, for every
  predicate on the store and the block under construction that the elementary steps
  keep; its interpretations give the properties of blocks.
\<close>

subsection \<open>One round of settlement\<close>

text \<open>
  The three ways a round ends: the transaction stays unsettled, it settles as failed, or it
  settles as a success.
\<close>

definition round_unsettled :: "NodeStateStore \<Rightarrow> Block \<Rightarrow> NodeStateStore \<Rightarrow> Block \<Rightarrow> bool" where
  "round_unsettled st b st' b' \<longleftrightarrow>
     st' = st \<and> block_lists b' = block_lists b \<and> block_report b' = block_report b \<and>
     events_grow is_settle_event b b'"

definition round_failed :: "TxHash \<Rightarrow> NodeStateStore \<Rightarrow> Block \<Rightarrow> NodeStateStore \<Rightarrow> Block \<Rightarrow> bool" where
  "round_failed h st b st' b' \<longleftrightarrow>
     ns_contracts st' = ns_contracts st \<and> block_report b' = block_report b \<and>
     block_lists b' = (bk_successful_txs b, bk_failed_txs b @ [h], bk_dropped_duplicate_txs b) \<and>
     (\<exists>b1. events_grow is_settle_event b b1 \<and> (\<forall>k. events_of b' k = events_of (push_event h SettledAsFailed b1) k))"

definition round_success :: "TxHash \<Rightarrow> NodeStateStore \<Rightarrow> Block \<Rightarrow> NodeStateStore \<Rightarrow> Block \<Rightarrow> bool" where
  "round_success h st b st' b' \<longleftrightarrow>
     block_lists b' = (bk_successful_txs b @ [h], bk_failed_txs b, bk_dropped_duplicate_txs b) \<and>
     (\<forall>cs0. report_ok cs0 (ns_contracts st) b \<longrightarrow> report_ok cs0 (ns_contracts st') b') \<and>
     (\<exists>b1. events_grow is_settle_event b b1 \<and> events_grow is_side_event (push_event h Settled b1) b')"

lemma settle_round_total:
  assumes inv: "node_inv E st"
  shows "\<exists>st' b' r. settle_round E st b h = Some (st', b', r) \<and> node_inv E st' \<and>
    ns_current_height st' = ns_current_height st \<and>
    (round_unsettled st b st' b' \<or> round_failed h st b st' b' \<or> round_success h st b st' b')"
proof -
  let ?t = "try_to_settle_blob_tx E st h
    (case map_of (bk_transactions_events b) h of Some v \<Rightarrow> v | None \<Rightarrow> [])
    (case map_of (bk_dp_parent_hashes b) h of Some v \<Rightarrow> v | None \<Rightarrow> [])
    (case map_of (bk_lane_ids b) h of Some v \<Rightarrow> v | None \<Rightarrow> [])"
  obtain st1 ev dp lane res where t: "?t = (st1, ev, dp, lane, res)"
    by (cases ?t) auto
  let ?b1 = "record_origin h dp lane (b\<lparr>bk_transactions_events := bt_insert h ev (bk_transactions_events b)\<rparr>)"
  obtain es where es: "ev = events_of b h @ es" "list_all is_settle_event es"
    using try_to_settle_events [OF t] by (auto simp: events_of_def split: option.splits)
  have grow1: "events_grow is_settle_event b ?b1"
    unfolding events_grow_def
  proof
    fix k
    show "\<exists>ts. events_of ?b1 k = events_of b k @ ts \<and> list_all is_settle_event ts"
      using es by (intro exI [of _ "if k = h then es else []"]) simp
  qed
  have frame1: "block_lists ?b1 = block_lists b" "block_report ?b1 = block_report b"
    by (simp_all add: block_lists_def block_report_def record_origin_def)
  show ?thesis
  proof (cases res)
    case (Inl e)
    then have "st1 = st" using try_to_settle_cases [OF t] by simp
    moreover have "settle_round E st b h = Some (st1, push_event h (SettleEvent (FailedToSettle e)) ?b1, None)"
      using t Inl by (simp add: settle_round_def Let_def)
    moreover have "events_grow is_settle_event b (push_event h (SettleEvent (FailedToSettle e)) ?b1)"
      by (rule events_grow_trans [OF grow1 events_grow_push]) simp
    moreover have "block_lists (push_event h (SettleEvent (FailedToSettle e)) ?b1) = block_lists b"
        "block_report (push_event h (SettleEvent (FailedToSettle e)) ?b1) = block_report b"
      using frame1 by (simp_all add: block_lists_def block_report_def push_event_def)
    ultimately show ?thesis using inv unfolding round_unsettled_def by simp
  next
    case (Inr out)
    have st1: "st1 = st\<lparr>ns_unsettled_transactions := fst (otm_remove E (ns_unsettled_transactions st) h)\<rparr>"
      using try_to_settle_cases [OF t] Inr by auto
    then have inv1: "node_inv E st1" using inv by (simp add: node_inv_def otm_inv_remove)
    have round: "settle_round E st b h = map_option (\<lambda>(st2, b2, txs). (st2, b2, Some txs))
        (on_settled_blob_tx E h (so_tx out) (so_result out) st1 ?b1)"
      using t Inr by (simp add: settle_round_def Let_def)
    show ?thesis
    proof (cases "so_result out")
      case (Inl u)
      let ?b2 = "(push_event h SettledAsFailed ?b1)\<lparr>bk_failed_txs := bk_failed_txs ?b1 @ [h]\<rparr>"
      have "\<forall>k. events_of ?b2 k = events_of (push_event h SettledAsFailed ?b1) k"
        by (simp add: events_of_def)
      moreover have "block_lists ?b2 = (bk_successful_txs b, bk_failed_txs b @ [h], bk_dropped_duplicate_txs b)"
          "block_report ?b2 = block_report b"
        using frame1 by (simp_all add: block_lists_def block_report_def push_event_def)
      moreover have "ns_contracts st1 = ns_contracts st" using st1 by simp
      ultimately have "round_failed h st b st1 ?b2"
        using grow1 unfolding round_failed_def by blast
      then show ?thesis
        using round inv1 Inl st1 by (simp add: on_settled_blob_tx_def Let_def)
    next
      case ok: (Inr r)
      have cs: "ns_contracts st1 = ns_contracts st" using st1 by simp
      have ch: "changes_inv (sr_contract_changes r)" "changes_flags (ns_contracts st1) (sr_contract_changes r)"
        using try_to_settle_Ok [OF t [unfolded Inr] _ ok] inv by (simp_all add: node_inv_def cs)
      obtain st2 b2 n where s: "on_settled_success E h (so_tx out) r st1 ?b1
            (get_next_txs_blocked_by_tx E (ns_unsettled_transactions st1) (so_tx out)) = Some (st2, b2, n)"
          and inv2: "node_inv E st2" and hs: "ns_current_height st2 = ns_current_height st1"
          and bl: "block_lists b2 = (bk_successful_txs ?b1 @ [h], bk_failed_txs ?b1, bk_dropped_duplicate_txs ?b1)"
          and ev: "events_grow is_side_event (push_event h Settled ?b1) b2"
          and rep: "\<forall>cs0. report_ok cs0 (ns_contracts st1) ?b1 \<longrightarrow> report_ok cs0 (ns_contracts st2) b2"
        using on_settled_success_total [OF inv1 ch] by blast
      have "block_lists b2 = (bk_successful_txs b @ [h], bk_failed_txs b, bk_dropped_duplicate_txs b)"
        using bl by (simp add: record_origin_def)
      moreover have "\<forall>cs0. report_ok cs0 (ns_contracts st) b \<longrightarrow> report_ok cs0 (ns_contracts st2) b2"
        using rep report_ok_cong [OF frame1(2)] by (simp add: cs)
      ultimately have "round_success h st b st2 b2"
        using grow1 ev unfolding round_success_def by blast
      then show ?thesis
        using round s inv2 ok hs st1 by (simp add: on_settled_blob_tx_def Let_def)
    qed
  qed
qed

subsection \<open>The traversal of a block\<close>

definition accepts_height :: "NodeStateStore \<Rightarrow> SignedBlock \<Rightarrow> bool" where
  "accepts_height st sb \<longleftrightarrow>
     ns_current_height st + 1 = SignedBlock_height sb \<or> ns_current_height st = 0 \<and> SignedBlock_height sb = 0"

locale block_invariant =
  fixes E :: Env and P :: "NodeStateStore \<Rightarrow> Block \<Rightarrow> bool"
  assumes inv: "P st b \<Longrightarrow> otm_inv E (ns_unsettled_transactions st)"
    and round: "P st b \<Longrightarrow> \<exists>st' b' r. settle_round E st b h = Some (st', b', r) \<and> P st' b'"
    and timeouts: "P st b \<Longrightarrow> P (st\<lparr>ns_timeouts := t\<rparr>) b"
    and blob_tx: "P st b \<Longrightarrow> handle_blob_tx E st dp tx ctx = Ok (st', r) \<Longrightarrow> P st' b"
    and blob_proof: "P st b \<Longrightarrow> handle_blob_proof E st h p b = (st', b', res) \<Longrightarrow> P st' b'"
    and expire: "P st b \<Longrightarrow> otm_remove E (ns_unsettled_transactions st) h = (m, Some utx) \<Longrightarrow>
      P (st\<lparr>ns_unsettled_transactions := m\<rparr>) (push_event (ut_hash utx) TimedOut b)"
    and origin: "P st b \<Longrightarrow> P st (record_origin h dp lane b)"
    and sequenced: "P st b \<Longrightarrow> P st (push_event h Sequenced b)"
    and duplicate: "P st b \<Longrightarrow> P st (push_event (snd i) DroppedAsDuplicate
      (b\<lparr>bk_dropped_duplicate_txs := bk_dropped_duplicate_txs b @ [i]\<rparr>))"
    and failed: "P st b \<Longrightarrow> P st ((push_event h (EvError (FailedBlobTx e)) b)
      \<lparr>bk_failed_txs := bk_failed_txs b @ [h]\<rparr>)"
    and proof_failed: "P st b \<Longrightarrow> P st (push_event h (EvError (FailedProofBlob j i e)) b)"
    and add_tx: "P st b \<Longrightarrow> P st (b\<lparr>bk_txs := ts\<rparr>)"
    and timed_out: "P st b \<Longrightarrow> P st (b\<lparr>bk_timed_out_txs := hs\<rparr>)"
begin

lemma until_done:
  assumes "P st b"
  shows "\<exists>st' b' u'. settle_txs_until_done E st b todo u = Some (st', b', u') \<and> P st' b'"
proof -
  have "E' = E \<Longrightarrow> P st b \<Longrightarrow> \<exists>st' b' u'. settle_txs_until_done E' st b todo u = Some (st', b', u') \<and> P st' b'" for E'
  proof (induction E' st b todo u rule: settle_txs_until_done.induct)
    case (2 E' st b h todo u)
    obtain st1 b1 r where r: "settle_round E' st b h = Some (st1, b1, r)" and p: "P st1 b1"
      using round [OF 2(4)] 2(3) by blast
    show ?case
    proof (cases r)
      case None
      then show ?thesis using 2(1) [OF r refl refl None 2(3) p] r by simp
    next
      case (Some txs)
      then show ?thesis using 2(2) [OF r refl refl Some 2(3) p] r by simp
    qed
  qed simp
  with assms show ?thesis by blast
qed

lemma set_one_timeout: "P st b \<Longrightarrow> P (set_timeout st h w) b"
  by (cases w) (simp_all add: set_timeout_def timeouts)

lemma next_timeouts: "P st b \<Longrightarrow> \<exists>st'. set_next_timeouts E hs st = Some st' \<and> P st' b"
proof (induction hs arbitrary: st)
  case (Cons h hs)
  show ?case
  proof (cases "is_next_to_settle E (ns_unsettled_transactions st) h")
    case True
    then obtain tx where "otm_get (ns_unsettled_transactions st) h = Some tx"
      by (auto simp: is_next_to_settle_def otm_get_def split: option.splits)
    with True Cons show ?thesis by (simp add: set_one_timeout)
  qed (use Cons in simp)
qed simp

lemma settle_and_set: "P st b \<Longrightarrow> \<exists>st' b'. settle_and_set_timeouts E st b txs = Some (st', b') \<and> P st' b'"
  using until_done [of st b txs "[]"] next_timeouts by (fastforce simp: settle_and_set_timeouts_def)

lemma time_out: "P st b \<Longrightarrow> \<exists>st' b' kept. time_out_txs E hs st b = Some (st', b', kept) \<and> P st' b'"
proof (induction hs arbitrary: st b)
  case (Cons h hs)
  obtain m t where rem: "otm_remove E (ns_unsettled_transactions st) h = (m, t)" by force
  show ?case
  proof (cases t)
    case None
    with rem Cons show ?thesis by simp
  next
    case (Some tx)
    let ?b = "record_origin (ut_hash tx) (ut_parent_dp_hash tx) (tc_lane_id (ut_tx_context tx))
      (push_event (ut_hash tx) TimedOut b)"
    obtain st1 b1 where s: "settle_and_set_timeouts E (st\<lparr>ns_unsettled_transactions := m\<rparr>) ?b
        (get_next_txs_blocked_by_tx E m tx) = Some (st1, b1)" and p: "P st1 b1"
      using settle_and_set [OF origin [OF expire [OF Cons.prems rem [unfolded Some]]]] by blast
    obtain st2 b2 kept where "time_out_txs E hs st1 b1 = Some (st2, b2, kept)" "P st2 b2"
      using Cons.IH [OF p] by blast
    then show ?thesis using rem Some s by simp
  qed
qed simp

lemma clear: "P st b \<Longrightarrow> \<exists>st' b'. clear_timeouts E st b = Some (st', b') \<and> P st' b'"
  using time_out [OF timeouts [of st b "fst (timeouts_drop (ns_timeouts st) (bk_block_height b))"],
      of "snd (timeouts_drop (ns_timeouts st) (bk_block_height b))"]
  by (auto simp: clear_timeouts_def timed_out split: prod.split)

lemma block_blob_tx:
  assumes "P st b"
  shows "\<exists>st' b'. handle_block_blob_tx E ts lane i tx st b = Some (st', b') \<and> P st' b'"
proof -
  let ?ctx = "\<lparr>tc_lane_id = lane, tc_block_hash = bk_hash b, tc_block_height = bk_block_height b,
    tc_timestamp = ts, tc_chain_id = HYLE_TESTNET_CHAIN_ID\<rparr>"
  show ?thesis
  proof (cases "handle_blob_tx E st (fst i) tx ?ctx")
    case (Inl e)
    then show ?thesis using failed [OF assms, of "snd i" e] by (simp add: handle_block_blob_tx_def)
  next
    case (Inr r)
    obtain st1 how where r: "r = (st1, how)" by force
    then have p: "P st1 b" using blob_tx [OF assms] Inr by blast
    show ?thesis
      using Inr r settle_and_set [OF p] duplicate [OF p, of i] sequenced [OF p, of "snd i"]
      by (cases how) (simp_all add: handle_block_blob_tx_def)
  qed
qed

lemma proven_blobs:
  assumes "P st b"
  shows "\<exists>st' b' todo. fold (handle_proven_blob E i) ps (st, b, s) = (st', b', todo) \<and> P st' b'"
  using assms
proof (induction ps arbitrary: st b s)
  case (Cons p ps)
  obtain st1 b1 r where h: "handle_blob_proof E st (snd i) p b = (st1, b1, r)"
    by (cases "handle_blob_proof E st (snd i) p b") auto
  have p1: "P st1 b1" using blob_proof [OF Cons.prems h] .
  have "\<exists>b2 s2. handle_proven_blob E i p (st, b, s) = (st1, b2, s2) \<and> P st1 b2"
    using h p1 proof_failed [OF p1]
    by (cases r) (auto simp: handle_proven_blob_def split: option.splits)
  with Cons.IH show ?case by fastforce
qed simp

lemma block_tx:
  assumes "P st b"
  shows "\<exists>st' b'. handle_block_tx E ts e st b = Some (st', b') \<and> P st' b'"
proof -
  obtain lane i tx where e: "e = (lane, i, tx)" by (cases e)
  have p: "P st (record_origin (snd i) (fst i) lane b)" using origin [OF assms] .
  show ?thesis
  proof (cases "tx_transaction_data tx")
    case (TD_Blob t)
    then show ?thesis
      using block_blob_tx [OF p, of ts lane i t] add_tx by (auto simp: handle_block_tx_def e)
  next
    case (TD_Proof t)
    then show ?thesis using add_tx [OF p] by (simp add: handle_block_tx_def e Let_def)
  next
    case (TD_VerifiedProof t)
    obtain st2 b2 todo where "fold (handle_proven_blob E i) (vp_proven_blobs t)
        (st, record_origin (snd i) (fst i) lane b, []) = (st2, b2, todo)" "P st2 b2"
      using proven_blobs [OF p] by blast
    then show ?thesis
      using TD_VerifiedProof settle_and_set [of st2 b2 todo] add_tx by (auto simp: handle_block_tx_def e)
  qed
qed

lemma block_txs: "P st b \<Longrightarrow> \<exists>st' b'. handle_block_txs E ts es st b = Some (st', b') \<and> P st' b'"
proof (induction es arbitrary: st b)
  case (Cons e es)
  then show ?case using block_tx [of st b ts e] by fastforce
qed simp

theorem block_invariant_holds:
  assumes "accepts_height st sb"
    and "P (st\<lparr>ns_current_height := SignedBlock_height sb\<rparr>) (initial_block E sb)"
  shows "\<exists>st' b'. handle_signed_block E st sb = Some (Ok (st', b')) \<and> P st' b'"
proof -
  obtain st1 b1 where c: "clear_timeouts E (st\<lparr>ns_current_height := SignedBlock_height sb\<rparr>) (initial_block E sb) = Some (st1, b1)"
      and p: "P st1 b1"
    using clear [OF assms(2)] by blast
  obtain st2 b2 where "handle_block_txs E (cp_timestamp (sk_consensus_proposal sb)) (iter_txs_with_id E sb) st1 b1 = Some (st2, b2)"
      "P st2 b2"
    using block_txs [OF p] by blast
  with c assms(1) show ?thesis
    by (auto simp: handle_signed_block_def Let_def accepts_height_def)
qed

end

subsection \<open>The elementary steps keep the invariant\<close>

lemma set_timeout_simps [simp]:
  "ns_contracts (set_timeout st h w) = ns_contracts st"
  "ns_current_height (set_timeout st h w) = ns_current_height st"
  "ns_unsettled_transactions (set_timeout st h w) = ns_unsettled_transactions st"
  by (simp_all add: set_timeout_def split: TimeoutWindow.split)

lemma handle_blob_tx_Ok:
  assumes "handle_blob_tx E st dp tx ctx = Ok (st', r)"
  shows "ns_contracts st' = ns_contracts st" and "ns_current_height st' = ns_current_height st"
    and "\<exists>utx. ns_unsettled_transactions st' = fst (otm_add E (ns_unsettled_transactions st) utx)"
proof -
  let ?blobs = "unsettled_blobs E (ns_contracts st) (BlobTransaction_hashed E tx) (btx_blobs tx)"
  let ?utx = "\<lparr>ut_identity = btx_identity tx, ut_parent_dp_hash = dp, ut_hash = BlobTransaction_hashed E tx,
    ut_tx_context = ctx, ut_blobs_hash = blobs_hash E tx, ut_blobs = fst ?blobs\<rparr>"
  obtain m added where add: "otm_add E (ns_unsettled_transactions st) ?utx = (m, added)" by force
  have "ns_contracts st' = ns_contracts st \<and> ns_current_height st' = ns_current_height st \<and>
      ns_unsettled_transactions st' = m"
    using assms add
    by (auto simp: handle_blob_tx_def Let_def split: sum.split_asm if_split_asm option.split_asm prod.split_asm)
  then show "ns_contracts st' = ns_contracts st" and "ns_current_height st' = ns_current_height st"
    and "\<exists>utx. ns_unsettled_transactions st' = fst (otm_add E (ns_unsettled_transactions st) utx)"
    using add by (auto intro!: exI [of _ ?utx])
qed

lemma handle_blob_tx_inv:
  "node_inv E st \<Longrightarrow> handle_blob_tx E st dp tx ctx = Ok (st', r) \<Longrightarrow> node_inv E st'"
  using handle_blob_tx_Ok [of E st dp tx ctx st' r] by (auto simp: node_inv_def otm_inv_add)

lemma handle_blob_proof_cases:
  assumes "handle_blob_proof E st h p b = (st', b', r)"
  obtains (missing) "st' = st" "b' = b"
    | (rejected) utx :: UnsettledBlobTransaction where "st' = st"
        "b' = record_origin (ut_hash utx) (ut_parent_dp_hash utx) (tc_lane_id (ut_tx_context utx)) b"
    | (saved) utx :: UnsettledBlobTransaction and md :: UnsettledBlobMetadata and hb where "otm_get (ns_unsettled_transactions st) (bp_blob_tx_hash p) = Some utx"
        "map_of (ut_blobs utx) (ho_index (bp_hyle_output p)) = Some md"
        "st' = st\<lparr>ns_unsettled_transactions := otm_set (ns_unsettled_transactions st) (bp_blob_tx_hash p)
          (utx\<lparr>ut_blobs := bt_insert (ho_index (bp_hyle_output p))
            (md\<lparr>um_possible_proofs := um_possible_proofs md @ [(bp_program_id p, bp_hyle_output p)]\<rparr>) (ut_blobs utx)\<rparr>)\<rparr>"
        "b' = (push_event (bp_blob_tx_hash p)
          (NewProof (ho_index (bp_hyle_output p)) h (ho_program_outputs (bp_hyle_output p)))
          (record_origin (ut_hash utx) (ut_parent_dp_hash utx) (tc_lane_id (ut_tx_context utx)) b))
          \<lparr>bk_blob_proof_outputs := hb\<rparr>"
proof (cases "otm_get (ns_unsettled_transactions st) (bp_blob_tx_hash p)")
  case None
  then show thesis using assms missing by (simp add: handle_blob_proof_def Let_def get_for_settlement_eq)
next
  case tx: (Some utx)
  show thesis
  proof (cases "verify_hyle_output E utx (bp_hyle_output p)")
    case (Inl e)
    then show thesis using assms tx rejected [of utx]
      by (simp add: handle_blob_proof_def Let_def get_for_settlement_eq)
  next
    case ok: (Inr u)
    show thesis
    proof (cases "map_of (ut_blobs utx) (ho_index (bp_hyle_output p))")
      case None
      then show thesis using assms tx ok rejected [of utx]
        by (simp add: handle_blob_proof_def Let_def get_for_settlement_eq)
    next
      case (Some md)
      then show thesis using assms tx ok saved [of utx md]
        by (auto simp: handle_blob_proof_def Let_def get_for_settlement_eq)
    qed
  qed
qed

lemma block_lists_simps [simp]:
  "block_lists (push_event h ev b) = block_lists b"
  "block_lists (record_origin h dp lane b) = block_lists b"
  "block_lists (b\<lparr>bk_blob_proof_outputs := hb\<rparr>) = block_lists b"
  "block_lists (b\<lparr>bk_txs := ts\<rparr>) = block_lists b"
  "block_lists (b\<lparr>bk_timed_out_txs := hs\<rparr>) = block_lists b"
  by (simp_all add: block_lists_def push_event_def record_origin_def)

lemma block_report_simps [simp]:
  "block_report (push_event h ev b) = block_report b"
  "block_report (record_origin h dp lane b) = block_report b"
  "block_report (b\<lparr>bk_blob_proof_outputs := hb\<rparr>) = block_report b"
  "block_report (b\<lparr>bk_txs := ts\<rparr>) = block_report b"
  "block_report (b\<lparr>bk_timed_out_txs := hs\<rparr>) = block_report b"
  "block_report (b\<lparr>bk_failed_txs := hs\<rparr>) = block_report b"
  "block_report (b\<lparr>bk_dropped_duplicate_txs := ds\<rparr>) = block_report b"
  by (simp_all add: block_report_def push_event_def record_origin_def)

lemma events_of_update_simps [simp]:
  "events_of (b\<lparr>bk_blob_proof_outputs := hb\<rparr>) k = events_of b k"
  "events_of (b\<lparr>bk_txs := ts\<rparr>) k = events_of b k"
  "events_of (b\<lparr>bk_timed_out_txs := hs\<rparr>) k = events_of b k"
  "events_of (b\<lparr>bk_failed_txs := hs\<rparr>) k = events_of b k"
  "events_of (b\<lparr>bk_dropped_duplicate_txs := ds\<rparr>) k = events_of b k"
  by (simp_all add: events_of_def)

lemma handle_blob_proof_keeps:
  assumes "handle_blob_proof E st h p b = (st', b', r)"
  shows "ns_contracts st' = ns_contracts st" and "block_lists b' = block_lists b"
    and "block_report b' = block_report b" and "events_grow is_new_proof b b'"
    and "node_inv E st \<Longrightarrow> node_inv E st'" and "ns_current_height st' = ns_current_height st"
proof -
  have "ns_contracts st' = ns_contracts st \<and> block_lists b' = block_lists b \<and>
    block_report b' = block_report b \<and> events_grow is_new_proof b b' \<and> (node_inv E st \<longrightarrow> node_inv E st') \<and>
    ns_current_height st' = ns_current_height st"
    using assms
  proof (cases rule: handle_blob_proof_cases)
    case (saved utx md hb)
    have "events_grow is_new_proof b b'"
      unfolding saved(4) events_grow_def
    proof
      fix k
      show "\<exists>ts. events_of ((push_event (bp_blob_tx_hash p)
          (NewProof (ho_index (bp_hyle_output p)) h (ho_program_outputs (bp_hyle_output p)))
          (record_origin (ut_hash utx) (ut_parent_dp_hash utx) (tc_lane_id (ut_tx_context utx)) b))
          \<lparr>bk_blob_proof_outputs := hb\<rparr>) k = events_of b k @ ts \<and> list_all is_new_proof ts"
        by (simp del: events_of_simps(3))
    qed
    moreover have "node_inv E st \<longrightarrow> node_inv E st'"
      using otm_inv_add_proof [OF _ saved(1,2)] saved(3) by (simp add: node_inv_def)
    ultimately show ?thesis using saved(3,4) by simp
  next
    case (rejected utx)
    then show ?thesis by (simp add: events_grow_same)
  qed (simp add: events_grow_same)
  then show "ns_contracts st' = ns_contracts st" and "block_lists b' = block_lists b"
    and "block_report b' = block_report b" and "events_grow is_new_proof b b'"
    and "node_inv E st \<Longrightarrow> node_inv E st'" and "ns_current_height st' = ns_current_height st"
    by simp_all
qed

text \<open>The invariant holds throughout a block, and the height stays the one of the block.\<close>

interpretation ni: block_invariant E "\<lambda>st b. node_inv E st \<and> ns_current_height st = height" for E height
proof unfold_locales
  fix st b h
  assume "node_inv E st \<and> ns_current_height st = height"
  then show "\<exists>st' b' r. settle_round E st b h = Some (st', b', r) \<and> node_inv E st' \<and> ns_current_height st' = height"
    using settle_round_total [of E st b h] by blast
next
  fix st h m utx
  assume "node_inv E st \<and> ns_current_height st = height"
    "otm_remove E (ns_unsettled_transactions st) h = (m, Some utx)"
  then show "node_inv E (st\<lparr>ns_unsettled_transactions := m\<rparr>) \<and>
      ns_current_height (st\<lparr>ns_unsettled_transactions := m\<rparr>) = height"
    using otm_inv_remove [of E "ns_unsettled_transactions st" h] by (simp add: node_inv_def)
next
  fix st st' dp tx ctx r
  assume "node_inv E st \<and> ns_current_height st = height" "handle_blob_tx E st dp tx ctx = Ok (st', r)"
  then show "node_inv E st' \<and> ns_current_height st' = height"
    using handle_blob_tx_inv handle_blob_tx_Ok(2) by metis
next
  fix st st' b b' h p r
  assume "node_inv E st \<and> ns_current_height st = height" "handle_blob_proof E st h p b = (st', b', r)"
  then show "node_inv E st' \<and> ns_current_height st' = height"
    using handle_blob_proof_keeps(5,6) by metis
qed (simp_all add: node_inv_def)

subsection \<open>Properties of what a block reports\<close>

text \<open>
  A predicate on the contracts and the block that survives the three ways a round ends and
  the two entries made for transactions that are not sequenced. Events that say nothing
  on the fate of a transaction must not matter.
\<close>

definition neutral_event :: "TransactionStateEvent \<Rightarrow> bool" where
  "neutral_event ev \<longleftrightarrow> ev \<noteq> Settled \<and> ev \<noteq> SettledAsFailed \<and> ev \<noteq> DroppedAsDuplicate \<and>
     (\<forall>e. ev \<noteq> EvError (FailedBlobTx e))"

locale block_property =
  fixes E :: Env and Q :: "Contracts \<Rightarrow> Block \<Rightarrow> bool"
  assumes neutral: "Q cs b \<Longrightarrow> block_lists b' = block_lists b \<Longrightarrow> block_report b' = block_report b \<Longrightarrow>
      events_grow neutral_event b b' \<Longrightarrow> Q cs b'"
    and settled_failed: "Q (ns_contracts st) b \<Longrightarrow> round_failed h st b st' b' \<Longrightarrow> Q (ns_contracts st') b'"
    and settled_success: "Q (ns_contracts st) b \<Longrightarrow> round_success h st b st' b' \<Longrightarrow> Q (ns_contracts st') b'"
    and dropped: "Q cs b \<Longrightarrow> Q cs (push_event (snd i) DroppedAsDuplicate
      (b\<lparr>bk_dropped_duplicate_txs := bk_dropped_duplicate_txs b @ [i]\<rparr>))"
    and refused: "Q cs b \<Longrightarrow> Q cs ((push_event h (EvError (FailedBlobTx e)) b)\<lparr>bk_failed_txs := bk_failed_txs b @ [h]\<rparr>)"
begin

lemma neutral_push: "Q cs b \<Longrightarrow> neutral_event ev \<Longrightarrow> Q cs (push_event h ev b)"
  by (erule neutral) (simp_all add: events_grow_push)

lemma round_keeps:
  assumes "node_inv E st" "Q (ns_contracts st) b"
  shows "\<exists>st' b' r. settle_round E st b h = Some (st', b', r) \<and> node_inv E st' \<and> Q (ns_contracts st') b'"
proof -
  obtain st' b' r where r: "settle_round E st b h = Some (st', b', r)" "node_inv E st'"
    and cases: "round_unsettled st b st' b' \<or> round_failed h st b st' b' \<or> round_success h st b st' b'"
    using settle_round_total [OF assms(1)] by blast
  have "Q (ns_contracts st') b'" if "round_unsettled st b st' b'"
    using that neutral [OF assms(2)] events_grow_mono [of is_settle_event b b' neutral_event]
    by (auto simp: round_unsettled_def neutral_event_def)
  with cases settled_failed [OF assms(2)] settled_success [OF assms(2)] have "Q (ns_contracts st') b'" by blast
  with r show ?thesis by blast
qed

end

sublocale block_property \<subseteq> bi: block_invariant E "\<lambda>st b. node_inv E st \<and> Q (ns_contracts st) b"
proof unfold_locales
  fix st st' b b' h p r
  assume a: "node_inv E st \<and> Q (ns_contracts st) b" "handle_blob_proof E st h p b = (st', b', r)"
  note k = handle_blob_proof_keeps [OF a(2)]
  have "events_grow neutral_event b b'"
    by (rule events_grow_mono [OF k(4)]) (auto simp: neutral_event_def)
  then show "node_inv E st' \<and> Q (ns_contracts st') b'"
    using a k(1,5) neutral [OF _ k(2,3)] by simp
next
  fix st b h m utx
  assume "node_inv E st \<and> Q (ns_contracts st) b" "otm_remove E (ns_unsettled_transactions st) h = (m, Some utx)"
  then show "node_inv E (st\<lparr>ns_unsettled_transactions := m\<rparr>) \<and>
      Q (ns_contracts (st\<lparr>ns_unsettled_transactions := m\<rparr>)) (push_event (ut_hash utx) TimedOut b)"
    using ni.expire [of E st "ns_current_height st"] neutral_push by (simp add: neutral_event_def)
next
  fix st st' b dp tx ctx r
  assume "node_inv E st \<and> Q (ns_contracts st) b" "handle_blob_tx E st dp tx ctx = Ok (st', r)"
  then show "node_inv E st' \<and> Q (ns_contracts st') b"
    using handle_blob_tx_inv handle_blob_tx_Ok(1) by metis
next
  fix st b h j i e
  assume "node_inv E st \<and> Q (ns_contracts st) b"
  then show "node_inv E st \<and> Q (ns_contracts st) (push_event h (EvError (FailedProofBlob j i e)) b)"
    and "node_inv E st \<and> Q (ns_contracts st) (push_event h Sequenced b)"
    using neutral_push by (simp_all add: neutral_event_def)
next
  fix st b h dp lane ts hs
  assume a: "node_inv E st \<and> Q (ns_contracts st) b"
  show "node_inv E st \<and> Q (ns_contracts st) (record_origin h dp lane b)"
    and "node_inv E st \<and> Q (ns_contracts st) (b\<lparr>bk_txs := ts\<rparr>)"
    and "node_inv E st \<and> Q (ns_contracts st) (b\<lparr>bk_timed_out_txs := hs\<rparr>)"
    using a neutral [of _ b] by (simp_all add: events_grow_same)
qed (use round_keeps dropped refused in \<open>auto simp: node_inv_def\<close>)

text \<open>The lists of a block and the events of its transactions tell the same.\<close>

definition lists_match_events :: "Block \<Rightarrow> bool" where
  "lists_match_events b \<longleftrightarrow> (\<forall>h.
     (h \<in> set (bk_successful_txs b) \<longleftrightarrow> Settled \<in> set (events_of b h)) \<and>
     (h \<in> set (bk_failed_txs b) \<longleftrightarrow>
        SettledAsFailed \<in> set (events_of b h) \<or> (\<exists>e. EvError (FailedBlobTx e) \<in> set (events_of b h))) \<and>
     (h \<in> snd ` set (bk_dropped_duplicate_txs b) \<longleftrightarrow> DroppedAsDuplicate \<in> set (events_of b h)))"

lemma lists_matchD:
  assumes "lists_match_events b"
  shows "h \<in> set (bk_successful_txs b) \<longleftrightarrow> Settled \<in> set (events_of b h)"
    and "h \<in> set (bk_failed_txs b) \<longleftrightarrow>
      SettledAsFailed \<in> set (events_of b h) \<or> (\<exists>e. EvError (FailedBlobTx e) \<in> set (events_of b h))"
    and "h \<in> snd ` set (bk_dropped_duplicate_txs b) \<longleftrightarrow> DroppedAsDuplicate \<in> set (events_of b h)"
  using assms unfolding lists_match_events_def by blast+

lemma events_grow_status:
  assumes "events_grow kinds b b'" "\<And>ev. kinds ev \<Longrightarrow> neutral_event ev"
  shows "Settled \<in> set (events_of b' h) \<longleftrightarrow> Settled \<in> set (events_of b h)"
    and "SettledAsFailed \<in> set (events_of b' h) \<longleftrightarrow> SettledAsFailed \<in> set (events_of b h)"
    and "DroppedAsDuplicate \<in> set (events_of b' h) \<longleftrightarrow> DroppedAsDuplicate \<in> set (events_of b h)"
    and "EvError (FailedBlobTx e) \<in> set (events_of b' h) \<longleftrightarrow> EvError (FailedBlobTx e) \<in> set (events_of b h)"
  using events_grow_keeps [OF assms(1)] assms(2) unfolding neutral_event_def by blast+

lemma settle_event_neutral: "is_settle_event ev \<Longrightarrow> neutral_event ev"
  by (auto simp: neutral_event_def)

lemma side_event_neutral: "is_side_event ev \<Longrightarrow> neutral_event ev"
  by (auto simp: neutral_event_def)

interpretation ls: block_property E "\<lambda>cs b. lists_match_events b" for E
proof unfold_locales
  fix b b'
  assume "lists_match_events b" "block_lists b' = block_lists b" "events_grow neutral_event b b'"
  then show "lists_match_events b'"
    by (simp add: lists_match_events_def block_lists_def events_grow_status)
next
  fix h st b st' b'
  assume m: "lists_match_events b" and "round_failed h st b st' b'"
  then obtain b1 where g: "events_grow is_settle_event b b1"
    and ev: "\<forall>k. events_of b' k = events_of b1 k @ (if k = h then [SettledAsFailed] else [])"
    and bl: "block_lists b' = (bk_successful_txs b, bk_failed_txs b @ [h], bk_dropped_duplicate_txs b)"
    by (auto simp: round_failed_def)
  show "lists_match_events b'"
    using bl ev lists_matchD [OF m] events_grow_status [OF g settle_event_neutral]
    unfolding lists_match_events_def block_lists_def by auto
next
  fix h st b st' b'
  assume m: "lists_match_events b" and "round_success h st b st' b'"
  then obtain b1 where g: "events_grow is_settle_event b b1"
    and g2: "events_grow is_side_event (push_event h Settled b1) b'"
    and bl: "block_lists b' = (bk_successful_txs b @ [h], bk_failed_txs b, bk_dropped_duplicate_txs b)"
    by (auto simp: round_success_def)
  show "lists_match_events b'"
    using bl lists_matchD [OF m] events_grow_status [OF g settle_event_neutral]
      events_grow_status [OF g2 side_event_neutral]
    unfolding lists_match_events_def block_lists_def by auto
next
  fix b :: Block and i :: TxId
  assume "lists_match_events b"
  then show "lists_match_events (push_event (snd i) DroppedAsDuplicate
      (b\<lparr>bk_dropped_duplicate_txs := bk_dropped_duplicate_txs b @ [i]\<rparr>))"
    by (auto simp: lists_match_events_def push_event_def events_of_def bt_push_def hm_simps split: option.splits)
next
  fix b :: Block and h e
  assume "lists_match_events b"
  then show "lists_match_events ((push_event h (EvError (FailedBlobTx e)) b)\<lparr>bk_failed_txs := bk_failed_txs b @ [h]\<rparr>)"
    by (auto simp: lists_match_events_def push_event_def events_of_def bt_push_def hm_simps split: option.splits)
qed

interpretation rp: block_property E "report_ok cs0" for E cs0
proof unfold_locales
  fix cs b i h e
  assume r: "report_ok cs0 cs b"
  show "report_ok cs0 cs b'" if "block_report b' = block_report b" for b'
    by (rule iffD2 [OF report_ok_cong r]) (rule that)
  show "report_ok cs0 cs (push_event (snd i) DroppedAsDuplicate
      (b\<lparr>bk_dropped_duplicate_txs := bk_dropped_duplicate_txs b @ [i]\<rparr>))"
    by (rule iffD2 [OF report_ok_cong r]) simp
  show "report_ok cs0 cs ((push_event h (EvError (FailedBlobTx e)) b)\<lparr>bk_failed_txs := bk_failed_txs b @ [h]\<rparr>)"
    by (rule iffD2 [OF report_ok_cong r]) simp
next
  fix h b b' and st st' :: NodeStateStore
  assume r: "report_ok cs0 (ns_contracts st) b"
  show "report_ok cs0 (ns_contracts st') b'" if "round_failed h st b st' b'"
    using that r report_ok_cong [of b' b] by (simp add: round_failed_def)
  show "report_ok cs0 (ns_contracts st') b'" if "round_success h st b st' b'"
    using r that by (simp add: round_success_def)
qed

interpretation un: block_property E "\<lambda>cs b. bk_successful_txs b = [] \<longrightarrow> cs = cs0" for E cs0
  by unfold_locales (auto simp: block_lists_def round_failed_def round_success_def push_event_def)

subsection \<open>Whole blocks\<close>

lemma node_inv_default: "node_inv E NodeStateStore_default"
  by (auto simp: node_inv_def NodeStateStore_default_def otm_inv_default contracts_inv_def hm_inv_def
      hyle_contract_definition_def hm_contains_def)

lemma handle_signed_block_Ok: "handle_signed_block E st sb = Some (Ok r) \<Longrightarrow> accepts_height st sb"
  by (auto simp: handle_signed_block_def Let_def accepts_height_def split: if_splits)

lemma report_ok_start: "report_ok (ns_contracts st) (ns_contracts st) (initial_block E sb)"
  by (auto simp: report_ok_def initial_block_def field_reported_def same_field_def)

lemma lists_match_start: "lists_match_events (initial_block E sb)"
  by (simp add: lists_match_events_def initial_block_def events_of_def)

lemma node_inv_height [simp]: "node_inv E (st\<lparr>ns_current_height := h\<rparr>) = node_inv E st"
  by (simp add: node_inv_def)

lemma handle_signed_block_returns:
  assumes "node_inv E st" and "accepts_height st sb"
  shows "\<exists>st' b. handle_signed_block E st sb = Some (Ok (st', b)) \<and> node_inv E st' \<and>
    ns_current_height st' = SignedBlock_height sb"
  using ni.block_invariant_holds [OF assms(2)] assms(1) by simp

lemma sample_block_accepted: "accepts_height NodeStateStore_default (sample_block txs)"
  by (simp add: accepts_height_def NodeStateStore_default_def SignedBlock_height_def sample_block_def)

lemma sample_block_refused:
  "\<exists>st b. handle_signed_block sample_env NodeStateStore_default
     (sample_block [Transaction_wrap (TD_Blob sample_bad_tx)]) = Some (Ok (st, b)) \<and> bk_successful_txs b = []"
  by (simp add: handle_signed_block_def Let_def sample_block_def NodeStateStore_default_def SignedBlock_height_def
      clear_timeouts_def initial_block_def timeouts_drop_def Timeouts_default_def iter_txs_with_id_def iter_txs_def
      Transaction_wrap_def handle_block_tx_def sample_bad_tx_def handle_block_blob_tx_def handle_blob_tx_def
      validate_identity_def rsplit_once_def push_event_def record_origin_def)

text \<open>
  C1. Handling a block of the expected height always returns, whatever its transactions: the
  settlement loops end and no \<open>unwrap\<close> fails. The invariant of the store is kept and the
  height becomes that of the block.
\<close>

theorem handle_signed_block_total:
  assumes "node_inv E st" and "accepts_height st sb"
  shows "\<exists>st' b. handle_signed_block E st sb = Some (Ok (st', b)) \<and> node_inv E st' \<and>
    ns_current_height st' = SignedBlock_height sb"
  using handle_signed_block_returns [OF assms] .

theorem handle_signed_block_total_witness:
  "\<exists>st' b. handle_signed_block sample_env NodeStateStore_default
      (sample_block [Transaction_wrap (TD_Blob sample_tx)]) = Some (Ok (st', b)) \<and> node_inv sample_env st' \<and>
    ns_current_height st' = 1"
  using handle_signed_block_total [OF node_inv_default sample_block_accepted]
  by (simp add: SignedBlock_height_def sample_block_def)



text \<open>
  The lists of successful, failed and dropped transactions of a block agree with the
  events it attaches to the transactions.
\<close>

theorem block_lists_match_events:
  assumes "node_inv E st" and "handle_signed_block E st sb = Some (Ok (st', b))"
  shows "lists_match_events b"
proof -
  have "accepts_height st sb" using assms(2) by (rule handle_signed_block_Ok)
  then show ?thesis
    using ls.bi.block_invariant_holds [of st sb E] assms lists_match_start [of E sb] by auto
qed

theorem block_lists_match_events_witness:
  "\<exists>st' b. handle_signed_block sample_env NodeStateStore_default
      (sample_block [Transaction_wrap (TD_Blob sample_tx)]) = Some (Ok (st', b)) \<and> lists_match_events b"
  using handle_signed_block_returns [OF node_inv_default sample_block_accepted]
    block_lists_match_events [OF node_inv_default] by blast

text \<open>
  A block in which no transaction settles as a success leaves the contracts unchanged.
\<close>

theorem no_success_no_change:
  assumes "node_inv E st" and "handle_signed_block E st sb = Some (Ok (st', b))" and "bk_successful_txs b = []"
  shows "ns_contracts st' = ns_contracts st"
proof -
  have "accepts_height st sb" using assms(2) by (rule handle_signed_block_Ok)
  then show ?thesis
    using un.bi.block_invariant_holds [of st sb E "ns_contracts st"] assms by auto
qed

theorem no_success_no_change_witness:
  "\<exists>st' b. handle_signed_block sample_env NodeStateStore_default
      (sample_block [Transaction_wrap (TD_Blob sample_bad_tx)]) = Some (Ok (st', b)) \<and>
    ns_contracts st' = ns_contracts NodeStateStore_default"
  using sample_block_refused no_success_no_change [OF node_inv_default] by blast

subsection \<open>Chains of blocks\<close>

text \<open>Handling the blocks of a chain one after the other.\<close>

fun handle_chain :: "Env \<Rightarrow> NodeStateStore \<Rightarrow> SignedBlock list \<Rightarrow> (NodeStateStore \<times> Block list) option" where
  "handle_chain E st [] = Some (st, [])"
| "handle_chain E st (sb # sbs) =
     (case handle_signed_block E st sb of
        Some (Inr (st', b)) \<Rightarrow> map_option (\<lambda>(st2, bs). (st2, b # bs)) (handle_chain E st' sbs)
      | _ \<Rightarrow> None)"



end
