(* ===== verification/Node_State_Transactions.thy ===== *)
theory Node_State_Transactions
  imports Node_State_Blocks
begin

text \<open>
  Properties of single transactions in the node state: which transactions are accepted, in
  which order they settle, what a settlement does to the contracts, what happens to the
  transactions of a deleted contract, and that timeouts are enforced.
\<close>

subsection \<open>A sample store\<close>

text \<open>A store with one pending transaction, whose only blob has a proof that settles it.\<close>

definition sample_pending :: UnsettledBlobTransaction where
  "sample_pending =
     \<lparr>ut_identity = ''u@c'', ut_parent_dp_hash = [], ut_hash = ''h'',
      ut_tx_context = \<lparr>tc_lane_id = [], tc_block_hash = [], tc_block_height = 1, tc_timestamp = 0, tc_chain_id = 0\<rparr>,
      ut_blobs_hash = [], ut_blobs = [(0, sample_blob)]\<rparr>"

definition sample_store :: NodeStateStore where
  "sample_store =
     \<lparr>ns_timeouts = timeouts_set Timeouts_default ''h'' 1 100, ns_current_height = 1, ns_contracts = sample_contracts,
      ns_unsettled_transactions = fst (otm_add sample_env OrderedTxMap_default sample_pending)\<rparr>"

lemma sample_store_repr: "otm_repr sample_env (ns_unsettled_transactions sample_store) [sample_pending]"
  using otm_add_repr(2) [OF otm_repr_default, of sample_pending sample_env] by (auto simp: sample_store_def)

lemma sample_store_inv: "node_inv sample_env sample_store"
  using sample_store_repr sample_contracts_inv by (auto simp: node_inv_def otm_inv_def sample_store_def)

lemma sample_store_get: "otm_get (ns_unsettled_transactions sample_store) ''h'' = Some sample_pending"
  using otm_get_repr [OF sample_store_repr] by (simp add: lookup_tx_def sample_pending_def)

lemma sample_store_next: "is_next_to_settle sample_env (ns_unsettled_transactions sample_store) ''h''"
  using is_next_repr [OF sample_store_repr, of "''h''"]
  by (force simp: sample_pending_def)

lemma sample_store_settles:
  "\<exists>st' ev r. try_to_settle_blob_tx sample_env sample_store ''h'' [] [] [] =
     (st', ev, [], [], Ok \<lparr>so_tx = sample_pending, so_result = Ok r\<rparr>)"
proof -
  obtain r ev where "settle_blobs_recursively sample_env sample_contracts [] [sample_blob] [] [] = (Some (Ok r), ev)"
    using sample_settles by (metis prod.collapse)
  moreover have "ns_contracts sample_store = sample_contracts" "ut_blobs sample_pending = [(0, sample_blob)]"
      "hm_contains sample_contracts (b_contract_name (um_blob sample_blob))" "\<not> native_blob_failed sample_blob"
      "ut_parent_dp_hash sample_pending = []" "tc_lane_id (ut_tx_context sample_pending) = []"
    by (simp_all add: sample_pending_def sample_store_def hm_contains_def sample_contracts_def sample_blob_def
        native_blob_failed_def NATIVE_VERIFIERS_CONTRACT_LIST_def)
  ultimately show ?thesis
    by (simp add: try_to_settle_blob_tx_def sample_store_get sample_store_next Let_def)
qed

subsection \<open>Acceptance\<close>

lemma unknown_contracts_Nil:
  "filter (\<lambda>b. \<not> P b) bs = [] \<longleftrightarrow> list_all P bs"
  by (induction bs) auto

lemma handle_blob_tx_is_ok:
  "is_ok (handle_blob_tx E st dp tx ctx) \<longleftrightarrow>
     is_ok (validate_identity tx) \<and> btx_blobs tx \<noteq> [] \<and> is_ok (validate_hyle_contract_blobs E tx) \<and>
     list_all (\<lambda>b. hm_contains (ns_contracts st) (b_contract_name b)) (btx_blobs tx)"
  by (simp add: handle_blob_tx_def Let_def unknown_contracts_Nil split: sum.split prod.split option.split)

text \<open>
  A blob transaction is accepted exactly if its identity is well formed and backed by a
  blob, it has a blob, its blobs for the built-in contract are authorised and all its
  contracts are registered.
\<close>

theorem handle_blob_tx_accepts:
  "is_ok (handle_blob_tx E st dp tx ctx) \<longleftrightarrow>
     is_ok (validate_identity tx) \<and> btx_blobs tx \<noteq> [] \<and> is_ok (validate_hyle_contract_blobs E tx) \<and>
     list_all (\<lambda>b. hm_contains (ns_contracts st) (b_contract_name b)) (btx_blobs tx)"
  by (rule handle_blob_tx_is_ok)

lemma otm_add_duplicate: "otm_get m (ut_hash utx) \<noteq> None \<Longrightarrow> otm_add E m utx = (m, None)"
  by (simp add: otm_add_def otm_get_def hm_contains_def)

text \<open>
  A transaction whose hash is already pending is dropped without changing the state.
\<close>

theorem handle_blob_tx_duplicate:
  assumes "otm_get (ns_unsettled_transactions st) (BlobTransaction_hashed E tx) = Some old"
    and "handle_blob_tx E st dp tx ctx = Ok r"
  shows "r = (st, Duplicate)"
  using assms
  by (auto simp: handle_blob_tx_def Let_def otm_add_duplicate
      split: sum.split_asm if_split_asm prod.split_asm)

theorem handle_blob_tx_duplicate_witness:
  "\<exists>st. handle_blob_tx sample_env st [] sample_tx (ut_tx_context sample_pending) = Ok (st, Duplicate)"
proof -
  let ?utx = "sample_pending\<lparr>ut_hash := BlobTransaction_hashed sample_env sample_tx\<rparr>"
  let ?st = "NodeStateStore_default\<lparr>ns_unsettled_transactions := fst (otm_add sample_env OrderedTxMap_default ?utx)\<rparr>"
  have "otm_repr sample_env (ns_unsettled_transactions ?st) [?utx]"
    using otm_add_repr(2) [OF otm_repr_default, of ?utx sample_env] by auto
  then have "otm_get (ns_unsettled_transactions ?st) (BlobTransaction_hashed sample_env sample_tx) = Some ?utx"
    by (simp add: otm_get_repr lookup_tx_def)
  moreover have "is_ok (handle_blob_tx sample_env ?st [] sample_tx (ut_tx_context sample_pending))"
    by (simp add: handle_blob_tx_is_ok validate_identity_def rsplit_once_def sample_tx_def hm_contains_def
        validate_hyle_contract_blobs_def validate_hyle_blob_def NodeStateStore_default_def hyle_contract_definition_def)
  ultimately show ?thesis
    using handle_blob_tx_duplicate [of ?st sample_env sample_tx ?utx "[]" "ut_tx_context sample_pending"]
    by (auto simp: is_ok_iff)
qed

subsection \<open>Order of settlement\<close>

text \<open>
  C8. Settlement is first come first served per contract: a transaction that settles as a
  success shares no contract with a transaction sequenced before it that is still
  pending, and the other pending transactions keep their order.
\<close>

theorem settle_fifo:
  assumes "otm_repr E (ns_unsettled_transactions st) ts" and "contracts_inv (ns_contracts st)"
    and "try_to_settle_blob_tx E st h ev dp lane = (st', ev', dp', lane', Ok out)" and "so_result out = Ok r"
  shows "\<exists>pre tx post. ts = pre @ tx # post \<and> ut_hash tx = h \<and>
    list_all (\<lambda>t. list_all (\<lambda>c. \<not> touches E t c) (get_contracts_blocked_by_tx E tx)) pre \<and>
    otm_repr E (ns_unsettled_transactions st') (pre @ post)"
proof -
  have "is_next_to_settle E (ns_unsettled_transactions st) h"
    using try_to_settle_Ok(3) [OF assms(3,2,4)] .
  then obtain pre tx post where ts: "ts = pre @ tx # post" and h: "ut_hash tx = h"
      and first: "\<forall>t \<in> set pre. \<forall>c. touches E tx c \<longrightarrow> \<not> touches E t c"
    using is_next_repr [OF assms(1)] by blast
  have "distinct (map ut_hash ts)" using assms(1) by (simp add: otm_repr_def)
  then have "h \<notin> ut_hash ` set pre" "h \<notin> ut_hash ` set post"
    using ts h by auto
  then have "\<forall>t \<in> set pre. ut_hash t \<noteq> h" "\<forall>t \<in> set post. ut_hash t \<noteq> h"
    by blast+
  then have "filter (\<lambda>t. ut_hash t \<noteq> h) ts = pre @ post"
    using ts h by simp
  moreover have "ns_unsettled_transactions st' = fst (otm_remove E (ns_unsettled_transactions st) h)"
    using try_to_settle_cases [OF assms(3)] by auto
  ultimately have "otm_repr E (ns_unsettled_transactions st') (pre @ post)"
    using otm_remove_repr [OF assms(1), of h] by auto
  moreover have "list_all (\<lambda>t. list_all (\<lambda>c. \<not> touches E t c) (get_contracts_blocked_by_tx E tx)) pre"
    using first by (simp add: list_all_iff touches_def)
  ultimately show ?thesis using ts h by blast
qed

theorem settle_fifo_witness:
  "\<exists>(st' :: NodeStateStore) pre tx post. [sample_pending] = pre @ tx # post \<and> ut_hash tx = ''h'' \<and>
     otm_repr sample_env (ns_unsettled_transactions st') (pre @ post)"
proof -
  obtain st' ev r where t: "try_to_settle_blob_tx sample_env sample_store ''h'' [] [] [] =
      (st', ev, [], [], Ok \<lparr>so_tx = sample_pending, so_result = Ok r\<rparr>)"
    using sample_store_settles by blast
  have cs: "contracts_inv (ns_contracts sample_store)" using sample_store_inv by (simp add: node_inv_def)
  have r: "so_result \<lparr>so_tx = sample_pending, so_result = Ok r\<rparr> = Ok r" by simp
  obtain pre tx post where "[sample_pending] = pre @ tx # post \<and> ut_hash tx = ''h'' \<and>
      list_all (\<lambda>t. list_all (\<lambda>c. \<not> touches sample_env t c) (get_contracts_blocked_by_tx sample_env tx)) pre \<and>
      otm_repr sample_env (ns_unsettled_transactions st') (pre @ post)"
    using settle_fifo [OF sample_store_repr cs t r] by (elim exE)
  then show ?thesis by (intro exI [of _ st'] exI [of _ pre] exI [of _ tx] exI [of _ post]) simp
qed

subsection \<open>Effect on the contracts\<close>

text \<open>
  C7. A settlement is atomic: a transaction that settles as failed leaves every contract as it
  was, one that settles as a success makes exactly the pending changes.
\<close>

theorem settle_atomic:
  assumes "node_inv E st"
    and "try_to_settle_blob_tx E st h ev dp lane = (st1, ev', dp', lane', Ok out)"
    and "on_settled_blob_tx E h (so_tx out) (so_result out) st1 b = Some (st2, b', n)"
  shows "map_of (ns_contracts st2) c =
    (case so_result out of
       Inl _ \<Rightarrow> map_of (ns_contracts st) c
     | Inr r \<Rightarrow> (case map_of (sr_contract_changes r) c of None \<Rightarrow> map_of (ns_contracts st) c | Some d \<Rightarrow> fst d))"
proof -
  have st1: "st1 = st\<lparr>ns_unsettled_transactions := fst (otm_remove E (ns_unsettled_transactions st) h)\<rparr>"
    using try_to_settle_cases [OF assms(2)] by auto
  show ?thesis
  proof (cases "so_result out")
    case (Inl u)
    with assms(3) st1 show ?thesis by (auto simp: on_settled_blob_tx_def Let_def)
  next
    case (Inr r)
    have cs: "ns_contracts st1 = ns_contracts st" using st1 by simp
    have inv1: "node_inv E st1" using assms(1) st1 by (simp add: node_inv_def otm_inv_remove)
    have ch: "changes_inv (sr_contract_changes r)" "changes_flags (ns_contracts st1) (sr_contract_changes r)"
      using try_to_settle_Ok [OF assms(2) _ Inr] assms(1) by (simp_all add: node_inv_def cs)
    show ?thesis
      using on_settled_success_total [OF inv1 ch, of h "so_tx out" b
          "get_next_txs_blocked_by_tx E (ns_unsettled_transactions st1) (so_tx out)"] assms(3) Inr
      by (auto simp: on_settled_blob_tx_def Let_def cs split: option.split)
  qed
qed

theorem settle_atomic_witness:
  "\<exists>st1 ev r st2 b n. try_to_settle_blob_tx sample_env sample_store ''h'' [] [] [] =
      (st1, ev, [], [], Ok \<lparr>so_tx = sample_pending, so_result = Ok r\<rparr>) \<and>
    on_settled_blob_tx sample_env ''h'' sample_pending (Ok r) st1 (initial_block sample_env (sample_block [])) = Some (st2, b, n) \<and>
    map_of (ns_contracts st2) ''c'' =
      (case map_of (sr_contract_changes r) ''c'' of None \<Rightarrow> map_of (ns_contracts sample_store) ''c'' | Some d \<Rightarrow> fst d)"
proof -
  obtain st1 ev r where t: "try_to_settle_blob_tx sample_env sample_store ''h'' [] [] [] =
      (st1, ev, [], [], Ok \<lparr>so_tx = sample_pending, so_result = Ok r\<rparr>)"
    using sample_store_settles by blast
  let ?b = "initial_block sample_env (sample_block [])"
  have cs: "contracts_inv (ns_contracts sample_store)" using sample_store_inv by (simp add: node_inv_def)
  have st1: "st1 = sample_store\<lparr>ns_unsettled_transactions :=
      fst (otm_remove sample_env (ns_unsettled_transactions sample_store) ''h'')\<rparr>"
    using try_to_settle_cases [OF t] by auto
  then have "node_inv sample_env st1" "ns_contracts st1 = ns_contracts sample_store"
    using sample_store_inv by (simp_all add: node_inv_def otm_inv_remove)
  then obtain st2 b n where "on_settled_blob_tx sample_env ''h'' sample_pending (Ok r) st1 ?b = Some (st2, b, n)"
    using on_settled_success_total [of sample_env st1 r "''h''" sample_pending ?b
        "get_next_txs_blocked_by_tx sample_env (ns_unsettled_transactions st1) sample_pending"]
      try_to_settle_Ok [OF t cs, of r]
    by (auto simp: on_settled_blob_tx_def Let_def)
  then show ?thesis
    using settle_atomic [OF sample_store_inv t, of ?b st2 b n "''c''"] t by auto
qed

subsection \<open>Deleted contracts\<close>

lemma timeout_queue_repr:
  assumes "otm_repr E m ts" "timeout_queue E c m b blocked = Some (m', b', bl')"
  shows "otm_repr E m' (filter (\<lambda>t. \<not> touches E t c) ts)"
  using assms
proof (induction "length ts" arbitrary: m ts b blocked rule: less_induct)
  case less
  show ?case
  proof (cases "get_next_unsettled_tx m c")
    case None
    then have "queue_of E ts c = []" using get_next_repr [OF less.prems(1)] by (simp add: front_eq_None)
    then have "filter (\<lambda>t. \<not> touches E t c) ts = ts"
      by (auto simp: queue_of_def filter_empty_conv intro: filter_True)
    with None less.prems show ?thesis by (subst (asm) timeout_queue.simps) simp
  next
    case (Some h)
    then have "h \<in> set (queue_of E ts c)" using get_next_repr [OF less.prems(1)] front_in_set by metis
    then obtain t where t: "t \<in> set ts" "touches E t c" "ut_hash t = h" by (auto simp: queue_of_def)
    let ?ts = "filter (\<lambda>u. ut_hash u \<noteq> h) ts"
    have look: "lookup_tx ts h = Some t" using lookup_tx_in less.prems(1) t by (metis otm_repr_def)
    obtain m1 where m1: "otm_remove E m h = (m1, Some t)" "otm_repr E m1 ?ts"
      using otm_remove_repr [OF less.prems(1), of h] look by auto
    have "u = t" if "u \<in> set ts" "ut_hash u = h" for u
      using lookup_tx_in [OF _ that(1)] look that(2) less.prems(1) by (simp add: otm_repr_def)
    then have "filter (\<lambda>u. \<not> touches E u c) ?ts = filter (\<lambda>u. \<not> touches E u c) ts"
      using t(2) by (auto simp: filter_filter intro!: filter_cong)
    moreover have "length ?ts < length ts" using t by (intro length_filter_less) auto
    moreover have "\<exists>b1 bl1. timeout_queue E c m1 b1 bl1 = Some (m', b', bl')"
      using less.prems(2) Some m1(1) by (subst (asm) timeout_queue.simps) auto
    ultimately show ?thesis using less.hyps m1(2) by metis
  qed
qed

text \<open>
  C28. The deletion of a contract removes exactly the pending transactions that touch it. The
  others keep their order, and the contract is no longer registered.
\<close>

theorem delete_contract_drains:
  assumes "otm_repr E (ns_unsettled_transactions st) ts"
    and "delete_contract E bth c st b n = Some (st', b', n')"
  shows "otm_repr E (ns_unsettled_transactions st') (filter (\<lambda>t. \<not> touches E t c) ts) \<and>
    map_of (ns_contracts st') c = None"
  using assms timeout_queue_repr [OF assms(1)]
  by (auto simp: delete_contract_def hm_simps split: option.splits)

theorem delete_contract_drains_witness:
  "\<exists>st' b' n'. delete_contract sample_env ''t'' ''c'' sample_store (initial_block sample_env (sample_block [])) [] =
      Some (st', b', n') \<and> otm_repr sample_env (ns_unsettled_transactions st') []"
proof -
  let ?b = "initial_block sample_env (sample_block [])"
  obtain st' b' n' where d: "delete_contract sample_env ''t'' ''c'' sample_store ?b [] = Some (st', b', n')"
    using delete_contract_total [of sample_env sample_store "''t''" "''c''" ?b "[]"] sample_store_inv
    by (auto simp: node_inv_def)
  have "touches sample_env sample_pending ''c''"
    by (simp add: touches_def get_contracts_blocked_by_tx_def sample_pending_def sample_blob_def blob_contracts_def)
  with delete_contract_drains [OF sample_store_repr d] d show ?thesis by auto
qed

text \<open>
  The transactions timed out in this way get the event \<open>TimedOut\<close> but do not enter the list
  of timed-out transactions of the block.
\<close>

lemma delete_contract_not_listed:
  assumes "otm_inv E (ns_unsettled_transactions st)"
    and "delete_contract E bth c st b n = Some (st', b', n')"
  shows "bk_timed_out_txs b' = bk_timed_out_txs b"
proof -
  obtain b1 where b'_eq: "b' = b1\<lparr>bk_registered_contracts := AList.delete c (bk_registered_contracts b),
      bk_deleted_contracts := bt_insert c bth (bk_deleted_contracts b)\<rparr>" and fr: "block_frame b1 = block_frame b"
    using delete_contract_total [OF assms(1), of bth c b n] assms(2) by auto
  have "bk_timed_out_txs (block_frame x) = bk_timed_out_txs x" for x
    by (simp add: block_frame_def)
  from this [of b1] this [of b] fr have "bk_timed_out_txs b1 = bk_timed_out_txs b" by simp
  with b'_eq show ?thesis by simp
qed

subsection \<open>Timeouts\<close>

text \<open>Settling never adds a pending transaction.\<close>

lemma apply_changes_pending:
  assumes "apply_changes E bth ch st b n = Some (st', b', n')" "otm_inv E (ns_unsettled_transactions st)"
    and "otm_get (ns_unsettled_transactions st') k = Some t"
  shows "otm_get (ns_unsettled_transactions st) k = Some t"
  using assms
proof (induction ch arbitrary: st b n)
  case (Cons e rest)
  obtain c d where e: "e = (c, d)" by (cases e)
  obtain st1 b1 n1 where a: "apply_change E bth c d st b n = Some (st1, b1, n1)"
      and r: "apply_changes E bth rest st1 b1 n1 = Some (st', b', n')"
    using Cons.prems(1) by (auto simp: e split: option.splits)
  have "otm_inv E (ns_unsettled_transactions st1)"
    using apply_change_total [OF Cons.prems(2), of bth c d b n] a by auto
  then have "otm_get (ns_unsettled_transactions st1) k = Some t"
    using Cons.IH [OF r] Cons.prems(3) by simp
  then show ?case
    using a delete_contract_total [OF Cons.prems(2), of bth c b n]
    by (auto simp: apply_change_def split: option.splits prod.splits dest: update_contract_unsettled)
qed simp

lemma apply_nukes_pending:
  assumes "apply_nukes bth us m b = (m', b', f)" "otm_get m k = None"
  shows "otm_get m' k = None"
proof -
  let ?P = "\<lambda>acc. otm_get (fst acc) k = None"
  have step: "?P acc \<Longrightarrow> ?P (apply_nuke_proof bth h u acc)" for h u and acc :: "OrderedTxMap \<times> Block \<times> TxHash btreeset"
    by (auto simp: apply_nuke_proof_def Let_def otm_get_def otm_set_def hm_simps split: prod.split option.split)
  have inner: "?P acc \<Longrightarrow> ?P (fold (apply_nuke_proof bth h) ps acc)" for h ps and acc :: "OrderedTxMap \<times> Block \<times> TxHash btreeset"
    by (rule fold_invariant [where Q = "\<lambda>_. True"]) (auto intro: step)
  have "?P (apply_nukes bth us m b)"
    unfolding apply_nukes_def
    by (rule fold_invariant [where Q = "\<lambda>_. True"]) (auto simp: case_prod_beta assms(2) intro!: inner)
  then show ?thesis by (simp add: assms(1))
qed

lemma on_settled_pending:
  assumes "on_settled_blob_tx E bth tx res st b = Some (st', b', n')" "otm_inv E (ns_unsettled_transactions st)"
    and "otm_get (ns_unsettled_transactions st) k = None"
  shows "otm_get (ns_unsettled_transactions st') k = None"
proof (cases res)
  case (Inl u)
  with assms show ?thesis by (auto simp: on_settled_blob_tx_def Let_def)
next
  case (Inr r)
  then obtain b1 nukes st2 b2 n1 n2 m b3 f where
      ac: "apply_changes E bth (sr_contract_changes r) st b1 n1 = Some (st2, b2, n2)"
      and nk: "apply_nukes bth (nuke_updates st2 nukes) (ns_unsettled_transactions st2) b2 = (m, b3, f)"
      and st': "st' = st2\<lparr>ns_unsettled_transactions := m\<rparr>"
    using assms(1)
    by (auto simp: on_settled_blob_tx_def on_settled_success_def Let_def split: option.splits prod.splits)
  have "otm_get (ns_unsettled_transactions st2) k = None"
    using apply_changes_pending [OF ac assms(2)] assms(3) by (cases "otm_get (ns_unsettled_transactions st2) k") auto
  with apply_nukes_pending [OF nk] st' show ?thesis by simp
qed

lemma settle_round_pending:
  assumes "settle_round E st b h = Some (st', b', r)" "otm_inv E (ns_unsettled_transactions st)"
    and "otm_get (ns_unsettled_transactions st) k = None"
  shows "otm_get (ns_unsettled_transactions st') k = None"
proof -
  let ?t = "try_to_settle_blob_tx E st h
    (case map_of (bk_transactions_events b) h of Some v \<Rightarrow> v | None \<Rightarrow> [])
    (case map_of (bk_dp_parent_hashes b) h of Some v \<Rightarrow> v | None \<Rightarrow> [])
    (case map_of (bk_lane_ids b) h of Some v \<Rightarrow> v | None \<Rightarrow> [])"
  obtain st1 ev dp lane res where t: "?t = (st1, ev, dp, lane, res)"
    by (cases ?t) auto
  have st1: "otm_inv E (ns_unsettled_transactions st1) \<and> otm_get (ns_unsettled_transactions st1) k = None"
    using try_to_settle_cases [OF t] assms(2,3) otm.rem_get [OF assms(2)] by (auto simp: otm_inv_remove)
  show ?thesis
  proof (cases res)
    case (Inl e)
    with assms(1) t st1 show ?thesis by (auto simp: settle_round_def Let_def)
  next
    case (Inr out)
    with assms(1) t st1 show ?thesis
      by (auto simp: settle_round_def Let_def dest: on_settled_pending)
  qed
qed

lemma until_done_pending:
  assumes "settle_txs_until_done E st b todo u = Some (st', b', u')" "node_inv E st"
    and "otm_get (ns_unsettled_transactions st) k = None"
  shows "node_inv E st' \<and> otm_get (ns_unsettled_transactions st') k = None"
  using assms
proof (induction E st b todo u rule: settle_txs_until_done.induct)
  case (2 E st b h todo u)
  obtain st1 b1 r where r: "settle_round E st b h = Some (st1, b1, r)" and inv: "node_inv E st1"
    using settle_round_total [OF 2(4)] by blast
  have get: "otm_get (ns_unsettled_transactions st1) k = None"
    using settle_round_pending [OF r _ 2(5)] 2(4) by (simp add: node_inv_def)
  show ?case
  proof (cases r)
    case None
    with 2(1) [OF r refl refl None _ inv get] 2(3) r show ?thesis by simp
  next
    case (Some txs)
    with 2(2) [OF r refl refl Some _ inv get] 2(3) r show ?thesis by simp
  qed
qed auto

lemma set_next_timeouts_keeps:
  "set_next_timeouts E hs st = Some st' \<Longrightarrow>
     ns_unsettled_transactions st' = ns_unsettled_transactions st \<and> ns_contracts st' = ns_contracts st"
  by (induction E hs st rule: set_next_timeouts.induct) (auto split: if_splits option.splits)

lemma settle_and_set_pending:
  assumes "settle_and_set_timeouts E st b txs = Some (st', b')" "node_inv E st"
    and "otm_get (ns_unsettled_transactions st) k = None"
  shows "node_inv E st' \<and> otm_get (ns_unsettled_transactions st') k = None"
  using assms
  by (auto simp: settle_and_set_timeouts_def node_inv_def split: option.splits prod.splits
      dest!: set_next_timeouts_keeps until_done_pending)

lemma time_out_txs_pending:
  assumes "time_out_txs E hs st b = Some (st', b', kept)" "node_inv E st"
    and "k \<in> set hs \<or> otm_get (ns_unsettled_transactions st) k = None"
  shows "otm_get (ns_unsettled_transactions st') k = None"
  using assms
proof (induction hs arbitrary: st b kept)
  case (Cons h hs)
  obtain m t where rem: "otm_remove E (ns_unsettled_transactions st) h = (m, t)" by force
  have otm: "otm_inv E (ns_unsettled_transactions st)" using Cons.prems(2) by (simp add: node_inv_def)
  have m: "otm_get m j = (if j = h then None else otm_get (ns_unsettled_transactions st) j)" for j
    using otm.rem_get [OF otm, of h j] rem by simp
  have t: "t = otm_get (ns_unsettled_transactions st) h"
    using otm_remove_get [of E "ns_unsettled_transactions st" h] rem by simp
  show ?case
  proof (cases t)
    case None
    with Cons.prems rem t show ?thesis by (intro Cons.IH [of st b kept]) auto
  next
    case (Some tx)
    let ?st = "st\<lparr>ns_unsettled_transactions := m\<rparr>"
    have inv: "node_inv E ?st"
      using Cons.prems(2) otm_inv_remove [OF otm, of h] rem by (simp add: node_inv_def)
    obtain b1 st2 b2 kept2 where s: "settle_and_set_timeouts E ?st b1 (get_next_txs_blocked_by_tx E m tx) = Some (st2, b2)"
        and rest: "time_out_txs E hs st2 b2 = Some (st', b', kept2)"
      using Cons.prems(1) rem Some by (auto split: option.splits)
    have inv2: "node_inv E st2"
      using settle_and_set_pending [OF s inv, of h] m by simp
    have "k \<in> set hs \<or> otm_get (ns_unsettled_transactions ?st) k = None"
      using Cons.prems(3) by (auto simp: m)
    then have "k \<in> set hs \<or> otm_get (ns_unsettled_transactions st2) k = None"
    proof
      assume "otm_get (ns_unsettled_transactions ?st) k = None"
      from settle_and_set_pending [OF s inv this] show ?thesis by simp
    qed simp
    then show ?thesis by (rule Cons.IH [OF rest inv2])
  qed
qed auto

text \<open>
  C27. Timeouts are enforced: once the timeouts of a block have been handled, no transaction
  due at the height of the block is pending.
\<close>

theorem timeouts_enforced:
  assumes "node_inv E st" and "clear_timeouts E st b = Some (st', b')"
    and "h \<in> set (due (ns_timeouts st) (bk_block_height b))"
  shows "otm_get (ns_unsettled_transactions st') h = None"
proof -
  obtain t hs where drop: "timeouts_drop (ns_timeouts st) (bk_block_height b) = (t, hs)" by force
  then have hs: "hs = due (ns_timeouts st) (bk_block_height b)"
    using timeouts_drop_due [of "ns_timeouts st" "bk_block_height b"] by simp
  obtain b1 kept where "time_out_txs E hs (st\<lparr>ns_timeouts := t\<rparr>) b = Some (st', b1, kept)"
    using assms(2) drop by (auto simp: clear_timeouts_def)
  then show ?thesis
    using time_out_txs_pending [of E hs "st\<lparr>ns_timeouts := t\<rparr>" b st' b1 kept h] assms(1,3) hs
    by (simp add: node_inv_def)
qed

theorem timeouts_enforced_witness:
  "\<exists>st' b'. clear_timeouts sample_env sample_store ((initial_block sample_env (sample_block []))\<lparr>bk_block_height := 101\<rparr>) =
      Some (st', b') \<and> otm_get (ns_unsettled_transactions st') ''h'' = None"
proof -
  let ?b = "(initial_block sample_env (sample_block []))\<lparr>bk_block_height := 101\<rparr>"
  have "''h'' \<in> set (due (ns_timeouts sample_store) (bk_block_height ?b))"
    by (simp add: sample_store_def due_set)
  then show ?thesis
    using ni.clear [of sample_env sample_store "ns_current_height sample_store" ?b] sample_store_inv
      timeouts_enforced [OF sample_store_inv, of ?b] by blast
qed

subsection \<open>Timeout windows\<close>

lemma fold_min_le:
  fixes w :: "'a :: linorder"
  shows "fold min ws w \<le> w" and "x \<in> set ws \<Longrightarrow> fold min ws w \<le> x" and "fold min ws w \<in> insert w (set ws)"
proof (induction ws arbitrary: w)
  case (Cons y ws)
  {
    case 1 show ?case using Cons.IH(1) [of "min y w"] by simp
  next
    case 2 then show ?case using Cons.IH(1) [of "min y w"] Cons.IH(2) [of "min y w"] by auto
  next
    case 3 show ?case using Cons.IH(3) [of "min y w"] by (auto simp: min_def split: if_splits)
  }
qed simp_all

text \<open>
  Above height 445000 the timeout window of a transaction is the smallest window of its
  registered contracts, and unbounded if it has none, so it does not depend on the order
  of the blobs.
\<close>

theorem timeout_window_is_min:
  assumes "445000 < ns_current_height st"
  shows "get_tx_timeout_window st blobs =
    (if contract_timeouts st blobs = [] then NoTimeout else Min (set (contract_timeouts st blobs)))"
proof (cases "contract_timeouts st blobs")
  case Nil
  with assms show ?thesis by (simp add: get_tx_timeout_window_def)
next
  case (Cons w ws)
  have "fold min ws w = Min (set (w # ws))"
    using fold_min_le(1) [of ws w] fold_min_le(2) [of _ ws w] fold_min_le(3) [of ws w]
    by (intro Min_eqI [symmetric]) auto
  with assms Cons show ?thesis by (simp add: get_tx_timeout_window_def)
qed

theorem timeout_window_is_min_witness:
  "get_tx_timeout_window (sample_store\<lparr>ns_current_height := 500000\<rparr>) [um_blob sample_blob] = Timeout 100"
  using timeout_window_is_min [of "sample_store\<lparr>ns_current_height := 500000\<rparr>" "[um_blob sample_blob]"]
  by (simp add: contract_timeouts_def map_filter_def sample_store_def sample_contracts_def sample_blob_def)

text \<open>Below that height the result depends on the order: an unbounded window resets it.\<close>

lemma old_timeout_window_order:
  "foldl combine_timeouts NoTimeout [Timeout 5, NoTimeout] \<noteq> foldl combine_timeouts NoTimeout [NoTimeout, Timeout 5]"
  by simp

end
