(* ===== verification/Contract_Sdk.thy ===== *)
theory Contract_Sdk
  imports Hyle_Model
begin

text \<open>
  The library the contracts are written with (\<open>crates/contract-sdk\<close>): decoding of structured
  blobs (\<open>crates/hyle-model/src/contract.rs\<close>), the caller and callee checks of
  \<open>utils.rs\<close>, the execution context of \<open>caller.rs\<close>, and the guest program of \<open>guest.rs\<close> that a
  virtual machine proves. The trait \<open>ZkContract\<close> with its transactional extension is a record
  of operations, so that the guest program is one function for all contracts; the laws a contract
  has to obey are the locale \<open>zk_contract\<close>. The readers of the borsh crate and the debug
  text of strings and blobs are parameters. A panic is \<open>None\<close>.
\<close>

subsection \<open>Structured blobs\<close>

record SdkEnv =
  rd_caller :: "BlobIndex option reader"
  rd_callees :: "BlobIndex list option reader"
  debug_blobs :: "Blob list \<Rightarrow> string"
  debug_str :: "string \<Rightarrow> string"

definition StructuredBlobData_read :: "SdkEnv \<Rightarrow> 'a reader \<Rightarrow> 'a StructuredBlobData reader" where
  "StructuredBlobData_read S rd d =
     (case rd_caller S d of None \<Rightarrow> None | Some (caller, d1) \<Rightarrow>
      (case rd_callees S d1 of None \<Rightarrow> None | Some (callees, d2) \<Rightarrow>
       (case rd d2 of None \<Rightarrow> None | Some (parameters, d3) \<Rightarrow>
          Some (\<lparr>sd_caller = caller, sd_callees = callees, sd_parameters = parameters\<rparr>, d3))))"

text \<open>\<open>DropEndOfReader\<close> is the unit type: the rest of the slice is read and dropped.\<close>

definition StructuredBlobData_drop :: "SdkEnv \<Rightarrow> unit StructuredBlobData reader" where
  "StructuredBlobData_drop S d =
     (case rd_caller S d of None \<Rightarrow> None | Some (caller, d1) \<Rightarrow>
      (case rd_callees S d1 of None \<Rightarrow> None | Some (callees, d2) \<Rightarrow>
         Some (\<lparr>sd_caller = caller, sd_callees = callees, sd_parameters = ()\<rparr>, [])))"

definition StructuredBlobData_try_from :: "SdkEnv \<Rightarrow> 'a reader \<Rightarrow> BlobData \<Rightarrow> 'a StructuredBlobData option" where
  "StructuredBlobData_try_from S rd d = from_slice (StructuredBlobData_read S rd) d"

definition DropEndOfReader_try_from :: "SdkEnv \<Rightarrow> BlobData \<Rightarrow> unit StructuredBlobData option" where
  "DropEndOfReader_try_from S d = from_slice (StructuredBlobData_drop S) d"

definition StructuredBlob_try_from :: "SdkEnv \<Rightarrow> 'a reader \<Rightarrow> Blob \<Rightarrow> 'a StructuredBlob option" where
  "StructuredBlob_try_from S rd b =
     map_option (\<lambda>data. \<lparr>sb_contract_name = b_contract_name b, sb_data = data\<rparr>)
       (from_slice (StructuredBlobData_read S rd) (b_data b))"

text \<open>Both decoders agree on the caller and the callees of a blob.\<close>

lemma drop_agrees:
  assumes "StructuredBlobData_try_from S rd d = Some x"
  shows "DropEndOfReader_try_from S d =
    Some \<lparr>sd_caller = sd_caller x, sd_callees = sd_callees x, sd_parameters = ()\<rparr>"
  using assms
  by (auto simp: StructuredBlobData_try_from_def DropEndOfReader_try_from_def from_slice_def
      StructuredBlobData_read_def StructuredBlobData_drop_def split: option.split_asm prod.split_asm if_split_asm)

lemma StructuredBlob_try_from_Some:
  "StructuredBlob_try_from S rd b = Some x \<longleftrightarrow>
     sb_contract_name x = b_contract_name b \<and> StructuredBlobData_try_from S rd (b_data b) = Some (sb_data x)"
  by (cases x) (auto simp: StructuredBlob_try_from_def StructuredBlobData_try_from_def)

subsection \<open>Execution contexts\<close>

record ExecutionContext =
  ec_callees_blobs :: "Blob list"
  ec_caller :: Identity
  ec_contract_name :: ContractName

definition ExecutionContext_new :: "Identity \<Rightarrow> ContractName \<Rightarrow> ExecutionContext" where
  "ExecutionContext_new caller contract_name =
     \<lparr>ec_callees_blobs = [], ec_caller = caller, ec_contract_name = contract_name\<rparr>"

definition calls :: "SdkEnv \<Rightarrow> 'u reader \<Rightarrow> ContractName \<Rightarrow> 'u \<Rightarrow> Blob \<Rightarrow> bool" where
  "calls S rd contract_name action b =
     (b_contract_name b = contract_name \<and>
      (case StructuredBlob_try_from S rd b of None \<Rightarrow> False | Some sb \<Rightarrow> sd_parameters (sb_data sb) = action))"

definition is_in_callee_blobs ::
  "SdkEnv \<Rightarrow> 'u reader \<Rightarrow> ExecutionContext \<Rightarrow> ContractName \<Rightarrow> 'u \<Rightarrow> ExecutionContext \<times> (unit, string) Result" where
  "is_in_callee_blobs S rd ctx contract_name action =
     (case position (calls S rd contract_name action) (ec_callees_blobs ctx) of
        Some index \<Rightarrow> (ctx\<lparr>ec_callees_blobs := vec_remove (ec_callees_blobs ctx) index\<rparr>, Ok ())
      | None \<Rightarrow> (ctx, Err (''Blob with contract name '' @ contract_name @ '' not found in callees'')))"

subsection \<open>Calls between blobs\<close>

definition has_caller :: "SdkEnv \<Rightarrow> BlobIndex \<Rightarrow> Blob \<Rightarrow> bool" where
  "has_caller S index b =
     (case DropEndOfReader_try_from S (b_data b) of None \<Rightarrow> False | Some sd \<Rightarrow> sd_caller sd = Some index)"

definition claims_callee :: "SdkEnv \<Rightarrow> BlobIndex \<Rightarrow> Blob \<Rightarrow> bool" where
  "claims_callee S index b =
     (case DropEndOfReader_try_from S (b_data b) of None \<Rightarrow> False
      | Some sd \<Rightarrow> (case sd_callees sd of None \<Rightarrow> False | Some callees \<Rightarrow> index \<in> set callees))"

definition check_callees :: "SdkEnv \<Rightarrow> Calldata \<Rightarrow> BlobIndex list option \<Rightarrow> (unit, string) Result" where
  "check_callees S cd callees =
     (case callees of None \<Rightarrow> Ok ()
      | Some cs \<Rightarrow>
          if cs = map fst (filter (\<lambda>(i, b). has_caller S (cd_index cd) b) (cd_blobs cd)) then Ok ()
          else Err ''Blob callees do not match actual callees'')"

definition check_caller_callees ::
  "SdkEnv \<Rightarrow> Calldata \<Rightarrow> 'a StructuredBlob \<Rightarrow> (Identity, string) Result" where
  "check_caller_callees S cd parameters =
     and_then (check_callees S cd (sd_callees (sb_data parameters))) (\<lambda>_.
       (case sd_caller (sb_data parameters) of
          Some caller_index \<Rightarrow>
            if caller_index = cd_index cd then Err ''Self-reference as callee is forbidden''
            else
              (case IndexedBlobs_get (cd_blobs cd) caller_index of
                 None \<Rightarrow> Err (''Caller index '' @ show_nat caller_index @ '' not found in blobs'')
               | Some caller_blob \<Rightarrow>
                   (case DropEndOfReader_try_from S (b_data caller_blob) of
                      None \<Rightarrow> Err (''Could not parse blob '' @ show_nat caller_index @ '' as a StructuredBlob'')
                    | Some sd \<Rightarrow>
                        (case sd_callees sd of
                           None \<Rightarrow> Err ''Caller does not have any callees''
                         | Some caller_callees \<Rightarrow>
                             if cd_index cd \<in> set caller_callees then Ok (b_contract_name caller_blob)
                             else Err ''Incorrect Caller for this blob'')))
        | None \<Rightarrow>
            if list_ex (\<lambda>(_, b). claims_callee S (cd_index cd) b) (cd_blobs cd) then
              Err ''Blob has no caller but another blob claims it as a callee''
            else Ok (cd_identity cd)))"

subsection \<open>Calldata\<close>

definition parse_raw_calldata :: "'a reader \<Rightarrow> Calldata \<Rightarrow> ('a \<times> ExecutionContext, string) Result" where
  "parse_raw_calldata rd cd =
     (case IndexedBlobs_get (cd_blobs cd) (cd_index cd) of
        None \<Rightarrow> Err (''Could not find Blob at index '' @ show_nat (cd_index cd))
      | Some b \<Rightarrow>
          (case from_slice rd (b_data b) of
             None \<Rightarrow> Err (''Could not deserialize Blob at index '' @ show_nat (cd_index cd))
           | Some parameters \<Rightarrow>
               Ok (parameters, ExecutionContext_new (cd_identity cd) (b_contract_name b))))"

definition parse_blob :: "'a reader \<Rightarrow> Blob list \<Rightarrow> BlobIndex \<Rightarrow> 'a option" where
  "parse_blob rd bs index = (if index < length bs then from_slice rd (b_data (bs ! index)) else None)"

definition parse_structured_blob :: "SdkEnv \<Rightarrow> 'a reader \<Rightarrow> IndexedBlobs \<Rightarrow> BlobIndex \<Rightarrow> 'a StructuredBlob option" where
  "parse_structured_blob S rd bs index =
     (case IndexedBlobs_get bs index of None \<Rightarrow> None | Some b \<Rightarrow> StructuredBlob_try_from S rd b)"

definition parse_calldata :: "SdkEnv \<Rightarrow> 'a reader \<Rightarrow> Calldata \<Rightarrow> ('a \<times> ExecutionContext, string) Result" where
  "parse_calldata S rd cd =
     (case parse_structured_blob S rd (cd_blobs cd) (cd_index cd) of
        None \<Rightarrow> Err ''Failed to parse input blob''
      | Some parsed_blob \<Rightarrow>
          and_then (check_caller_callees S cd parsed_blob) (\<lambda>caller.
            Ok (sd_parameters (sb_data parsed_blob),
                \<lparr>ec_callees_blobs = map snd (filter (\<lambda>(_, b). has_caller S (cd_index cd) b) (cd_blobs cd)),
                 ec_caller = caller,
                 ec_contract_name = sb_contract_name parsed_blob\<rparr>)))"

subsection \<open>Outputs\<close>

type_synonym RunResult = "(bytes \<times> ExecutionContext \<times> OnchainEffect list, string) Result"

definition sdk_fail :: "Calldata \<Rightarrow> StateCommitment \<Rightarrow> string \<Rightarrow> HyleOutput" where
  "sdk_fail cd c message =
     \<lparr>ho_version = 1, ho_initial_state = c, ho_next_state = c, ho_identity = cd_identity cd,
      ho_index = cd_index cd, ho_blobs = cd_blobs cd, ho_tx_blob_count = cd_tx_blob_count cd,
      ho_tx_hash = cd_tx_hash cd, ho_success = False, ho_state_reads = [], ho_tx_ctx = cd_tx_ctx cd,
      ho_onchain_effects = [], ho_program_outputs = as_bytes message\<rparr>"

fun as_hyle_output :: "SdkEnv \<Rightarrow> StateCommitment \<Rightarrow> StateCommitment \<Rightarrow> Calldata \<Rightarrow> RunResult \<Rightarrow> HyleOutput" where
  "as_hyle_output S c c' cd (Inr (program_output, ctx, onchain_effects)) =
     (if ec_callees_blobs ctx \<noteq> [] then
        sdk_fail cd c (''Execution context has not been fully consumed '' @ debug_blobs S (ec_callees_blobs ctx))
      else
        \<lparr>ho_version = 1, ho_initial_state = c, ho_next_state = c', ho_identity = cd_identity cd,
         ho_index = cd_index cd, ho_blobs = cd_blobs cd, ho_tx_blob_count = cd_tx_blob_count cd,
         ho_tx_hash = cd_tx_hash cd, ho_success = True, ho_state_reads = [], ho_tx_ctx = cd_tx_ctx cd,
         ho_onchain_effects = onchain_effects, ho_program_outputs = program_output\<rparr>)"
| "as_hyle_output S c c' cd (Inl message) = sdk_fail cd c message"

subsection \<open>Contracts and the guest program\<close>

text \<open>
  The operations of \<open>ZkContract\<close> and \<open>TransactionalZkContract\<close> on a state of type \<open>'s\<close> with
  savepoints of type \<open>'i\<close>. \<open>execute\<close> returns \<open>None\<close> when it panics.
\<close>

record ('s, 'i) ZkContract =
  zk_execute :: "'s \<Rightarrow> Calldata \<Rightarrow> ('s \<times> RunResult) option"
  zk_commit :: "'s \<Rightarrow> StateCommitment"
  zk_initialize :: "'s \<Rightarrow> 's \<times> (unit, string) Result"
  zk_initial_state :: "'s \<Rightarrow> 'i"
  zk_revert :: "'s \<Rightarrow> 'i \<Rightarrow> 's"
  zk_on_success :: "'s \<Rightarrow> 's \<times> StateCommitment"

text \<open>The blanket implementation for contracts that are \<open>FullStateRevert\<close>.\<close>

definition FullStateRevert ::
  "('s \<Rightarrow> Calldata \<Rightarrow> ('s \<times> RunResult) option) \<Rightarrow> ('s \<Rightarrow> StateCommitment) \<Rightarrow> ('s, 's) ZkContract" where
  "FullStateRevert exec commit =
     \<lparr>zk_execute = exec, zk_commit = commit, zk_initialize = (\<lambda>s. (s, Ok ())),
      zk_initial_state = (\<lambda>s. s), zk_revert = (\<lambda>s i. i), zk_on_success = (\<lambda>s. (s, commit s))\<rparr>"

fun guest_loop :: "SdkEnv \<Rightarrow> ('s, 'i) ZkContract \<Rightarrow> 's \<Rightarrow> StateCommitment \<Rightarrow> Calldata list \<Rightarrow> HyleOutput list option" where
  "guest_loop S Z s c [] = Some []"
| "guest_loop S Z s c (cd # cds) =
     (case zk_execute Z s cd of
        None \<Rightarrow> None
      | Some (s1, res) \<Rightarrow>
          (case (case res of Inl e \<Rightarrow> (zk_revert Z s1 (zk_initial_state Z s), c)
                 | Inr r \<Rightarrow> zk_on_success Z s1) of
             (s2, c2) \<Rightarrow> map_option (\<lambda>outs. as_hyle_output S c c2 cd res # outs) (guest_loop S Z s2 c2 cds)))"

definition guest_execute ::
  "SdkEnv \<Rightarrow> (bytes \<Rightarrow> 's option) \<Rightarrow> ('s, 'i) ZkContract \<Rightarrow> bytes \<Rightarrow> Calldata list \<Rightarrow> HyleOutput list option" where
  "guest_execute S dec Z commitment_metadata cds =
     (case dec commitment_metadata of
        None \<Rightarrow> None
      | Some s \<Rightarrow>
          (case zk_initialize Z s of
             (s1, Inl e) \<Rightarrow> Some (map (\<lambda>cd. as_hyle_output S (zk_commit Z s) (zk_commit Z s) cd (Inl e)) cds)
           | (s1, Inr _) \<Rightarrow> guest_loop S Z s1 (zk_commit Z s) cds))"

text \<open>
  \<open>TxExecutorHandler::handle\<close>, which the clients of all contracts but \<open>smt-token\<close> implement with the
  same body: it runs the contract on the local copy of its state and keeps the result.
\<close>

definition executor_handle ::
  "SdkEnv \<Rightarrow> ('s, 'i) ZkContract \<Rightarrow> 's \<Rightarrow> Calldata \<Rightarrow> ('s \<times> HyleOutput) option" where
  "executor_handle S Z s cd =
     (case zk_execute Z s cd of
        None \<Rightarrow> None
      | Some (s', res) \<Rightarrow> Some (s', as_hyle_output S (zk_commit Z s) (zk_commit Z s') cd res))"

subsection \<open>Program ids\<close>

text \<open>\<open>to_u8_array\<close>: eight words of 32 bits as 32 bytes, \<open>(w >> (8 * i)) & 0xFF\<close>.\<close>

definition to_u8_array :: "u32 list \<Rightarrow> bytes" where
  "to_u8_array val =
     concat (map (\<lambda>w. map (\<lambda>i. ucast (and (drop_bit (8 * i) w) 0xFF)) [0, 1, 2, 3]) val)"

definition byte_to_u8 :: "u8 \<Rightarrow> u8" where
  "byte_to_u8 b =
     (if 48 \<le> b \<and> b \<le> 57 then b - 48
      else if 97 \<le> b \<and> b \<le> 102 then b - 97 + 10
      else if 65 \<le> b \<and> b \<le> 70 then b - 65 + 10
      else 0)"

text \<open>\<open>None\<close> is the out of bounds index of a string of fewer than 64 bytes.\<close>

definition str_to_u8 :: "string \<Rightarrow> bytes option" where
  "str_to_u8 s =
     (if length s < 64 then None
      else Some (map (\<lambda>i. or (push_bit 4 (byte_to_u8 (as_bytes s ! (2 * i)))) (byte_to_u8 (as_bytes s ! (2 * i + 1)))) [0..<32]))"

subsection \<open>Callers and callees\<close>

lemma check_caller_callees_Ok:
  "check_caller_callees S cd p = Ok who \<longleftrightarrow>
     check_callees S cd (sd_callees (sb_data p)) = Ok () \<and>
     (case sd_caller (sb_data p) of
        Some i \<Rightarrow> i \<noteq> cd_index cd \<and> (\<exists>b. IndexedBlobs_get (cd_blobs cd) i = Some b \<and>
          claims_callee S (cd_index cd) b \<and> who = b_contract_name b)
      | None \<Rightarrow> who = cd_identity cd \<and> (\<forall>(i, b) \<in> set (cd_blobs cd). \<not> claims_callee S (cd_index cd) b))"
proof (cases "sd_caller (sb_data p)")
  case None
  then show ?thesis by (auto simp: check_caller_callees_def ok_simps list_ex_iff)
next
  case (Some i)
  then show ?thesis
    by (auto simp: check_caller_callees_def claims_callee_def ok_simps split: option.splits if_splits)
qed

lemma is_in_callee_blobs_Ok:
  "is_in_callee_blobs S rd ctx c a = (ctx', Ok ()) \<longleftrightarrow>
     (\<exists>i. position (calls S rd c a) (ec_callees_blobs ctx) = Some i \<and>
        ctx' = ctx\<lparr>ec_callees_blobs := vec_remove (ec_callees_blobs ctx) i\<rparr>)"
  by (auto simp: is_in_callee_blobs_def split: option.splits)

lemma is_in_callee_blobs_consumes:
  assumes "is_in_callee_blobs S rd ctx c a = (ctx', Ok ())"
  obtains pre b post where "ec_callees_blobs ctx = pre @ b # post" "calls S rd c a b"
    "ctx' = ctx\<lparr>ec_callees_blobs := pre @ post\<rparr>"
  using assms by (auto simp: is_in_callee_blobs_Ok position_Some vec_remove_def dest: vec_remove_split)


subsection \<open>Outputs of the guest program\<close>

text \<open>What the node checks an output against.\<close>

definition answers :: "Calldata \<Rightarrow> HyleOutput \<Rightarrow> bool" where
  "answers cd ho \<longleftrightarrow> ho_identity ho = cd_identity cd \<and> ho_index ho = cd_index cd \<and>
     ho_blobs ho = cd_blobs cd \<and> ho_tx_hash ho = cd_tx_hash cd \<and> ho_tx_ctx ho = cd_tx_ctx cd \<and>
     ho_tx_blob_count ho = cd_tx_blob_count cd \<and> ho_state_reads ho = [] \<and>
     ho_version ho = 1"

text \<open>Each output starts where the previous one ended.\<close>

fun chained :: "StateCommitment \<Rightarrow> HyleOutput list \<Rightarrow> bool" where
  "chained c [] = True"
| "chained c (ho # hos) = (ho_initial_state ho = c \<and> chained (ho_next_state ho) hos)"

lemma as_hyle_output_answers [simp]: "answers cd (as_hyle_output S c c' cd res)"
  by (cases res) (auto simp: answers_def sdk_fail_def)

lemma as_hyle_output_initial [simp]: "ho_initial_state (as_hyle_output S c c' cd res) = c"
  by (cases res) (auto simp: sdk_fail_def)

lemma as_hyle_output_failed:
  "\<not> ho_success (as_hyle_output S c c' cd res) \<Longrightarrow>
     ho_next_state (as_hyle_output S c c' cd res) = c \<and> ho_onchain_effects (as_hyle_output S c c' cd res) = []"
  by (cases res) (auto simp: sdk_fail_def)

lemma as_hyle_output_success:
  assumes "ho_success (as_hyle_output S c c' cd res)"
  obtains ctx where "res = Ok (ho_program_outputs (as_hyle_output S c c' cd res), ctx,
      ho_onchain_effects (as_hyle_output S c c' cd res))" "ec_callees_blobs ctx = []"
    "ho_next_state (as_hyle_output S c c' cd res) = c'"
  using assms by (cases res) (auto simp: sdk_fail_def split: if_splits)

text \<open>The guest program returns when no run of the contract panics.\<close>

lemma guest_loop_total:
  assumes "\<And>s cd. zk_execute Z s cd \<noteq> None"
  shows "\<exists>outs. guest_loop S Z s c cds = Some outs"
proof (induction cds arbitrary: s c)
  case (Cons cd cds)
  obtain s1 res where run: "zk_execute Z s cd = Some (s1, res)" using assms [of s cd] by auto
  obtain s2 c2 where "(case res of Inl e \<Rightarrow> (zk_revert Z s1 (zk_initial_state Z s), c) | Inr r \<Rightarrow> zk_on_success Z s1) = (s2, c2)"
    by force
  moreover obtain outs where "guest_loop S Z s2 c2 cds = Some outs" using Cons.IH by blast
  ultimately show ?case using run by (simp del: split_paired_Ex)
qed simp

text \<open>
  A client predicts the proof: for a contract that reverts its whole state, the output
  of the handler of the client is the output the guest program proves for the same call.
\<close>

theorem executor_predicts_guest:
  "guest_execute S dec (FullStateRevert exec commit) metadata [cd] =
     (case dec metadata of None \<Rightarrow> None
      | Some s \<Rightarrow> map_option (\<lambda>(s', ho). [ho]) (executor_handle S (FullStateRevert exec commit) s cd))"
proof (cases "dec metadata")
  case (Some s)
  then show ?thesis
    by (auto simp: guest_execute_def executor_handle_def FullStateRevert_def split: option.split sum.split)
qed (simp add: guest_execute_def)

text \<open>
  The laws of a contract: a state reached by a successful run satisfies the invariant, a failed
  run is undone up to the commitment, and the commitment returned on success is that of the state.
\<close>

locale zk_contract =
  fixes Z :: "('s, 'i) ZkContract" and inv :: "'s \<Rightarrow> bool"
  assumes execute_inv: "inv s \<Longrightarrow> zk_execute Z s cd = Some (s', Ok r) \<Longrightarrow> inv s'"
    and revert_inv: "inv s \<Longrightarrow> zk_execute Z s cd = Some (s', Err e) \<Longrightarrow> inv (zk_revert Z s' (zk_initial_state Z s))"
    and revert_commit: "inv s \<Longrightarrow> zk_execute Z s cd = Some (s', Err e) \<Longrightarrow>
      zk_commit Z (zk_revert Z s' (zk_initial_state Z s)) = zk_commit Z s"
    and success_inv: "inv s \<Longrightarrow> inv (fst (zk_on_success Z s))"
    and success_commit: "inv s \<Longrightarrow> zk_commit Z (fst (zk_on_success Z s)) = snd (zk_on_success Z s)"
begin

text \<open>What one output says: it answers its calldata and proves a step of the contract.\<close>

definition proves :: "Calldata \<Rightarrow> HyleOutput \<Rightarrow> bool" where
  "proves cd ho \<longleftrightarrow> answers cd ho \<and>
     (\<exists>s s' res. inv s \<and> zk_execute Z s cd = Some (s', res) \<and> ho_initial_state ho = zk_commit Z s \<and>
        (if ho_success ho then
           (\<exists>ctx. res = Ok (ho_program_outputs ho, ctx, ho_onchain_effects ho) \<and> ec_callees_blobs ctx = []) \<and>
           ho_next_state ho = snd (zk_on_success Z s')
         else ho_next_state ho = ho_initial_state ho \<and> ho_onchain_effects ho = []))"

lemma proves_step:
  assumes "inv s" and "zk_execute Z s cd = Some (s', res)" and "is_ok res \<Longrightarrow> c' = snd (zk_on_success Z s')"
  shows "proves cd (as_hyle_output S (zk_commit Z s) c' cd res)"
proof (cases "ho_success (as_hyle_output S (zk_commit Z s) c' cd res)")
  case True
  then show ?thesis
    by (rule as_hyle_output_success) (use assms True in \<open>auto simp: proves_def ok_simps\<close>)
next
  case False
  with assms show ?thesis
    by (auto simp: proves_def dest: as_hyle_output_failed)
qed

lemma guest_loop_step:
  assumes "guest_loop S Z s (zk_commit Z s) (cd # cds) = Some outs" and "inv s"
  obtains s1 res s2 outs' where "zk_execute Z s cd = Some (s1, res)" "inv s2"
    "guest_loop S Z s2 (zk_commit Z s2) cds = Some outs'"
    "outs = as_hyle_output S (zk_commit Z s) (zk_commit Z s2) cd res # outs'"
    "is_ok res \<longrightarrow> zk_commit Z s2 = snd (zk_on_success Z s1)"
    "\<not> is_ok res \<longrightarrow> zk_commit Z s2 = zk_commit Z s"
proof -
  obtain s1 res where run: "zk_execute Z s cd = Some (s1, res)"
    using assms(1) by (auto split: option.split_asm)
  show ?thesis
  proof (cases res)
    case (Inl e)
    let ?s2 = "zk_revert Z s1 (zk_initial_state Z s)"
    from run Inl have "inv ?s2" "zk_commit Z ?s2 = zk_commit Z s"
      using revert_inv revert_commit assms(2) by blast+
    with run Inl assms that [of s1 res ?s2] show ?thesis by auto
  next
    case (Inr r)
    have inv1: "inv s1" using execute_inv assms(2) run Inr by blast
    obtain s2 c2 where ok: "zk_on_success Z s1 = (s2, c2)" by force
    have "inv s2" "zk_commit Z s2 = c2"
      using success_inv [OF inv1] success_commit [OF inv1] ok by simp_all
    with run Inr ok assms that [of s1 res s2] show ?thesis by auto
  qed
qed

lemma guest_loop_proves:
  assumes "guest_loop S Z s (zk_commit Z s) cds = Some outs" and "inv s"
  shows "list_all2 proves cds outs"
  using assms
proof (induction cds arbitrary: s outs)
  case (Cons cd cds)
  from Cons.prems obtain s1 res s2 outs' where step: "zk_execute Z s cd = Some (s1, res)" "inv s2"
      "guest_loop S Z s2 (zk_commit Z s2) cds = Some outs'"
      "outs = as_hyle_output S (zk_commit Z s) (zk_commit Z s2) cd res # outs'"
      "is_ok res \<longrightarrow> zk_commit Z s2 = snd (zk_on_success Z s1)" "\<not> is_ok res \<longrightarrow> zk_commit Z s2 = zk_commit Z s"
    by (rule guest_loop_step)
  have "proves cd (as_hyle_output S (zk_commit Z s) (zk_commit Z s2) cd res)"
    using Cons.prems(2) step(1,5) by (intro proves_step) auto
  with Cons.IH [OF step(3,2)] step(4) show ?case by simp
qed simp

lemma guest_loop_chained:
  assumes "guest_loop S Z s (zk_commit Z s) cds = Some outs" and "inv s"
    and "\<And>s cd s' out ctx eff. cd \<in> set cds \<Longrightarrow> zk_execute Z s cd = Some (s', Ok (out, ctx, eff)) \<Longrightarrow>
      ec_callees_blobs ctx = []"
  shows "chained (zk_commit Z s) outs"
  using assms
proof (induction cds arbitrary: s outs)
  case (Cons cd cds)
  from Cons.prems(1,2) obtain s1 res s2 outs' where step: "zk_execute Z s cd = Some (s1, res)" "inv s2"
      "guest_loop S Z s2 (zk_commit Z s2) cds = Some outs'"
      "outs = as_hyle_output S (zk_commit Z s) (zk_commit Z s2) cd res # outs'"
      "is_ok res \<longrightarrow> zk_commit Z s2 = snd (zk_on_success Z s1)" "\<not> is_ok res \<longrightarrow> zk_commit Z s2 = zk_commit Z s"
    by (rule guest_loop_step)
  have "ho_next_state (as_hyle_output S (zk_commit Z s) (zk_commit Z s2) cd res) = zk_commit Z s2"
  proof (cases res)
    case (Inl e)
    with step(6) show ?thesis by (simp add: sdk_fail_def)
  next
    case (Inr r)
    with Cons.prems(3) [of cd] step(1) show ?thesis by (cases r) auto
  qed
  moreover have "chained (zk_commit Z s2) outs'"
    using step(3,2) by (rule Cons.IH) (rule Cons.prems(3), simp_all)
  ultimately show ?case using step(4) by simp
qed simp

end

text \<open>
  A contract that reverts its whole state only has to keep its invariant on success. Each output
  of the guest program then leads from the commitment of a good state to that of another one.
\<close>

locale full_revert =
  fixes exec :: "'s \<Rightarrow> Calldata \<Rightarrow> ('s \<times> RunResult) option" and commit :: "'s \<Rightarrow> StateCommitment"
    and good :: "'s \<Rightarrow> bool"
  assumes exec_good: "good s \<Longrightarrow> exec s cd = Some (s', Ok r) \<Longrightarrow> good s'"

sublocale full_revert \<subseteq> fsr: zk_contract "FullStateRevert exec commit" good
  by unfold_locales (use exec_good in \<open>auto simp: FullStateRevert_def\<close>)

context full_revert
begin

definition honest :: "Calldata \<Rightarrow> HyleOutput \<Rightarrow> bool" where
  "honest cd ho \<longleftrightarrow> answers cd ho \<and>
     (\<exists>s s'. good s \<and> good s' \<and> ho_initial_state ho = commit s \<and> ho_next_state ho = commit s' \<and>
        (if ho_success ho then
           \<exists>ctx. exec s cd = Some (s', Ok (ho_program_outputs ho, ctx, ho_onchain_effects ho)) \<and> ec_callees_blobs ctx = []
         else s' = s \<and> ho_onchain_effects ho = []))"

lemma proves_honest:
  assumes "fsr.proves cd ho"
  shows "honest cd ho"
proof -
  obtain s s' res where run: "answers cd ho" "good s" "exec s cd = Some (s', res)" "ho_initial_state ho = commit s"
      "if ho_success ho then
         (\<exists>ctx. res = Ok (ho_program_outputs ho, ctx, ho_onchain_effects ho) \<and> ec_callees_blobs ctx = []) \<and>
         ho_next_state ho = commit s'
       else ho_next_state ho = ho_initial_state ho \<and> ho_onchain_effects ho = []"
    using assms unfolding fsr.proves_def by (auto simp: FullStateRevert_def)
  show ?thesis
  proof (cases "ho_success ho")
    case True
    with run exec_good have "good s'" by auto
    with run True show ?thesis unfolding honest_def by auto
  next
    case False
    with run show ?thesis unfolding honest_def by auto
  qed
qed

lemma guest_execute_honest:
  assumes "guest_execute S dec (FullStateRevert exec commit) metadata cds = Some outs"
    and "dec metadata = Some s" and "good s"
  shows "list_all2 honest cds outs"
proof -
  have "guest_loop S (FullStateRevert exec commit) s (zk_commit (FullStateRevert exec commit) s) cds = Some outs"
    using assms(1,2) by (simp add: guest_execute_def FullStateRevert_def)
  then have "list_all2 fsr.proves cds outs"
    using assms(3) by (rule fsr.guest_loop_proves)
  then show ?thesis by (rule list_all2_mono) (rule proves_honest)
qed

end

subsection \<open>Program ids as hexadecimal text\<close>

definition hex_digit :: "u8 \<Rightarrow> char" where
  "hex_digit d = char_of (if unat d < 10 then 48 + unat d else 87 + unat d)"

definition hex_text :: "bytes \<Rightarrow> string" where
  "hex_text bs = concat (map (\<lambda>b. [hex_digit (drop_bit 4 b), hex_digit (and b 15)]) bs)"

lemma of_char_hex_digit:
  assumes "d < 16"
  shows "(of_char (hex_digit d) :: u8) = word_of_nat (if unat d < 10 then 48 + unat d else 87 + unat d)"
proof -
  have "unat d < 16" using assms by (simp add: word_less_nat_alt)
  then have eq: "(of_char (hex_digit d) :: nat) = (if unat d < 10 then 48 + unat d else 87 + unat d)"
    by (simp add: hex_digit_def)
  from arg_cong [OF eq, of "of_nat :: nat \<Rightarrow> u8"] show ?thesis by (simp only: of_nat_of_char)
qed

lemma byte_to_u8_hex_digit:
  assumes "d < 16"
  shows "byte_to_u8 (of_char (hex_digit d)) = d"
proof -
  define n where "n = unat d"
  have n: "n < 16" using assms by (simp add: n_def word_less_nat_alt)
  have d: "word_of_nat n = d" by (simp add: n_def)
  show ?thesis
  proof (cases "n < 10")
    case True
    have "unat (word_of_nat (48 + n) :: u8) = 48 + n" using n by (simp only: unat_of_nat) simp
    with True d show ?thesis
      unfolding of_char_hex_digit [OF assms] n_def [symmetric] by (simp add: byte_to_u8_def word_le_nat_alt)
  next
    case False
    have "unat (word_of_nat (87 + n) :: u8) = 87 + n" using n by (simp only: unat_of_nat) simp
    with False n d show ?thesis
      unfolding of_char_hex_digit [OF assms] n_def [symmetric] by (simp add: byte_to_u8_def word_le_nat_alt)
  qed
qed

lemma and_15: "and (b :: u8) 15 = take_bit 4 b"
  by (simp add: take_bit_eq_mask mask_eq_decr_exp)

lemma nibbles_less: "drop_bit 4 (b :: u8) < 16" "take_bit 4 (b :: u8) < 16"
proof -
  have "unat b < 256" using unsigned_less [of b] by simp
  moreover have "unat (drop_bit 4 b) = unat b div 16"
    unfolding unat_drop_bit_eq by (simp add: drop_bit_eq_div)
  ultimately show "drop_bit 4 b < 16"
    by (simp add: word_less_nat_alt)
  show "take_bit 4 b < 16"
    unfolding word_less_nat_alt unsigned_take_bit_eq by (simp add: take_bit_eq_mod)
qed

lemma nibbles_or: "or (push_bit 4 (drop_bit 4 b)) (take_bit 4 b) = (b :: u8)"
  by (rule bit_word_eqI) (auto simp: bit_simps)

lemma length_hex_text [simp]: "length (hex_text bs) = 2 * length bs"
  by (induction bs) (simp_all add: hex_text_def)

lemma hex_text_nth:
  "i < length bs \<Longrightarrow> hex_text bs ! (2 * i) = hex_digit (drop_bit 4 (bs ! i)) \<and>
     hex_text bs ! (2 * i + 1) = hex_digit (and (bs ! i) 15)"
proof (induction bs arbitrary: i)
  case (Cons b bs)
  then show ?case by (cases i) (auto simp: hex_text_def)
qed simp

lemma to_u8_array_word:
  assumes "i < 4"
  shows "(ucast (and (drop_bit (8 * i) w) 0xFF) :: u8) = word_of_nat (unat (w :: u32) div 256 ^ i)"
proof -
  have byte: "and (drop_bit (8 * i) w) 0xFF = take_bit 8 (drop_bit (8 * i) w)"
    by (simp add: take_bit_eq_mask mask_eq_decr_exp)
  have "unat (drop_bit (8 * i) w) = unat w div 256 ^ i"
    unfolding unat_drop_bit_eq by (simp add: drop_bit_eq_div power_mult)
  then have "unat (ucast (take_bit 8 (drop_bit (8 * i) w)) :: u8) = unat w div 256 ^ i mod 256"
    by (simp only: unsigned_ucast_eq unsigned_take_bit_eq) (simp add: take_bit_eq_mod)
  then show ?thesis
    unfolding byte word_unat_eq_iff by (simp add: unat_of_nat)
qed

text \<open>
  Reading back the hexadecimal text of a program id of 32 bytes gives the program id.
\<close>

theorem str_to_u8_hex:
  assumes "length bs = 32"
  shows "str_to_u8 (hex_text bs) = Some bs"
proof -
  let ?f = "\<lambda>i. or (push_bit 4 (byte_to_u8 (as_bytes (hex_text bs) ! (2 * i))))
      (byte_to_u8 (as_bytes (hex_text bs) ! (2 * i + 1)))"
  have "map ?f [0..<32] = bs"
  proof (rule nth_equalityI)
    fix i
    assume "i < length (map ?f [0..<32])"
    then have i: "i < 32" by simp
    then have "as_bytes (hex_text bs) ! (2 * i) = of_char (hex_digit (drop_bit 4 (bs ! i)))"
      "as_bytes (hex_text bs) ! (2 * i + 1) = of_char (hex_digit (take_bit 4 (bs ! i)))"
      using assms hex_text_nth [of i bs] by (simp_all add: as_bytes_def and_15)
    then have "?f i = bs ! i"
      by (simp only: byte_to_u8_hex_digit nibbles_less nibbles_or)
    with i show "map ?f [0..<32] ! i = bs ! i" by simp
  qed (use assms in simp)
  then show ?thesis using assms by (simp add: str_to_u8_def)
qed

theorem str_to_u8_hex_witness: "str_to_u8 (hex_text (replicate 32 171)) = Some (replicate 32 171)"
  by (rule str_to_u8_hex) simp

text \<open>
  The 32 bytes of a program id given as eight words are the little-endian bytes of the words.
\<close>

theorem to_u8_array_le: "to_u8_array ws = concat (map (\<lambda>w. to_le_bytes 4 (unat w)) ws)"
proof -
  have "[0..<4] = [0, 1, 2, 3::nat]" by (simp add: upt_rec)
  then have "map (\<lambda>i. ucast (and (drop_bit (8 * i) w) 0xFF)) [0, 1, 2, 3] = to_le_bytes 4 (unat w)" for w :: u32
    unfolding to_le_bytes_def using to_u8_array_word [of 0 w] to_u8_array_word [of 1 w]
      to_u8_array_word [of 2 w] to_u8_array_word [of 3 w] by simp
  then show ?thesis by (simp only: to_u8_array_def)
qed

subsection \<open>A sample transaction\<close>

text \<open>
  Readers for which one byte is the tag of an option and one byte an index, and a transaction in
  which blob 0, of the contract \<open>amm\<close>, calls blob 1, of the contract \<open>tok\<close>.
\<close>

definition sample_sdk :: SdkEnv where
  "sample_sdk =
     \<lparr>rd_caller = (\<lambda>d. case d of [] \<Rightarrow> None | t # r \<Rightarrow>
        if t = 0 then Some (None, r) else (case r of [] \<Rightarrow> None | i # r' \<Rightarrow> Some (Some (unat i), r'))),
      rd_callees = (\<lambda>d. case d of [] \<Rightarrow> None | t # r \<Rightarrow>
        if t = 0 then Some (None, r) else (case r of [] \<Rightarrow> None | i # r' \<Rightarrow> Some (Some [unat i], r'))),
      debug_blobs = (\<lambda>bs. show_nat (length bs)),
      debug_str = (\<lambda>s. CHR 0x22 # s @ [CHR 0x22])\<rparr>"

lemma sample_sdk_simps [simp]:
  "rd_caller sample_sdk [] = None" "rd_callees sample_sdk [] = None"
  "rd_caller sample_sdk (0 # r) = Some (None, r)" "rd_callees sample_sdk (0 # r) = Some (None, r)"
  "rd_caller sample_sdk (1 # i # r) = Some (Some (unat i), r)"
  "rd_callees sample_sdk (1 # i # r) = Some (Some [unat i], r)"
  by (simp_all add: sample_sdk_def)

definition sample_calldata :: "BlobIndex \<Rightarrow> bytes \<Rightarrow> Calldata" where
  "sample_calldata index parameters =
     \<lparr>cd_tx_hash = ''h'', cd_identity = ''u@id'',
      cd_blobs = [(0, \<lparr>b_contract_name = ''amm'', b_data = [0, 1, 1]\<rparr>),
                  (1, \<lparr>b_contract_name = ''tok'', b_data = [1, 0, 0] @ parameters\<rparr>)],
      cd_tx_blob_count = 2, cd_index = index, cd_tx_ctx = None, cd_private_input = []\<rparr>"

lemmas sdk_eval = parse_calldata_def parse_structured_blob_def StructuredBlob_try_from_def
  IndexedBlobs_get_def from_slice_def StructuredBlobData_read_def StructuredBlobData_drop_def
  DropEndOfReader_try_from_def check_caller_callees_def check_callees_def has_caller_def
  claims_callee_def sample_calldata_def


end
