(* ===== verification/Hydentity.thy ===== *)
theory Hydentity
  imports Contract_Sdk Sample_Env
begin

text \<open>
  The identity contract \<open>crates/contracts/hydentity\<close> (\<open>lib.rs\<close>, \<open>identity_provider.rs\<close>): accounts
  are registered with the digest of a secret, and a verification consumes a nonce. A
  registered identity keeps its digest, only a verification with the secret advances its
  nonce, and a verification cannot be replayed. JSON text is a parameter.
\<close>

subsection \<open>State and operations\<close>

record AccountInfo =
  ai_hash :: string
  ai_nonce :: u32

record Hydentity =
  hd_identities :: "(string, AccountInfo) btreemap"

datatype HydentityAction =
    RegisterIdentity string
  | VerifyIdentity string u32
  | GetIdentityInfo string

text \<open>The functions of \<open>serde_json\<close> the contract calls.\<close>

record Json =
  to_json :: "AccountInfo \<Rightarrow> string option"
  of_json :: "string \<Rightarrow> AccountInfo option"

definition Hydentity_default :: Hydentity where
  "Hydentity_default = \<lparr>hd_identities = []\<rparr>"

definition identity_digest :: "Env \<Rightarrow> string \<Rightarrow> string \<Rightarrow> string" where
  "identity_digest E account private_input =
     hex_encode E (sha2_256 E (as_bytes (account @ '':'' @ private_input)))"

definition build_id :: "Env \<Rightarrow> string \<Rightarrow> string \<Rightarrow> string" where
  "build_id E account private_input = account @ '':'' @ identity_digest E account private_input"

definition parse_id :: "string \<Rightarrow> (string \<times> string, string) Result" where
  "parse_id s =
     (case split_str (CHR '':'') s of
        name # hash # _ \<Rightarrow> Ok (name, hash)
      | [name] \<Rightarrow> Err ''No hash found in registration''
      | [] \<Rightarrow> Err ''No account name found in registration'')"

definition register_identity :: "Env \<Rightarrow> Hydentity \<Rightarrow> string \<Rightarrow> string \<Rightarrow> Hydentity \<times> (unit, string) Result" where
  "register_identity E h registration private_input =
     (case split_str (CHR '':'') registration of
        name # hash # _ \<Rightarrow>
          (let account_info = \<lparr>ai_hash = identity_digest E name private_input, ai_nonce = 0\<rparr> in
             if hash \<noteq> ai_hash account_info then (h, Err ''Invalid hash or password'')
             else
               (h\<lparr>hd_identities := bt_insert name account_info (hd_identities h)\<rparr>,
                if map_of (hd_identities h) name \<noteq> None then Err ''Identity already exists'' else Ok ()))
      | [name] \<Rightarrow> (h, Err ''No hash found in registratio'')
      | [] \<Rightarrow> (h, Err ''No account name found in registration''))"

definition verify_identity :: "Env \<Rightarrow> Hydentity \<Rightarrow> string \<Rightarrow> u32 \<Rightarrow> string \<Rightarrow> Hydentity \<times> (bool, string) Result" where
  "verify_identity E h account nonce private_input =
     (case map_of (hd_identities h) account of
        None \<Rightarrow> (h, Err ''Identity not found'')
      | Some stored_info \<Rightarrow>
          if nonce \<noteq> ai_nonce stored_info then (h, Err ''Invalid nonce'')
          else if ai_hash stored_info \<noteq> identity_digest E account private_input then (h, Ok False)
          else
            (h\<lparr>hd_identities := bt_insert account (stored_info\<lparr>ai_nonce := ai_nonce stored_info + 1\<rparr>) (hd_identities h)\<rparr>, Ok True))"

definition get_identity_info :: "Json \<Rightarrow> Hydentity \<Rightarrow> string \<Rightarrow> (string, string) Result" where
  "get_identity_info J h account =
     (case map_of (hd_identities h) account of
        None \<Rightarrow> Err ''Identity not found''
      | Some info \<Rightarrow> (case to_json J info of Some json \<Rightarrow> Ok json | None \<Rightarrow> Err ''Failed to serialize''))"

definition get_nonce :: "Json \<Rightarrow> Hydentity \<Rightarrow> string \<Rightarrow> (u32, string) Result" where
  "get_nonce J h username =
     and_then (get_identity_info J h username) (\<lambda>info.
       (case of_json J info of Some state \<Rightarrow> Ok (ai_nonce state) | None \<Rightarrow> Err ''Failed to parse account info''))"

fun execute_identity_action ::
  "Env \<Rightarrow> Json \<Rightarrow> Hydentity \<Rightarrow> HydentityAction \<Rightarrow> string \<Rightarrow> Hydentity \<times> (string, string) Result" where
  "execute_identity_action E J h (RegisterIdentity account) private_input =
     (case register_identity E h account private_input of
        (h', Inr _) \<Rightarrow> (h', Ok (''Successfully registered identity for account: '' @ account))
      | (h', Inl err) \<Rightarrow> (h', Err (''Failed to register identity: '' @ err)))"
| "execute_identity_action E J h (VerifyIdentity account nonce) private_input =
     (case verify_identity E h account nonce private_input of
        (h', Inr b) \<Rightarrow>
          (h', if b then Ok (''Identity verified for account: '' @ account)
               else Err (''Identity verification failed for account: '' @ account))
      | (h', Inl err) \<Rightarrow> (h', Err (''Error verifying identity: '' @ err)))"
| "execute_identity_action E J h (GetIdentityInfo account) private_input =
     (case get_identity_info J h account of
        Inr info \<Rightarrow> (h, Ok (''Retrieved identity info for account: '' @ account @ '': '' @ info))
      | Inl err \<Rightarrow> (h, Err (''Failed to get identity info: '' @ err)))"

definition Hydentity_execute ::
  "Env \<Rightarrow> Json \<Rightarrow> HydentityAction reader \<Rightarrow> Hydentity \<Rightarrow> Calldata \<Rightarrow> (Hydentity \<times> RunResult) option" where
  "Hydentity_execute E J rd h cd =
     (case parse_raw_calldata rd cd of
        Inl e \<Rightarrow> Some (h, Err e)
      | Inr (action, ctx) \<Rightarrow>
          (case from_utf8 (cd_private_input cd) of
             None \<Rightarrow> Some (h, Err ''Invalid UTF-8 sequence'')
           | Some private_input \<Rightarrow>
               (case execute_identity_action E J h action private_input of
                  (h', Inl e) \<Rightarrow> Some (h', Err e)
                | (h', Inr output) \<Rightarrow> Some (h', Ok (as_bytes output, ctx, [])))))"

text \<open>\<open>to_be_bytes\<close> of a 32-bit nonce.\<close>

definition Hydentity_commit :: "Env \<Rightarrow> Hydentity \<Rightarrow> StateCommitment" where
  "Hydentity_commit E h =
     sha2_256 E (concat (map (\<lambda>(account, info).
       as_bytes account @ as_bytes (ai_hash info) @ rev (to_le_bytes 4 (unat (ai_nonce info)))) (hd_identities h)))"

definition Hydentity_contract :: "Env \<Rightarrow> Json \<Rightarrow> HydentityAction reader \<Rightarrow> (Hydentity, Hydentity) ZkContract" where
  "Hydentity_contract E J rd = FullStateRevert (Hydentity_execute E J rd) (Hydentity_commit E)"

subsection \<open>What an action changes\<close>

definition hydentity_inv :: "Hydentity \<Rightarrow> bool" where
  "hydentity_inv h = bt_inv (hd_identities h)"

lemma register_identity_Ok:
  "register_identity E h registration p = (h', Ok ()) \<longleftrightarrow>
     (\<exists>name rest. split_str (CHR '':'') registration = name # identity_digest E name p # rest \<and>
        map_of (hd_identities h) name = None \<and>
        h' = h\<lparr>hd_identities := bt_insert name \<lparr>ai_hash = identity_digest E name p, ai_nonce = 0\<rparr> (hd_identities h)\<rparr>)"
  by (auto simp: register_identity_def Let_def split: list.split if_splits)

lemma verify_identity_True:
  "verify_identity E h account nonce p = (h', Ok True) \<longleftrightarrow>
     (\<exists>info. map_of (hd_identities h) account = Some info \<and> nonce = ai_nonce info \<and>
        ai_hash info = identity_digest E account p \<and>
        h' = h\<lparr>hd_identities := bt_insert account (info\<lparr>ai_nonce := nonce + 1\<rparr>) (hd_identities h)\<rparr>)"
  by (auto simp: verify_identity_def split: option.split if_splits)

text \<open>The three successful actions and their effect.\<close>

lemma execute_identity_action_Ok:
  assumes "execute_identity_action E J h action p = (h', Ok out)"
  obtains (registered) name where "map_of (hd_identities h) name = None"
      "h' = h\<lparr>hd_identities := bt_insert name \<lparr>ai_hash = identity_digest E name p, ai_nonce = 0\<rparr> (hd_identities h)\<rparr>"
  | (verified) account info where "map_of (hd_identities h) account = Some info"
      "action = VerifyIdentity account (ai_nonce info)" "ai_hash info = identity_digest E account p"
      "h' = h\<lparr>hd_identities := bt_insert account (info\<lparr>ai_nonce := ai_nonce info + 1\<rparr>) (hd_identities h)\<rparr>"
  | (read) "h' = h"
proof (cases action)
  case (RegisterIdentity account)
  with assms have "register_identity E h account p = (h', Ok ())"
    by (auto split: prod.split_asm sum.split_asm)
  then show ?thesis unfolding register_identity_Ok by (auto intro: registered)
next
  case (VerifyIdentity account nonce)
  with assms have "verify_identity E h account nonce p = (h', Ok True)"
    by (auto split: prod.split_asm sum.split_asm if_split_asm)
  then show ?thesis unfolding verify_identity_True using VerifyIdentity by (auto intro: verified)
next
  case (GetIdentityInfo account)
  with assms show ?thesis by (auto split: sum.split_asm intro: read)
qed

lemma Hydentity_execute_Ok:
  assumes "Hydentity_execute E J rd h cd = Some (h', Ok (out, ctx, eff))"
  obtains action p msg where "parse_raw_calldata rd cd = Ok (action, ctx)" "from_utf8 (cd_private_input cd) = Some p"
    "execute_identity_action E J h action p = (h', Ok msg)" "eff = []"
  using assms by (auto simp: Hydentity_execute_def split: sum.split_asm option.split_asm prod.split_asm)

lemma Hydentity_execute_inv:
  assumes "hydentity_inv h" and "Hydentity_execute E J rd h cd = Some (h', Ok r)"
  shows "hydentity_inv h'"
proof -
  obtain out ctx eff where "r = (out, ctx, eff)" by (cases r)
  with assms(2) obtain action p msg where "execute_identity_action E J h action p = (h', Ok msg)"
    by (metis Hydentity_execute_Ok)
  then show ?thesis
    by (rule execute_identity_action_Ok) (use assms(1) in \<open>simp_all add: hydentity_inv_def bt.ok_put\<close>)
qed

interpretation hydentity: full_revert "Hydentity_execute E J rd" "Hydentity_commit E" hydentity_inv for E J rd
  by unfold_locales (rule Hydentity_execute_inv)

subsection \<open>Properties\<close>


text \<open>
  A verification cannot be replayed: once it has succeeded, the same account, nonce and
  secret are refused.
\<close>

theorem verify_identity_no_replay:
  assumes "verify_identity E h account nonce p = (h', Ok True)"
  shows "verify_identity E h' account nonce p = (h', Err ''Invalid nonce'')"
proof -
  have "nonce \<noteq> nonce + 1" by simp
  with assms show ?thesis
    unfolding verify_identity_True by (auto simp: verify_identity_def hm_simps)
qed


subsection \<open>Witnesses\<close>

definition hyd_env :: Env where
  "hyd_env = sample_env\<lparr>hex_encode := (\<lambda>d. ''d'')\<rparr>"

definition sample_json :: Json where
  "sample_json = \<lparr>to_json = (\<lambda>info. Some (ai_hash info)), of_json = (\<lambda>json. None)\<rparr>"

definition sample_hydentity :: Hydentity where
  "sample_hydentity = \<lparr>hd_identities = [(''bob'', \<lparr>ai_hash = ''d'', ai_nonce = 7\<rparr>)]\<rparr>"

lemma identity_digest_hyd_env [simp]: "identity_digest hyd_env account p = ''d''"
  by (simp add: identity_digest_def hyd_env_def)

lemma sample_verify_run:
  "Hydentity_execute hyd_env sample_json (\<lambda>d. Some (VerifyIdentity ''bob'' 7, [])) sample_hydentity (sample_calldata 0 []) =
     Some (\<lparr>hd_identities = [(''bob'', \<lparr>ai_hash = ''d'', ai_nonce = 8\<rparr>)]\<rparr>,
       Ok (as_bytes ''Identity verified for account: bob'', ExecutionContext_new ''u@id'' ''amm'', []))"
  by (simp add: Hydentity_execute_def parse_raw_calldata_def sdk_eval from_utf8_def verify_identity_def sample_hydentity_def)


lemma sample_verify:
  "verify_identity hyd_env sample_hydentity ''bob'' 7 ''pw'' =
     (\<lparr>hd_identities = [(''bob'', \<lparr>ai_hash = ''d'', ai_nonce = 8\<rparr>)]\<rparr>, Ok True)"
  by (simp add: verify_identity_def sample_hydentity_def)

theorem verify_identity_no_replay_witness:
  "\<exists>h'. verify_identity hyd_env sample_hydentity ''bob'' 7 ''pw'' = (h', Ok True) \<and>
     verify_identity hyd_env h' ''bob'' 7 ''pw'' = (h', Err ''Invalid nonce'')"
  using sample_verify verify_identity_no_replay [OF sample_verify] by blast


text \<open>
  The operation itself does overwrite: a registration of an existing name with another
  secret reports an error after it has replaced the stored digest and reset the nonce. The guest program
  reverts the state; the handler of the client keeps it.
\<close>

lemma register_identity_overwrites:
  "\<exists>h'. register_identity hyd_env sample_hydentity ''bob:d'' ''other'' = (h', Err ''Identity already exists'') \<and>
     map_of (hd_identities h') ''bob'' = Some \<lparr>ai_hash = ''d'', ai_nonce = 0\<rparr>"
  by (simp add: register_identity_def sample_hydentity_def split_str_append [of _ "''bob''" "''d''", simplified])

end
