(* ===== verification/Ledger.thy ===== *)
theory Ledger
  imports Prelude
begin

text \<open>
  Balances in an ordered map, as the token contracts and the fee accounts keep them: the
  statement \<open>*balances.entry(k).or_insert(0) += d\<close> and the sum of all balances as a natural
  number. A transfer between accounts keeps the sum, and as long as the sum fits into 128 bits no
  balance wraps.
\<close>

definition bal :: "('k, u128) btreemap \<Rightarrow> 'k \<Rightarrow> u128" where
  "bal m k = (case map_of m k of None \<Rightarrow> 0 | Some b \<Rightarrow> b)"

definition add_balance :: "'k::linorder \<Rightarrow> u128 \<Rightarrow> ('k, u128) btreemap \<Rightarrow> ('k, u128) btreemap" where
  "add_balance k d m = bt_insert k (bal m k + d) m"

definition total :: "('k, u128) btreemap \<Rightarrow> nat" where
  "total m = sum_list (map (\<lambda>(k, b). unat b) m)"

lemma bal_bt_insert [simp]: "bal (bt_insert k b m) j = (if j = k then b else bal m j)"
  by (simp add: bal_def hm_simps)

lemma bal_add_balance [simp]: "bal (add_balance k d m) j = (if j = k then bal m k + d else bal m j)"
  by (simp add: add_balance_def)

lemma map_of_add_balance [hm_simps]: "map_of (add_balance k d m) = (map_of m)(k \<mapsto> bal m k + d)"
  by (simp add: add_balance_def hm_simps)

lemma bt_inv_add_balance [simp]: "bt_inv m \<Longrightarrow> bt_inv (add_balance k d m)"
  unfolding add_balance_def by (rule bt.ok_put)

lemma total_bt_insert:
  "bt_inv m \<Longrightarrow> total (bt_insert k b m) + unat (bal m k) = total m + unat b"
proof (induction m)
  case (Cons e m)
  obtain j c where e: "e = (j, c)" by (cases e)
  have inv: "bt_inv m" "\<forall>i \<in> fst ` set m. j < i"
    using Cons.prems e by (auto simp: bt_inv_def)
  consider "j < k" | "j = k" | "k < j" by (rule linorder_cases)
  then show ?case
  proof cases
    case 1
    with Cons.IH [OF inv(1)] e show ?thesis by (auto simp: total_def bal_def)
  next
    case 2
    with e show ?thesis by (simp add: total_def bal_def)
  next
    case 3
    then have "map_of m k = None"
      using inv(2) by (auto simp: map_of_eq_None_iff)
    with 3 e show ?thesis by (auto simp: total_def bal_def)
  qed
qed (simp add: total_def bal_def)

lemma bal_le_total: "unat (bal m k) \<le> total m"
  by (induction m) (auto simp: total_def bal_def)

lemma total_add_balance:
  "bt_inv m \<Longrightarrow> total (add_balance k d m) + unat (bal m k) = total m + unat (bal m k + d)"
  unfolding add_balance_def by (rule total_bt_insert)

lemma bal_pair_le_total:
  assumes "bt_inv m" and "j \<noteq> k"
  shows "unat (bal m j) + unat (bal m k) \<le> total m"
  using bal_le_total [of "bt_insert j 0 m" k] total_bt_insert [OF assms(1), of j 0] assms(2) by simp

lemma unat_minus: "d \<le> b \<Longrightarrow> unat (b - d) = unat b - unat d"
  for b d :: u128
  by (rule unat_sub)

lemma unat_plus: "unat b + unat d < 2 ^ 128 \<Longrightarrow> unat (b + d) = unat b + unat d"
  for b d :: u128
  by (simp add: unat_word_ariths)

text \<open>The balance of every account after a transfer, without wrapping.\<close>

lemma transfer_balances:
  assumes "bt_inv m" "total m < 2 ^ 128" "amount \<le> bal m sender"
  shows "unat (bal (add_balance recipient amount (add_balance sender (- amount) m)) j) =
    (if sender = recipient then unat (bal m j)
     else if j = sender then unat (bal m j) - unat amount
     else if j = recipient then unat (bal m j) + unat amount
     else unat (bal m j))"
proof (cases "j = recipient \<and> sender \<noteq> recipient")
  case True
  then have "unat (bal m sender) + unat (bal m recipient) \<le> total m"
    using bal_pair_le_total assms(1) by blast
  then have "unat (bal m recipient) + unat amount < 2 ^ 128"
    using assms(2,3) by (simp add: word_le_nat_alt)
  with True show ?thesis by (auto simp: unat_plus)
next
  case False
  with assms(3) show ?thesis by (auto simp: unat_minus simp flip: diff_conv_add_uminus)
qed

lemma transfer_total:
  assumes "bt_inv m" "total m < 2 ^ 128" "amount \<le> bal m sender"
  shows "total (add_balance recipient amount (add_balance sender (- amount) m)) = total m"
proof -
  let ?m = "add_balance sender (- amount) m"
  have sub: "unat (bal m sender + - amount) = unat (bal m sender) - unat amount"
    using assms(3) unat_minus by simp
  have m: "total ?m + unat amount = total m"
    using total_add_balance [OF assms(1), of sender "- amount"] sub assms(3) by (simp add: word_le_nat_alt)
  have "unat (bal ?m recipient) + unat amount < 2 ^ 128"
    using bal_le_total [of ?m recipient] m assms(2) by linarith
  then show ?thesis
    using total_add_balance [of ?m recipient amount] assms(1) m by (simp add: unat_plus)
qed

end
