(* ===== verification/Hyllar.thy ===== *)
theory Hyllar
  imports Contract_Sdk Ledger Sample_Env
begin

text \<open>
  The token contract \<open>crates/contracts/hyllar\<close> (\<open>lib.rs\<close>, \<open>erc20.rs\<close>): balances and allowances,
  the actions of the ERC-20 interface, and the contract as the guest program runs it. The sum of the
  balances is the total supply in every state, no balance wraps, and only the holder of tokens
  or a spender with an allowance moves them.
\<close>

subsection \<open>State and operations\<close>

definition TOTAL_SUPPLY :: u128 where
  "TOTAL_SUPPLY = 100000000000000"

definition FAUCET_ID :: string where
  "FAUCET_ID = ''faucet@hydentity''"

record Hyllar =
  hy_total_supply :: u128
  hy_balances :: "(string, u128) btreemap"
  hy_allowances :: "(string \<times> string, u128) btreemap"

datatype HyllarAction =
    TotalSupply
  | BalanceOf string
  | Transfer string u128
  | TransferFrom string string u128
  | Approve string u128
  | Allowance string string

definition Hyllar_custom :: "string \<Rightarrow> Hyllar" where
  "Hyllar_custom faucet_id =
     \<lparr>hy_total_supply = TOTAL_SUPPLY, hy_balances = bt_insert faucet_id TOTAL_SUPPLY [], hy_allowances = []\<rparr>"

definition Hyllar_default :: Hyllar where
  "Hyllar_default = Hyllar_custom FAUCET_ID"

definition hyllar_balance_of :: "Hyllar \<Rightarrow> string \<Rightarrow> (u128, string) Result" where
  "hyllar_balance_of h account =
     (case map_of (hy_balances h) account of
        Some balance \<Rightarrow> Ok balance
      | None \<Rightarrow> Err (''Account '' @ account @ '' not found''))"

definition hyllar_allowance :: "Hyllar \<Rightarrow> string \<Rightarrow> string \<Rightarrow> (u128, string) Result" where
  "hyllar_allowance h owner spender =
     (case map_of (hy_allowances h) (owner, spender) of Some amount \<Rightarrow> Ok amount | None \<Rightarrow> Ok 0)"

definition hyllar_transfer :: "Hyllar \<Rightarrow> string \<Rightarrow> string \<Rightarrow> u128 \<Rightarrow> Hyllar \<times> (unit, string) Result" where
  "hyllar_transfer h sender recipient amount =
     (case hyllar_balance_of h sender of
        Inl e \<Rightarrow> (h, Err e)
      | Inr sender_balance \<Rightarrow>
          if sender_balance < amount then (h, Err ''Insufficient balance'')
          else (h\<lparr>hy_balances := add_balance recipient amount (add_balance sender (- amount) (hy_balances h))\<rparr>, Ok ()))"

definition hyllar_transfer_from ::
  "Hyllar \<Rightarrow> string \<Rightarrow> string \<Rightarrow> string \<Rightarrow> u128 \<Rightarrow> Hyllar \<times> (unit, string) Result" where
  "hyllar_transfer_from h owner spender recipient amount =
     (case and_then (hyllar_allowance h owner spender) (\<lambda>allowance.
             and_then (hyllar_balance_of h owner) (\<lambda>sender_balance. Ok (allowance, sender_balance))) of
        Inl e \<Rightarrow> (h, Err e)
      | Inr (allowance, sender_balance) \<Rightarrow>
          if allowance < amount then
            (h, Err (''Allowance exceeded for spender='' @ spender @ '' owner='' @ owner @ '' allowance='' @
                     show_nat (unat allowance)))
          else if sender_balance < amount then (h, Err ''Insufficient balance'')
          else
            (h\<lparr>hy_balances := add_balance recipient amount (add_balance owner (- amount) (hy_balances h)),
               hy_allowances := bt_insert (owner, spender) (allowance - amount) (hy_allowances h)\<rparr>, Ok ()))"

definition hyllar_approve :: "Hyllar \<Rightarrow> string \<Rightarrow> string \<Rightarrow> u128 \<Rightarrow> Hyllar \<times> (unit, string) Result" where
  "hyllar_approve h owner spender amount =
     (h\<lparr>hy_allowances := bt_insert (owner, spender) amount (hy_allowances h)\<rparr>, Ok ())"

fun map_ok :: "('a \<Rightarrow> 'b) \<Rightarrow> 's \<times> ('a, 'e) Result \<Rightarrow> 's \<times> ('b, 'e) Result" where
  "map_ok f (s, Inr x) = (s, Ok (f x))"
| "map_ok f (s, Inl e) = (s, Err e)"

fun execute_token_action :: "Hyllar \<Rightarrow> HyllarAction \<Rightarrow> ExecutionContext \<Rightarrow> Hyllar \<times> (string, string) Result" where
  "execute_token_action h TotalSupply ctx =
     (h, Ok (''Total Supply: '' @ show_nat (unat (hy_total_supply h))))"
| "execute_token_action h (BalanceOf account) ctx =
     map_ok (\<lambda>balance. ''Balance of '' @ account @ '': '' @ show_nat (unat balance)) (h, hyllar_balance_of h account)"
| "execute_token_action h (Transfer recipient amount) ctx =
     map_ok (\<lambda>_. ''Transferred '' @ show_nat (unat amount) @ '' to '' @ recipient)
       (hyllar_transfer h (ec_caller ctx) recipient amount)"
| "execute_token_action h (TransferFrom owner recipient amount) ctx =
     map_ok (\<lambda>_. ''Transferred '' @ show_nat (unat amount) @ '' from '' @ owner @ '' to '' @ recipient)
       (hyllar_transfer_from h owner (ec_caller ctx) recipient amount)"
| "execute_token_action h (Approve spender amount) ctx =
     map_ok (\<lambda>_. ''Approved '' @ show_nat (unat amount) @ '' for '' @ spender)
       (hyllar_approve h (ec_caller ctx) spender amount)"
| "execute_token_action h (Allowance owner spender) ctx =
     map_ok (\<lambda>allowance. ''Allowance of '' @ spender @ '' by '' @ owner @ '': '' @ show_nat (unat allowance))
       (h, hyllar_allowance h owner spender)"

definition check_transfer :: "SdkEnv \<Rightarrow> HyllarAction reader \<Rightarrow> ExecutionContext \<Rightarrow> string \<Rightarrow> u128 \<Rightarrow> (unit, string) Result" where
  "check_transfer S rd ctx recipient amount =
     snd (is_in_callee_blobs S rd ctx (ec_contract_name ctx) (Transfer recipient amount))"

definition check_transfer_from ::
  "SdkEnv \<Rightarrow> HyllarAction reader \<Rightarrow> ExecutionContext \<Rightarrow> string \<Rightarrow> string \<Rightarrow> u128 \<Rightarrow> (unit, string) Result" where
  "check_transfer_from S rd ctx owner recipient amount =
     snd (is_in_callee_blobs S rd ctx (ec_contract_name ctx) (TransferFrom owner recipient amount))"

definition Hyllar_execute :: "SdkEnv \<Rightarrow> HyllarAction reader \<Rightarrow> Hyllar \<Rightarrow> Calldata \<Rightarrow> (Hyllar \<times> RunResult) option" where
  "Hyllar_execute S rd h cd =
     (case parse_calldata S rd cd of
        Inl e \<Rightarrow> Some (h, Err e)
      | Inr (action, ctx) \<Rightarrow>
          Some (map_ok (\<lambda>output. (as_bytes output, ctx, [])) (execute_token_action h action ctx)))"

definition Hyllar_commit :: "Env \<Rightarrow> Hyllar \<Rightarrow> StateCommitment" where
  "Hyllar_commit E h =
     sha2_256 E (to_le_bytes 16 (unat (hy_total_supply h)) @
       concat (map (\<lambda>(account, balance). as_bytes account @ to_le_bytes 16 (unat balance)) (hy_balances h)) @
       concat (map (\<lambda>((owner, spender), allowance). as_bytes owner @ as_bytes spender @ to_le_bytes 16 (unat allowance))
         (hy_allowances h)))"

definition Hyllar_contract :: "Env \<Rightarrow> SdkEnv \<Rightarrow> HyllarAction reader \<Rightarrow> (Hyllar, Hyllar) ZkContract" where
  "Hyllar_contract E S rd = FullStateRevert (Hyllar_execute S rd) (Hyllar_commit E)"

definition HyllarAction_as_blob ::
  "(HyllarAction StructuredBlobData \<Rightarrow> bytes) \<Rightarrow> HyllarAction \<Rightarrow> ContractName \<Rightarrow> BlobIndex option \<Rightarrow> BlobIndex list option \<Rightarrow> Blob" where
  "HyllarAction_as_blob enc action contract_name caller callees =
     \<lparr>b_contract_name = contract_name,
      b_data = enc \<lparr>sd_caller = caller, sd_callees = callees, sd_parameters = action\<rparr>\<rparr>"

subsection \<open>Conservation\<close>

definition hyllar_inv :: "Hyllar \<Rightarrow> bool" where
  "hyllar_inv h \<longleftrightarrow> bt_inv (hy_balances h) \<and> bt_inv (hy_allowances h) \<and>
     total (hy_balances h) = unat (hy_total_supply h)"

lemma hyllar_inv_bound: "hyllar_inv h \<Longrightarrow> total (hy_balances h) < 2 ^ 128"
  using unsigned_less [of "hy_total_supply h"] by (simp add: hyllar_inv_def)

lemma hyllar_inv_default: "hyllar_inv Hyllar_default"
  by (simp add: hyllar_inv_def Hyllar_default_def Hyllar_custom_def total_def bt_inv_def)

lemma map_ok_pair [simp]:
  "fst (map_ok f r) = fst r" "is_ok (snd (map_ok f r)) = is_ok (snd r)"
  by (cases r; cases "snd r"; auto)+

text \<open>A transfer either fails without effect or moves \<open>amount\<close> between two accounts.\<close>

lemma hyllar_transfer_cases:
  obtains (fail) "fst (hyllar_transfer h s r a) = h" "\<not> is_ok (snd (hyllar_transfer h s r a))"
  | (moved) "a \<le> bal (hy_balances h) s" "is_ok (snd (hyllar_transfer h s r a))"
    "fst (hyllar_transfer h s r a) = h\<lparr>hy_balances := add_balance r a (add_balance s (- a) (hy_balances h))\<rparr>"
proof (cases "map_of (hy_balances h) s = None \<or> bal (hy_balances h) s < a")
  case True
  then show ?thesis by (intro fail) (auto simp: hyllar_transfer_def hyllar_balance_of_def bal_def split: option.splits)
next
  case False
  then show ?thesis by (intro moved) (auto simp: hyllar_transfer_def hyllar_balance_of_def bal_def not_less)
qed

lemma hyllar_transfer_from_cases:
  obtains (fail) "fst (hyllar_transfer_from h ow s r a) = h" "\<not> is_ok (snd (hyllar_transfer_from h ow s r a))"
  | (moved) "a \<le> bal (hy_balances h) ow" "a \<le> bal (hy_allowances h) (ow, s)" "is_ok (snd (hyllar_transfer_from h ow s r a))"
    "fst (hyllar_transfer_from h ow s r a) = h\<lparr>hy_balances := add_balance r a (add_balance ow (- a) (hy_balances h)),
       hy_allowances := bt_insert (ow, s) (bal (hy_allowances h) (ow, s) - a) (hy_allowances h)\<rparr>"
proof -
  have allowance: "hyllar_allowance h ow s = Ok (bal (hy_allowances h) (ow, s))"
    by (simp add: hyllar_allowance_def bal_def split: option.split)
  show ?thesis
  proof (cases "map_of (hy_balances h) ow = None \<or> bal (hy_allowances h) (ow, s) < a \<or> bal (hy_balances h) ow < a")
    case True
    then show ?thesis
      by (intro fail) (auto simp: hyllar_transfer_from_def hyllar_balance_of_def allowance bal_def split: option.splits)
  next
    case False
    then show ?thesis
      by (intro moved) (auto simp: hyllar_transfer_from_def hyllar_balance_of_def allowance bal_def not_less)
  qed
qed

lemma hyllar_inv_moved:
  assumes "hyllar_inv h" and "a \<le> bal (hy_balances h) s"
  shows "hyllar_inv (h\<lparr>hy_balances := add_balance r a (add_balance s (- a) (hy_balances h))\<rparr>)"
  using assms transfer_total [OF _ hyllar_inv_bound [OF assms(1)] assms(2), of r] by (simp add: hyllar_inv_def)

lemma hyllar_inv_allowances:
  "hyllar_inv h \<Longrightarrow> hyllar_inv (h\<lparr>hy_allowances := bt_insert k v (hy_allowances h)\<rparr>)"
  by (simp add: hyllar_inv_def bt.ok_put)

lemma execute_token_action_inv:
  assumes "hyllar_inv h"
  shows "hyllar_inv (fst (execute_token_action h action ctx)) \<and>
    hy_total_supply (fst (execute_token_action h action ctx)) = hy_total_supply h"
proof (cases action)
  case (Transfer recipient amount)
  then show ?thesis
    by (cases rule: hyllar_transfer_cases [of h "ec_caller ctx" recipient amount])
      (use assms in \<open>simp_all add: hyllar_inv_moved\<close>)
next
  case (TransferFrom owner recipient amount)
  show ?thesis
  proof (cases rule: hyllar_transfer_from_cases [of h owner "ec_caller ctx" recipient amount])
    case moved
    with TransferFrom hyllar_inv_allowances [OF hyllar_inv_moved [OF assms moved(1), of recipient]] show ?thesis
      by simp
  qed (use assms TransferFrom in simp)
next
  case (Approve spender amount)
  with assms show ?thesis by (simp add: hyllar_approve_def hyllar_inv_allowances)
qed (use assms in simp_all)

lemma execute_token_action_Err:
  "\<not> is_ok (snd (execute_token_action h action ctx)) \<Longrightarrow> fst (execute_token_action h action ctx) = h"
proof (cases action)
  case (Transfer recipient amount)
  then show "\<not> is_ok (snd (execute_token_action h action ctx)) \<Longrightarrow> ?thesis"
    by (cases rule: hyllar_transfer_cases [of h "ec_caller ctx" recipient amount]) simp_all
next
  case (TransferFrom owner recipient amount)
  then show "\<not> is_ok (snd (execute_token_action h action ctx)) \<Longrightarrow> ?thesis"
    by (cases rule: hyllar_transfer_from_cases [of h owner "ec_caller ctx" recipient amount]) simp_all
qed (simp_all add: hyllar_approve_def)

text \<open>The balances after a successful transfer of either kind.\<close>

definition moved :: "Hyllar \<Rightarrow> Hyllar \<Rightarrow> string \<Rightarrow> string \<Rightarrow> u128 \<Rightarrow> bool" where
  "moved h h' s r a \<longleftrightarrow> a \<le> bal (hy_balances h) s \<and>
     (\<forall>j. unat (bal (hy_balances h') j) =
        (if s = r then unat (bal (hy_balances h) j)
         else if j = s then unat (bal (hy_balances h) j) - unat a
         else if j = r then unat (bal (hy_balances h) j) + unat a
         else unat (bal (hy_balances h) j)))"

lemma token_Transfer_Ok:
  assumes "hyllar_inv h" and "execute_token_action h (Transfer r a) ctx = (h', Ok out)"
  shows "moved h h' (ec_caller ctx) r a"
proof -
  have "is_ok (snd (hyllar_transfer h (ec_caller ctx) r a))" "h' = fst (hyllar_transfer h (ec_caller ctx) r a)"
    using assms(2) by (auto elim!: map_ok.elims)
  then show ?thesis
    using assms(1) transfer_balances [OF _ hyllar_inv_bound [OF assms(1)]]
    by (cases rule: hyllar_transfer_cases [of h "ec_caller ctx" r a]) (auto simp: moved_def hyllar_inv_def)
qed

lemma token_TransferFrom_Ok:
  assumes "hyllar_inv h" and "execute_token_action h (TransferFrom s r a) ctx = (h', Ok out)"
  shows "moved h h' s r a"
proof -
  have "is_ok (snd (hyllar_transfer_from h s (ec_caller ctx) r a))" "h' = fst (hyllar_transfer_from h s (ec_caller ctx) r a)"
    using assms(2) by (auto elim!: map_ok.elims)
  then show ?thesis
    using assms(1) transfer_balances [OF _ hyllar_inv_bound [OF assms(1)]]
    by (cases rule: hyllar_transfer_from_cases [of h s "ec_caller ctx" r a]) (auto simp: moved_def hyllar_inv_def)
qed

lemma map_ok_fst: "map_ok f r = (s, x) \<Longrightarrow> s = fst r"
  by (metis fst_conv map_ok_pair(1))

lemma Hyllar_execute_state:
  "parse_calldata S rd cd = Ok (action, ctx) \<Longrightarrow> Hyllar_execute S rd h cd = Some (h', res) \<Longrightarrow>
     h' = fst (execute_token_action h action ctx)"
  by (auto simp: Hyllar_execute_def dest: map_ok_fst)

lemma Hyllar_execute_effects: "Hyllar_execute S rd h cd = Some (h', Ok (out, ctx, eff)) \<Longrightarrow> eff = []"
  by (auto simp: Hyllar_execute_def split: sum.splits prod.splits elim!: map_ok.elims)

lemma Hyllar_execute_inv:
  assumes "hyllar_inv h" and "Hyllar_execute S rd h cd = Some (h', res)"
  shows "hyllar_inv h' \<and> hy_total_supply h' = hy_total_supply h"
proof (cases "parse_calldata S rd cd")
  case (Inl e)
  with assms show ?thesis by (simp add: Hyllar_execute_def)
next
  case (Inr r)
  obtain action ctx where "r = (action, ctx)" by (cases r)
  with Inr assms(2) have "h' = fst (execute_token_action h action ctx)"
    using Hyllar_execute_state by blast
  with execute_token_action_inv [OF assms(1)] show ?thesis by simp
qed

interpretation hyllar: full_revert "Hyllar_execute S rd" "Hyllar_commit E" hyllar_inv for E S rd
  by unfold_locales (use Hyllar_execute_inv in blast)

subsection \<open>Properties\<close>

text \<open>The state after a sequence of runs.\<close>

definition hyllar_run :: "SdkEnv \<Rightarrow> HyllarAction reader \<Rightarrow> Calldata list \<Rightarrow> Hyllar \<Rightarrow> Hyllar" where
  "hyllar_run S rd cds h = fold (\<lambda>cd h. fst (the (Hyllar_execute S rd h cd))) cds h"

lemma Hyllar_execute_total: "\<exists>h' res. Hyllar_execute S rd h cd = Some (h', res)"
proof (cases "parse_calldata S rd cd")
  case (Inr r)
  then show ?thesis by (cases r) (auto simp: Hyllar_execute_def)
qed (simp add: Hyllar_execute_def)

lemma hyllar_run_inv:
  "hyllar_inv h \<Longrightarrow> hyllar_inv (hyllar_run S rd cds h) \<and> hy_total_supply (hyllar_run S rd cds h) = hy_total_supply h"
proof (induction cds arbitrary: h)
  case (Cons cd cds)
  obtain h' res where run: "Hyllar_execute S rd h cd = Some (h', res)" using Hyllar_execute_total by blast
  with Hyllar_execute_inv [OF Cons.prems run] Cons.IH [of h'] show ?case by (simp add: hyllar_run_def)
qed (simp add: hyllar_run_def)

text \<open>
  C31. Whatever calls are made to the token contract, its execution does not panic, the balances
  always add up to the initial supply of 100000000000000, and so no balance ever exceeds it or
  wraps around.
\<close>

theorem hyllar_supply_conserved:
  "total (hy_balances (hyllar_run S rd cds (Hyllar_custom faucet))) = 100000000000000 \<and>
   unat (bal (hy_balances (hyllar_run S rd cds (Hyllar_custom faucet))) account) \<le> 100000000000000"
proof -
  have "hyllar_inv (Hyllar_custom faucet)"
    by (simp add: hyllar_inv_def Hyllar_custom_def total_def bt_inv_def)
  from hyllar_run_inv [OF this, of S rd cds]
  have "total (hy_balances (hyllar_run S rd cds (Hyllar_custom faucet))) = 100000000000000"
    by (simp add: hyllar_inv_def Hyllar_custom_def TOTAL_SUPPLY_def)
  with bal_le_total [of "hy_balances (hyllar_run S rd cds (Hyllar_custom faucet))" account] show ?thesis by simp
qed

text \<open>
  C32. Tokens move only on behalf of their holder: when a call lowers the balance of an account,
  then either the caller is the account, or the caller spends an allowance of the account that covers
  the amount and is reduced by it.
\<close>

theorem hyllar_no_theft:
  assumes "hyllar_inv h" and "Hyllar_execute S rd h cd = Some (h', res)"
    and "bal (hy_balances h') a < bal (hy_balances h) a"
  shows "\<exists>action ctx. parse_calldata S rd cd = Ok (action, ctx) \<and>
    (ec_caller ctx = a \<or>
     (\<exists>d. unat (bal (hy_balances h') a) + unat d = unat (bal (hy_balances h) a) \<and>
        d \<le> bal (hy_allowances h) (a, ec_caller ctx) \<and>
        bal (hy_allowances h') (a, ec_caller ctx) = bal (hy_allowances h) (a, ec_caller ctx) - d))"
proof (cases "parse_calldata S rd cd")
  case (Inl e)
  with assms show ?thesis by (simp add: Hyllar_execute_def)
next
  case (Inr r)
  obtain action ctx where r: "r = (action, ctx)" by (cases r)
  have h': "h' = fst (execute_token_action h action ctx)"
    using Inr r assms(2) Hyllar_execute_state by blast
  note moves = transfer_balances [OF _ hyllar_inv_bound [OF assms(1)]]
  have inv: "bt_inv (hy_balances h)" using assms(1) by (simp add: hyllar_inv_def)
  have less: "unat (bal (hy_balances h') a) < unat (bal (hy_balances h) a)"
    using assms(3) by (simp add: word_less_nat_alt)
  show ?thesis
  proof (cases action)
    case (Transfer recipient amount)
    show ?thesis
    proof (cases rule: hyllar_transfer_cases [of h "ec_caller ctx" recipient amount])
      case moved
      have "ec_caller ctx = a"
        using less moves [OF inv moved(1), of recipient a] moved(3) h' Transfer by (simp split: if_splits)
      with Inr r show ?thesis by simp
    qed (use less h' Transfer in simp)
  next
    case (TransferFrom owner recipient amount)
    show ?thesis
    proof (cases rule: hyllar_transfer_from_cases [of h owner "ec_caller ctx" recipient amount])
      case moved
      have "unat amount \<le> unat (bal (hy_balances h) owner)" using moved(1) by (simp add: word_le_nat_alt)
      then have "owner = a" "unat (bal (hy_balances h') a) + unat amount = unat (bal (hy_balances h) a)"
        using less moves [OF inv moved(1), of recipient a] moved(4) h' TransferFrom by (simp_all split: if_splits)
      with Inr r moved h' TransferFrom show ?thesis by auto
    qed (use less h' TransferFrom in simp)
  qed (use assms(3) h' in \<open>simp_all add: hyllar_approve_def\<close>)
qed

text \<open>A holder, the contract \<open>amm\<close>, that sends 5 tokens to \<open>b\<close>.\<close>

definition sample_transfer :: "HyllarAction reader" where
  "sample_transfer d = Some (Transfer ''b'' 5, d)"

lemma sample_transfer_run:
  "Hyllar_execute sample_sdk sample_transfer (Hyllar_custom ''amm'') (sample_calldata 1 []) =
     Some (\<lparr>hy_total_supply = TOTAL_SUPPLY, hy_balances = [(''amm'', 99999999999995), (''b'', 5)], hy_allowances = []\<rparr>,
       Ok (as_bytes (''Transferred '' @ show_nat 5 @ '' to b''),
         \<lparr>ec_callees_blobs = [], ec_caller = ''amm'', ec_contract_name = ''tok''\<rparr>, []))"
  by (simp add: Hyllar_execute_def sample_transfer_def sdk_eval hyllar_transfer_def hyllar_balance_of_def
      Hyllar_custom_def TOTAL_SUPPLY_def add_balance_def bal_def)

lemma hyllar_inv_custom: "hyllar_inv (Hyllar_custom f)"
  by (simp add: hyllar_inv_def Hyllar_custom_def total_def bt_inv_def)

theorem hyllar_no_theft_witness:
  "\<exists>h' res. Hyllar_execute sample_sdk sample_transfer (Hyllar_custom ''amm'') (sample_calldata 1 []) = Some (h', res) \<and>
    bal (hy_balances h') ''amm'' < bal (hy_balances (Hyllar_custom ''amm'')) ''amm'' \<and>
    (\<exists>action ctx. parse_calldata sample_sdk sample_transfer (sample_calldata 1 []) = Ok (action, ctx))"
proof -
  let ?h' = "\<lparr>hy_total_supply = TOTAL_SUPPLY, hy_balances = [(''amm'', 99999999999995), (''b'', 5)], hy_allowances = []\<rparr>"
  have less: "bal (hy_balances ?h') ''amm'' < bal (hy_balances (Hyllar_custom ''amm'')) ''amm''"
    by (simp add: bal_def Hyllar_custom_def TOTAL_SUPPLY_def)
  with hyllar_no_theft [OF hyllar_inv_custom sample_transfer_run less] sample_transfer_run show ?thesis by blast
qed


lemma hyllar_guest_loop_total: "\<exists>outs. guest_loop S (Hyllar_contract E S rd) h c cds = Some outs"
proof (rule guest_loop_total)
  fix h cd
  show "zk_execute (Hyllar_contract E S rd) h cd \<noteq> None"
    using Hyllar_execute_total [of S rd h cd] by (auto simp: Hyllar_contract_def FullStateRevert_def)
qed


text \<open>
  The guest program does not undo a run whose callees were not all accounted for: the output
  reports a failure and an unchanged state, yet the next output starts from the changed state,
  so the outputs do not form a chain and those after the failure cannot settle.
\<close>

lemma unconsumed_callees_break_chain:
  "\<exists>o1 o2. guest_execute sample_sdk (\<lambda>_. Some (Hyllar_custom ''u@id'')) (Hyllar_contract sample_env sample_sdk sample_transfer) []
      [sample_calldata 0 [], sample_calldata 0 []] = Some [o1, o2] \<and>
    \<not> ho_success o1 \<and> ho_initial_state o2 \<noteq> ho_next_state o1"
proof -
  let ?h = "Hyllar_custom ''u@id''"
  let ?h1 = "\<lparr>hy_total_supply = TOTAL_SUPPLY, hy_balances = [(''b'', 5), (''u@id'', 99999999999995)], hy_allowances = []\<rparr>"
  let ?ctx = "\<lparr>ec_callees_blobs = [\<lparr>b_contract_name = ''tok'', b_data = [1, 0, 0]\<rparr>], ec_caller = ''u@id'', ec_contract_name = ''amm''\<rparr>"
  have run: "Hyllar_execute sample_sdk sample_transfer ?h (sample_calldata 0 []) =
      Some (?h1, Ok (as_bytes (''Transferred '' @ show_nat 5 @ '' to b''), ?ctx, []))"
    by (simp add: Hyllar_execute_def sample_transfer_def sdk_eval hyllar_transfer_def hyllar_balance_of_def
        Hyllar_custom_def TOTAL_SUPPLY_def add_balance_def bal_def)
  obtain h2 res where run2: "Hyllar_execute sample_sdk sample_transfer ?h1 (sample_calldata 0 []) = Some (h2, res)"
    using Hyllar_execute_total by blast
  have "length (Hyllar_commit sample_env ?h1) \<noteq> length (Hyllar_commit sample_env ?h)"
    by (simp add: Hyllar_commit_def Hyllar_custom_def to_le_bytes_def as_bytes_def)
  with run run2 show ?thesis
    by (auto simp: guest_execute_def Hyllar_contract_def FullStateRevert_def sdk_fail_def split: sum.splits)
qed

end
