(* ===== verification/Amm.thy ===== *)
theory Amm
  imports Hyllar
begin

text \<open>
  The exchange contract \<open>crates/contracts/amm/src/lib.rs\<close>: reserves of token pairs, swaps against the
  constant product, and the callee checks that tie a swap to the token transfers of the same
  transaction. Amounts are 128-bit words that wrap; a division by zero is a panic (\<open>None\<close>).
\<close>

subsection \<open>Token pairs\<close>

datatype UnorderedTokenPair = UTP (tp_a: string) (tp_b: string)

definition UnorderedTokenPair_new :: "string \<Rightarrow> string \<Rightarrow> UnorderedTokenPair" where
  "UnorderedTokenPair_new x y = (if x \<le> y then UTP x y else UTP y x)"

text \<open>The derived order compares the fields in their order.\<close>

instantiation UnorderedTokenPair :: linorder
begin

definition less_eq_UnorderedTokenPair :: "UnorderedTokenPair \<Rightarrow> UnorderedTokenPair \<Rightarrow> bool" where
  "p \<le> q \<longleftrightarrow> (tp_a p, tp_b p) \<le> (tp_a q, tp_b q)"

definition less_UnorderedTokenPair :: "UnorderedTokenPair \<Rightarrow> UnorderedTokenPair \<Rightarrow> bool" where
  "p < q \<longleftrightarrow> (tp_a p, tp_b p) < (tp_a q, tp_b q)"

instance
  by standard (auto simp: less_eq_UnorderedTokenPair_def less_UnorderedTokenPair_def
      intro: UnorderedTokenPair.expand)

end

lemma UnorderedTokenPair_new_commute: "UnorderedTokenPair_new x y = UnorderedTokenPair_new y x"
  by (auto simp: UnorderedTokenPair_new_def)

lemma UnorderedTokenPair_new_eq:
  "UnorderedTokenPair_new x y = UnorderedTokenPair_new x' y' \<longleftrightarrow> (x = x' \<and> y = y') \<or> (x = y' \<and> y = x')"
  by (auto simp: UnorderedTokenPair_new_def)

subsection \<open>State and operations\<close>

record Amm =
  am_pairs :: "(UnorderedTokenPair, u128 \<times> u128) btreemap"

datatype AmmAction =
    Swap "string \<times> string" "u128 \<times> u128"
  | NewPair "string \<times> string" "u128 \<times> u128"

definition Amm_default :: Amm where
  "Amm_default = \<lparr>am_pairs = []\<rparr>"

definition debug_pair :: "SdkEnv \<Rightarrow> string \<times> string \<Rightarrow> string" where
  "debug_pair S p = ''('' @ debug_str S (fst p) @ '', '' @ debug_str S (snd p) @ '')''"

definition debug_utp :: "SdkEnv \<Rightarrow> UnorderedTokenPair \<Rightarrow> string" where
  "debug_utp S p = ''UnorderedTokenPair { a: '' @ debug_str S (tp_a p) @ '', b: '' @ debug_str S (tp_b p) @ '' }''"

text \<open>The outer option is a panic, the inner one the result.\<close>

definition get_paired_amount :: "Amm \<Rightarrow> string \<Rightarrow> string \<Rightarrow> u128 \<Rightarrow> u128 option option" where
  "get_paired_amount amm token_a token_b amount_a =
     (case map_of (am_pairs amm) (UnorderedTokenPair_new token_a token_b) of
        None \<Rightarrow> Some None
      | Some (x, y) \<Rightarrow> if x + amount_a = 0 then None else Some (Some (y - (x * y) div (x + amount_a))))"

definition create_new_pair ::
  "SdkEnv \<Rightarrow> Amm \<Rightarrow> string \<times> string \<Rightarrow> u128 \<times> u128 \<Rightarrow> Amm \<times> (string, string) Result" where
  "create_new_pair S amm pair amounts =
     (if fst pair = snd pair then (amm, Err ''Swap can only happen between two different tokens'')
      else
        let normalized_pair = UnorderedTokenPair_new (fst pair) (snd pair) in
          if map_of (am_pairs amm) normalized_pair \<noteq> None then
            (amm, Err (''Pair '' @ debug_utp S normalized_pair @ '' already exists''))
          else
            (amm\<lparr>am_pairs := bt_insert normalized_pair amounts (am_pairs amm)\<rparr>,
             Ok (''Pair '' @ debug_utp S normalized_pair @ '' created'')))"

text \<open>The reserves after a swap of \<open>from_amount\<close> into the first reserve, and what is due for it.\<close>

definition swap_reserves :: "u128 \<Rightarrow> u128 \<Rightarrow> u128 \<Rightarrow> (u128 \<times> u128 \<times> u128) option" where
  "swap_reserves x y from_amount =
     (if x + from_amount = 0 then None
      else let amount = y - (x * y) div (x + from_amount) in Some (x + from_amount, y - amount, amount))"

definition swap_pair :: "bool \<Rightarrow> u128 \<times> u128 \<Rightarrow> u128 \<Rightarrow> ((u128 \<times> u128) \<times> u128) option" where
  "swap_pair is_normalized_order r from_amount =
     (if is_normalized_order then
        map_option (\<lambda>(x, y, amount). ((x, y), amount)) (swap_reserves (fst r) (snd r) from_amount)
      else
        map_option (\<lambda>(y, x, amount). ((x, y), amount)) (swap_reserves (snd r) (fst r) from_amount))"

definition verify_swap ::
  "SdkEnv \<Rightarrow> Amm \<Rightarrow> string \<times> string \<Rightarrow> u128 \<Rightarrow> u128 \<Rightarrow> (Amm \<times> (string, string) Result) option" where
  "verify_swap S amm pair from_amount to_amount =
     (if fst pair = snd pair then Some (amm, Err ''Swap can only happen between two different tokens'')
      else
        let normalized_pair = UnorderedTokenPair_new (fst pair) (snd pair) in
          (case map_of (am_pairs amm) normalized_pair of
             None \<Rightarrow> Some (amm, Err (''Pair '' @ debug_pair S pair @ '' not found in AMM state''))
           | Some r \<Rightarrow>
               (case swap_pair (fst pair \<le> snd pair) r from_amount of
                  None \<Rightarrow> None
                | Some (r', expected) \<Rightarrow>
                    Some (amm\<lparr>am_pairs := bt_insert normalized_pair r' (am_pairs amm)\<rparr>,
                      if expected < to_amount \<or> to_amount < expected * 98 div 100 then
                        Err (''Invalid swap: expected to receive between '' @ show_nat (unat (expected * 100 div 102)) @
                             '' and '' @ show_nat (unat expected) @ '' '' @ snd pair)
                      else
                        Ok (''Swap of '' @ show_nat (unat from_amount) @ '' '' @ fst pair @ '' for '' @
                            show_nat (unat to_amount) @ '' '' @ snd pair @ '' is valid'')))))"

text \<open>The two callee checks of an action: both transfers, in the order the code asks for them.\<close>

definition check_callee_pair ::
  "SdkEnv \<Rightarrow> HyllarAction reader \<Rightarrow> ExecutionContext \<Rightarrow> string \<times> string \<Rightarrow> HyllarAction \<Rightarrow> HyllarAction \<Rightarrow>
     (ExecutionContext, string) Result" where
  "check_callee_pair S rd ctx pair first second =
     (case is_in_callee_blobs S rd ctx (fst pair) first of
        (ctx1, Inl e) \<Rightarrow> Err e
      | (ctx1, Inr _) \<Rightarrow>
          (case is_in_callee_blobs S rd ctx1 (snd pair) second of
             (ctx2, Inl e) \<Rightarrow> Err e
           | (ctx2, Inr _) \<Rightarrow> Ok ctx2))"

fun amm_action ::
  "SdkEnv \<Rightarrow> HyllarAction reader \<Rightarrow> Amm \<Rightarrow> AmmAction \<Rightarrow> ExecutionContext \<Rightarrow> (Amm \<times> RunResult) option" where
  "amm_action S rd amm (Swap pair (from_amount, to_amount)) ctx =
     (case check_callee_pair S rd ctx pair
             (TransferFrom (ec_caller ctx) (ec_contract_name ctx) from_amount) (Transfer (ec_caller ctx) to_amount) of
        Inl e \<Rightarrow> Some (amm, Err e)
      | Inr ctx' \<Rightarrow>
          map_option (map_ok (\<lambda>output. (as_bytes output, ctx', []))) (verify_swap S amm pair from_amount to_amount))"
| "amm_action S rd amm (NewPair pair amounts) ctx =
     (case check_callee_pair S rd ctx pair
             (TransferFrom (ec_caller ctx) (ec_contract_name ctx) (fst amounts))
             (TransferFrom (ec_caller ctx) (ec_contract_name ctx) (snd amounts)) of
        Inl e \<Rightarrow> Some (amm, Err e)
      | Inr ctx' \<Rightarrow> Some (map_ok (\<lambda>output. (as_bytes output, ctx', [])) (create_new_pair S amm pair amounts)))"

definition Amm_execute ::
  "SdkEnv \<Rightarrow> AmmAction reader \<Rightarrow> HyllarAction reader \<Rightarrow> Amm \<Rightarrow> Calldata \<Rightarrow> (Amm \<times> RunResult) option" where
  "Amm_execute S rda rd amm cd =
     (case parse_calldata S rda cd of
        Inl e \<Rightarrow> Some (amm, Err e)
      | Inr (action, ctx) \<Rightarrow> amm_action S rd amm action ctx)"

text \<open>The commitment is the borsh encoding of the state.\<close>

definition Amm_commit :: "(Amm \<Rightarrow> bytes) \<Rightarrow> Amm \<Rightarrow> StateCommitment" where
  "Amm_commit enc amm = enc amm"

definition Amm_contract ::
  "(Amm \<Rightarrow> bytes) \<Rightarrow> SdkEnv \<Rightarrow> AmmAction reader \<Rightarrow> HyllarAction reader \<Rightarrow> (Amm, Amm) ZkContract" where
  "Amm_contract enc S rda rd = FullStateRevert (Amm_execute S rda rd) (Amm_commit enc)"

subsection \<open>Invariant\<close>

definition amm_inv :: "Amm \<Rightarrow> bool" where
  "amm_inv amm \<longleftrightarrow> bt_inv (am_pairs amm) \<and>
     (\<forall>p \<in> fst ` set (am_pairs amm). tp_a p < tp_b p)"

lemma normalized_less: "x \<noteq> y \<Longrightarrow> tp_a (UnorderedTokenPair_new x y) < tp_b (UnorderedTokenPair_new x y)"
  by (auto simp: UnorderedTokenPair_new_def)

lemma amm_inv_insert:
  "amm_inv amm \<Longrightarrow> x \<noteq> y \<Longrightarrow> amm_inv (amm\<lparr>am_pairs := bt_insert (UnorderedTokenPair_new x y) r (am_pairs amm)\<rparr>)"
  by (auto simp: amm_inv_def bt.ok_put bt.put_keys normalized_less)

lemma verify_swap_inv: "amm_inv amm \<Longrightarrow> verify_swap S amm pair a b = Some (amm', res) \<Longrightarrow> amm_inv amm'"
  by (auto simp: verify_swap_def Let_def amm_inv_insert split: if_split_asm option.split_asm prod.split_asm)

lemma create_new_pair_inv: "amm_inv amm \<Longrightarrow> create_new_pair S amm pair amounts = (amm', res) \<Longrightarrow> amm_inv amm'"
  by (auto simp: create_new_pair_def Let_def amm_inv_insert split: if_split_asm)

lemma amm_action_inv:
  assumes "amm_inv amm" and "amm_action S rd amm action ctx = Some (amm', res)"
  shows "amm_inv amm'"
proof (cases action)
  case (Swap pair amounts)
  obtain a b where "amounts = (a, b)" by (cases amounts)
  with Swap assms(2) have "amm' = amm \<or> (\<exists>amm1 r. verify_swap S amm pair a b = Some (amm1, r) \<and> amm' = amm1)"
    by (auto split: sum.split_asm dest: map_ok_fst)
  with assms(1) verify_swap_inv show ?thesis by blast
next
  case (NewPair pair amounts)
  with assms(2) have "amm' = amm \<or> amm' = fst (create_new_pair S amm pair amounts)"
    by (auto split: sum.split_asm dest: map_ok_fst)
  with assms(1) create_new_pair_inv [OF assms(1) surjective_pairing] show ?thesis by blast
qed

lemma Amm_execute_inv:
  "amm_inv amm \<Longrightarrow> Amm_execute S rda rd amm cd = Some (amm', res) \<Longrightarrow> amm_inv amm'"
  by (auto simp: Amm_execute_def split: sum.split_asm intro: amm_action_inv)

interpretation amm: full_revert "Amm_execute S rda rd" "Amm_commit enc" amm_inv for enc S rda rd
  by unfold_locales (rule Amm_execute_inv)

subsection \<open>Swaps\<close>

text \<open>The reserves of two tokens, in the order in which the tokens are named.\<close>

definition reserves :: "Amm \<Rightarrow> string \<Rightarrow> string \<Rightarrow> (u128 \<times> u128) option" where
  "reserves amm a b =
     map_option (\<lambda>(x, y). if a \<le> b then (x, y) else (y, x)) (map_of (am_pairs amm) (UnorderedTokenPair_new a b))"

lemma swap_pair_swapped:
  "swap_pair ord (if ord then (x, y) else (y, x)) f = Some (r', e) \<longleftrightarrow>
     (\<exists>x' y'. swap_reserves x y f = Some (x', y', e) \<and> r' = (if ord then (x', y') else (y', x')))"
  by (auto simp: swap_pair_def)

lemma verify_swap_Some:
  assumes "verify_swap S amm (a, b) f t = Some (amm', Ok out)"
  obtains x y x' y' e where "a \<noteq> b" "reserves amm a b = Some (x, y)" "swap_reserves x y f = Some (x', y', e)"
    "reserves amm' a b = Some (x', y')" "t \<le> e" "e * 98 div 100 \<le> t"
    "\<And>p. p \<noteq> UnorderedTokenPair_new a b \<Longrightarrow> map_of (am_pairs amm') p = map_of (am_pairs amm) p"
proof -
  let ?n = "UnorderedTokenPair_new a b"
  obtain r r' e where swap: "a \<noteq> b" "map_of (am_pairs amm) ?n = Some r" "swap_pair (a \<le> b) r f = Some (r', e)"
      "amm' = amm\<lparr>am_pairs := bt_insert ?n r' (am_pairs amm)\<rparr>" "t \<le> e" "e * 98 div 100 \<le> t"
    using assms by (auto simp: verify_swap_def Let_def not_less split: if_split_asm option.split_asm)
  obtain x y where r: "r = (if a \<le> b then (x, y) else (y, x))"
    by (cases r) (metis (full_types))
  from swap(3) obtain x' y' where "swap_reserves x y f = Some (x', y', e)" "r' = (if a \<le> b then (x', y') else (y', x'))"
    unfolding r swap_pair_swapped by blast
  with swap r that [of x y x' y' e] show ?thesis
    by (auto simp: reserves_def hm_simps split: if_splits)
qed

text \<open>The arithmetic of a swap as long as it does not overflow.\<close>

lemma swap_reserves_unat:
  assumes "swap_reserves x y f = Some (x', y', e)"
    and "unat x * unat y < 2 ^ 128" and "unat x + unat f < 2 ^ 128"
  shows "unat x' = unat x + unat f" "unat y' = unat x * unat y div (unat x + unat f)"
    "unat e = unat y - unat y'" "unat y' \<le> unat y"
proof -
  let ?q = "x * y div (x + f)"
  have xf: "unat (x + f) = unat x + unat f" using assms(3) by (simp add: unat_plus)
  have pos: "0 < unat x + unat f"
    using assms(1) xf by (auto simp: swap_reserves_def word_unat_eq_iff split: if_splits)
  have q: "unat ?q = unat x * unat y div (unat x + unat f)"
    using assms(2) xf by (simp add: unat_div unat_word_ariths)
  also have "\<dots> \<le> unat x * unat y div (max 1 (unat x))"
    using pos by (intro div_le_mono2) auto
  also have "\<dots> \<le> unat y" by (cases "unat x = 0") (auto simp: max_def)
  finally have le: "?q \<le> y" by (simp add: word_le_nat_alt)
  have res: "x' = x + f" "y' = y - (y - ?q)" "e = y - ?q"
    using assms(1) by (auto simp: swap_reserves_def Let_def split: if_splits)
  then have "y' = ?q" by simp
  with res q xf le show "unat x' = unat x + unat f" "unat y' = unat x * unat y div (unat x + unat f)"
    "unat e = unat y - unat y'" "unat y' \<le> unat y"
    by (simp_all add: unat_minus word_le_nat_alt)
qed


text \<open>
  A swap that is proved without unconsumed callees comes with exactly two called blobs: the
  transfer of the paid amount from the caller to the exchange in the first token, on behalf of
  the exchange, and the transfer of the received amount to the caller in the second token.
\<close>

theorem amm_swap_callees:
  assumes "Amm_execute S rda rd amm cd = Some (amm', Ok (out, ctx', eff))" and "ec_callees_blobs ctx' = []"
    and "parse_calldata S rda cd = Ok (Swap (a, b) (f, t), ctx)"
  shows "\<exists>b1 b2. (ec_callees_blobs ctx = [b1, b2] \<or> ec_callees_blobs ctx = [b2, b1]) \<and>
    calls S rd a (TransferFrom (ec_caller ctx) (ec_contract_name ctx) f) b1 \<and> calls S rd b (Transfer (ec_caller ctx) t) b2"
proof -
  have "check_callee_pair S rd ctx (a, b) (TransferFrom (ec_caller ctx) (ec_contract_name ctx) f)
      (Transfer (ec_caller ctx) t) = Ok ctx'"
    using assms(1,3) by (auto simp: Amm_execute_def split: sum.split_asm elim!: map_ok.elims)
  then obtain ctx1 where c: "is_in_callee_blobs S rd ctx a (TransferFrom (ec_caller ctx) (ec_contract_name ctx) f) = (ctx1, Ok ())"
      "is_in_callee_blobs S rd ctx1 b (Transfer (ec_caller ctx) t) = (ctx', Ok ())"
    by (auto simp: check_callee_pair_def split: prod.split_asm sum.split_asm)
  from c(1) obtain pre b1 post where 1: "ec_callees_blobs ctx = pre @ b1 # post"
      "calls S rd a (TransferFrom (ec_caller ctx) (ec_contract_name ctx) f) b1" "ctx1 = ctx\<lparr>ec_callees_blobs := pre @ post\<rparr>"
    by (rule is_in_callee_blobs_consumes)
  from c(2) obtain pre2 b2 post2 where 2: "ec_callees_blobs ctx1 = pre2 @ b2 # post2"
      "calls S rd b (Transfer (ec_caller ctx) t) b2" "ctx' = ctx1\<lparr>ec_callees_blobs := pre2 @ post2\<rparr>"
    by (rule is_in_callee_blobs_consumes)
  have "pre @ post = [b2]" using 1(3) 2(1,3) assms(2) by simp
  with 1(1) have "ec_callees_blobs ctx = [b1, b2] \<or> ec_callees_blobs ctx = [b2, b1]"
    by (cases pre) auto
  with 1(2) 2(2) show ?thesis by blast
qed


text \<open>
  A new pair is stored under its normalised name, but with the amounts in the order of the
  request: when the first token has the larger name, each token gets the reserve of the other.
\<close>

theorem new_pair_reserves:
  assumes "create_new_pair S amm (a, b) (m, n) = (amm', Ok out)"
  shows "reserves amm' a b = Some (if a < b then (m, n) else (n, m))"
proof -
  have "a \<noteq> b" "map_of (am_pairs amm') (UnorderedTokenPair_new a b) = Some (m, n)"
    using assms by (auto simp: create_new_pair_def Let_def hm_simps split: if_splits)
  then show ?thesis by (simp add: reserves_def less_le)
qed

lemma sample_new_pair:
  "\<exists>amm' out. create_new_pair sample_sdk Amm_default (''z'', ''a'') (7, 9) = (amm', Ok out)"
  by (simp add: create_new_pair_def Amm_default_def Let_def)

theorem new_pair_reserves_witness:
  "\<exists>amm' out. create_new_pair sample_sdk Amm_default (''z'', ''a'') (7, 9) = (amm', Ok out) \<and>
     reserves amm' ''z'' ''a'' = Some (9, 7)"
proof -
  obtain amm' out where new: "create_new_pair sample_sdk Amm_default (''z'', ''a'') (7, 9) = (amm', Ok out)"
    using sample_new_pair by blast
  with new_pair_reserves [OF new] show ?thesis by auto
qed

subsection \<open>Witnesses\<close>

definition sample_amm :: Amm where
  "sample_amm = \<lparr>am_pairs = [(UTP ''a'' ''b'', (20, 50))]\<rparr>"

text \<open>A swap of 5 of \<open>a\<close> for 10 of \<open>b\<close>, with the two transfers it needs.\<close>

definition sample_swap :: "AmmAction reader" where
  "sample_swap d = Some (Swap (''a'', ''b'') (5, 10), d)"

definition sample_swap_transfers :: "HyllarAction reader" where
  "sample_swap_transfers d =
     (case d of [] \<Rightarrow> None | x # r \<Rightarrow> Some (if x = 1 then TransferFrom ''u@id'' ''amm'' 5 else Transfer ''u@id'' 10, r))"

definition sample_swap_calldata :: Calldata where
  "sample_swap_calldata =
     \<lparr>cd_tx_hash = ''h'', cd_identity = ''u@id'',
      cd_blobs = [(0, \<lparr>b_contract_name = ''amm'', b_data = [0, 0]\<rparr>),
                  (1, \<lparr>b_contract_name = ''a'', b_data = [1, 0, 0, 1]\<rparr>),
                  (2, \<lparr>b_contract_name = ''b'', b_data = [1, 0, 0, 2]\<rparr>)],
      cd_tx_blob_count = 3, cd_index = 0, cd_tx_ctx = None, cd_private_input = []\<rparr>"

lemma sample_swap_verified:
  "\<exists>out. verify_swap S sample_amm (''a'', ''b'') 5 10 = Some (\<lparr>am_pairs = [(UTP ''a'' ''b'', (25, 40))]\<rparr>, Ok out)"
  by (simp add: verify_swap_def sample_amm_def UnorderedTokenPair_new_def swap_pair_def swap_reserves_def)

lemma sample_reserves: "reserves sample_amm ''a'' ''b'' = Some (20, 50)"
  by (simp add: reserves_def sample_amm_def UnorderedTokenPair_new_def)


lemma sample_swap_parsed:
  "parse_calldata sample_sdk sample_swap sample_swap_calldata =
     Ok (Swap (''a'', ''b'') (5, 10),
         \<lparr>ec_callees_blobs = [\<lparr>b_contract_name = ''a'', b_data = [1, 0, 0, 1]\<rparr>, \<lparr>b_contract_name = ''b'', b_data = [1, 0, 0, 2]\<rparr>],
          ec_caller = ''u@id'', ec_contract_name = ''amm''\<rparr>)"
  by (simp add: sdk_eval sample_swap_calldata_def sample_swap_def)

lemma sample_swap_executed:
  "\<exists>amm' out. Amm_execute sample_sdk sample_swap sample_swap_transfers sample_amm sample_swap_calldata =
     Some (amm', Ok (out, \<lparr>ec_callees_blobs = [], ec_caller = ''u@id'', ec_contract_name = ''amm''\<rparr>, []))"
  using sample_swap_verified [of sample_sdk]
  by (auto simp: Amm_execute_def sample_swap_parsed check_callee_pair_def is_in_callee_blobs_def calls_def
      StructuredBlob_try_from_def from_slice_def StructuredBlobData_read_def sample_swap_transfers_def vec_remove_def)

theorem amm_swap_callees_witness:
  "\<exists>b1 b2. calls sample_sdk sample_swap_transfers ''a'' (TransferFrom ''u@id'' ''amm'' 5) b1 \<and>
     calls sample_sdk sample_swap_transfers ''b'' (Transfer ''u@id'' 10) b2"
proof -
  obtain amm' out where run: "Amm_execute sample_sdk sample_swap sample_swap_transfers sample_amm sample_swap_calldata =
      Some (amm', Ok (out, \<lparr>ec_callees_blobs = [], ec_caller = ''u@id'', ec_contract_name = ''amm''\<rparr>, []))"
    using sample_swap_executed by blast
  from amm_swap_callees [OF run _ sample_swap_parsed] show ?thesis by auto
qed

definition sample_token :: Hyllar where
  "sample_token =
     \<lparr>hy_total_supply = 100, hy_balances = [(''amm'', 60), (''u@id'', 40)], hy_allowances = [((''u@id'', ''amm''), 5)]\<rparr>"

lemma sample_token_inv: "hyllar_inv sample_token"
  by (simp add: hyllar_inv_def sample_token_def total_def bt_inv_def)

lemma sample_token_runs:
  "\<exists>ta' out. execute_token_action sample_token (TransferFrom ''u@id'' ''amm'' 5) (ExecutionContext_new ''amm'' ''a'') = (ta', Ok out)"
  "\<exists>tb' out. execute_token_action sample_token (Transfer ''u@id'' 10) (ExecutionContext_new ''amm'' ''b'') = (tb', Ok out)"
  by (simp_all add: sample_token_def hyllar_transfer_from_def hyllar_transfer_def hyllar_allowance_def hyllar_balance_of_def
      ExecutionContext_new_def)


text \<open>
  The quotient is rounded down and so the received amount up: with reserves of 1000 and 10 a
  single token of the first kind buys a whole token of the second kind, which is worth a hundred.
\<close>

lemma swap_rounds_up:
  "\<exists>amm' out. verify_swap S \<lparr>am_pairs = [(UTP ''a'' ''b'', (1000, 10))]\<rparr> (''a'', ''b'') 1 1 = Some (amm', Ok out) \<and>
     reserves amm' ''a'' ''b'' = Some (1001, 9)"
  by (simp add: verify_swap_def UnorderedTokenPair_new_def swap_pair_def swap_reserves_def reserves_def)

text \<open>The product wraps: with reserves of \<open>2 ^ 64\<close> one token buys the whole second reserve.\<close>

lemma swap_product_wraps:
  "\<exists>amm' out. verify_swap S \<lparr>am_pairs = [(UTP ''a'' ''b'', (2 ^ 64, 2 ^ 64))]\<rparr> (''a'', ''b'') 1 (2 ^ 64) = Some (amm', Ok out)"
  by (simp add: verify_swap_def UnorderedTokenPair_new_def swap_pair_def swap_reserves_def)

text \<open>A refused swap has already moved the reserves; only the guest program reverts them.\<close>

lemma refused_swap_moves_reserves:
  "\<exists>amm' e. verify_swap S sample_amm (''a'', ''b'') 5 11 = Some (amm', Err e) \<and> reserves amm' ''a'' ''b'' = Some (25, 40)"
  by (simp add: verify_swap_def sample_amm_def UnorderedTokenPair_new_def swap_pair_def swap_reserves_def reserves_def)

text \<open>A price query does not depend on the order of the tokens, although the reserves do.\<close>

lemma get_paired_amount_unordered: "get_paired_amount amm a b n = get_paired_amount amm b a n"
  by (simp add: get_paired_amount_def UnorderedTokenPair_new_commute [of a b])

end
