(* ===== verification/Staking.thy ===== *)
theory Staking
  imports Hyllar Hyle_Block "HOL-Library.Signed_Division" "HOL-Library.Multiset"
begin

text \<open>
  The staking contract \<open>crates/contracts/staking\<close> (\<open>state.rs\<close>, \<open>fees.rs\<close>, \<open>lib.rs\<close>): stakes,
  delegations, the bonded validators with their total bond, voting power and the fees for data
  dissemination. The consensus uses the same state to decide whether a set of signers is a
  quorum. Amounts are 128-bit words that wrap; a panic is \<open>None\<close>.
\<close>

subsection \<open>Fees\<close>

text \<open>\<open>i128\<close> in two's complement; its division truncates towards zero.\<close>

type_synonym i128 = "128 word"

definition i128_div :: "i128 \<Rightarrow> i128 \<Rightarrow> i128" where
  "i128_div a b = word_of_int (sint a sdiv sint b)"

record ValidatorFeeState =
  vf_balance :: i128
  vf_paid_cumul_size :: LaneBytesSize

definition ValidatorFeeState_default :: ValidatorFeeState where
  "ValidatorFeeState_default = \<lparr>vf_balance = 0, vf_paid_cumul_size = 0\<rparr>"

record Fees =
  fe_pending_fees :: "(ValidatorPublicKey \<times> LaneBytesSize) list"
  fe_balances :: "(ValidatorPublicKey, ValidatorFeeState) btreemap"

definition Fees_default :: Fees where
  "Fees_default = \<lparr>fe_pending_fees = [], fe_balances = []\<rparr>"

text \<open>\<open>balances.entry(v).or_default().balance += d\<close>.\<close>

definition add_fee_balance ::
  "ValidatorPublicKey \<Rightarrow> i128 \<Rightarrow> (ValidatorPublicKey, ValidatorFeeState) btreemap \<Rightarrow> (ValidatorPublicKey, ValidatorFeeState) btreemap" where
  "add_fee_balance v d m =
     (let state = (case map_of m v of None \<Rightarrow> ValidatorFeeState_default | Some s \<Rightarrow> s) in
        bt_insert v (state\<lparr>vf_balance := vf_balance state + d\<rparr>) m)"

definition fees_deposit_for_fees :: "Fees \<Rightarrow> ValidatorPublicKey \<Rightarrow> u128 \<Rightarrow> Fees" where
  "fees_deposit_for_fees fe holder amount = fe\<lparr>fe_balances := add_fee_balance holder amount (fe_balances fe)\<rparr>"

definition fees_pay_for_dadi :: "Fees \<Rightarrow> ValidatorPublicKey \<Rightarrow> LaneBytesSize \<Rightarrow> Fees \<times> (unit, string) Result" where
  "fees_pay_for_dadi fe disseminator cumul_size =
     (fe\<lparr>fe_pending_fees := fe_pending_fees fe @ [(disseminator, cumul_size)]\<rparr>, Ok ())"

text \<open>One pending fee: charge the disseminator, then pay the bonded validators.\<close>

definition distribute_one ::
  "ValidatorPublicKey list \<Rightarrow> ValidatorPublicKey \<Rightarrow> LaneBytesSize \<Rightarrow> (ValidatorPublicKey, ValidatorFeeState) btreemap \<Rightarrow>
     ((ValidatorPublicKey, ValidatorFeeState) btreemap \<times> (unit, string) Result) option" where
  "distribute_one bonded d cumul_size m =
     (case map_of m d of
        None \<Rightarrow> Some (m, Err ''Logic issue: disseminator not found in balances'')
      | Some state \<Rightarrow>
          if cumul_size < vf_paid_cumul_size state then
            Some (m, Err (''Logic issue: cumul_size should always increase. '' @ show_nat (unat cumul_size) @ '' < '' @
                          show_nat (unat (vf_paid_cumul_size state))))
          else
            let fee = (ucast ((cumul_size - vf_paid_cumul_size state) * 1) :: i128);
                m1 = bt_insert d (state\<lparr>vf_balance := vf_balance state - fee, vf_paid_cumul_size := cumul_size\<rparr>) m
            in
              if bonded = [] then None
              else Some (fold (\<lambda>v. add_fee_balance v (i128_div fee (word_of_nat (length bonded)))) bonded m1, Ok ()))"

fun distribute_loop ::
  "ValidatorPublicKey list \<Rightarrow> (ValidatorPublicKey \<times> LaneBytesSize) list \<Rightarrow> (ValidatorPublicKey, ValidatorFeeState) btreemap \<Rightarrow>
     ((ValidatorPublicKey, ValidatorFeeState) btreemap \<times> (unit, string) Result) option" where
  "distribute_loop bonded [] m = Some (m, Ok ())"
| "distribute_loop bonded ((d, cumul_size) # ps) m =
     (case distribute_one bonded d cumul_size m of
        None \<Rightarrow> None
      | Some (m', Inl e) \<Rightarrow> Some (m', Err e)
      | Some (m', Inr _) \<Rightarrow> distribute_loop bonded ps m')"

text \<open>\<open>drain(..)\<close> empties the pending fees also when the loop returns early.\<close>

definition fees_distribute :: "Fees \<Rightarrow> ValidatorPublicKey list \<Rightarrow> (Fees \<times> (unit, string) Result) option" where
  "fees_distribute fe bonded =
     map_option (\<lambda>(m, r). (\<lparr>fe_pending_fees = [], fe_balances = m\<rparr>, r))
       (distribute_loop bonded (fe_pending_fees fe) (fe_balances fe))"

subsection \<open>Stakes and bonds\<close>

record Staking =
  st_stakes :: "(Identity, u128) btreemap"
  st_delegations :: "(ValidatorPublicKey, Identity list) btreemap"
  st_rewarded :: "(ValidatorPublicKey, BlockHeight list) btreemap"
  st_bonded :: "ValidatorPublicKey list"
  st_total_bond :: u128
  st_fees :: Fees

definition MIN_STAKE :: u128 where
  "MIN_STAKE = 32"

definition Staking_new :: Staking where
  "Staking_new =
     \<lparr>st_stakes = [], st_delegations = [], st_rewarded = [], st_bonded = [], st_total_bond = 0, st_fees = Fees_default\<rparr>"

definition is_known :: "Staking \<Rightarrow> ValidatorPublicKey \<Rightarrow> bool" where
  "is_known st key = list_ex (\<lambda>v. v = key) (map fst (st_delegations st))"

definition is_bonded :: "Staking \<Rightarrow> ValidatorPublicKey \<Rightarrow> bool" where
  "is_bonded st pubkey = list_ex (\<lambda>v. v = pubkey) (st_bonded st)"

definition get_stake :: "Staking \<Rightarrow> ValidatorPublicKey \<Rightarrow> u128 option" where
  "get_stake st validator =
     map_option (\<lambda>delegations. sum_list (map (bal (st_stakes st)) delegations)) (map_of (st_delegations st) validator)"

definition bond :: "Staking \<Rightarrow> ValidatorPublicKey \<Rightarrow> Staking \<times> (unit, string) Result" where
  "bond st validator =
     (if is_bonded st validator then (st, Err ''Validator already bonded'')
      else
        (case get_stake st validator of
           None \<Rightarrow> (st, Err ''Validator does not have enough stake'')
         | Some stake \<Rightarrow>
             if stake < MIN_STAKE then (st, Err ''Validator does not have enough stake'')
             else
               (st\<lparr>st_bonded := sort (st_bonded st @ [validator]), st_total_bond := st_total_bond st + stake\<rparr>, Ok ())))"

definition compute_f :: "Staking \<Rightarrow> u128" where
  "compute_f st = st_total_bond st div 3"

definition compute_voting_power :: "Staking \<Rightarrow> ValidatorPublicKey list \<Rightarrow> u128" where
  "compute_voting_power st validators =
     sum_list (List.map_filter (get_stake st) (remdups_adj (sort validators)))"

definition stake :: "Staking \<Rightarrow> Identity \<Rightarrow> u128 \<Rightarrow> Staking \<times> (string, string) Result" where
  "stake st staker amount =
     (if map_of (st_stakes st) staker \<noteq> None then
        (st, Err (''Staking balance is frozen for '' @ staker @ '' (already staked)''))
      else (st\<lparr>st_stakes := bt_insert staker amount (st_stakes st)\<rparr>, Ok ''Staked''))"

definition delegate_to :: "Staking \<Rightarrow> Identity \<Rightarrow> ValidatorPublicKey \<Rightarrow> Staking \<times> (string, string) Result" where
  "delegate_to st staker validator =
     (if list_ex (\<lambda>v. v = staker) (concat (map snd (st_delegations st))) then (st, Err ''Already delegated'')
      else (st\<lparr>st_delegations := bt_push validator staker (st_delegations st)\<rparr>, Ok ''Delegated''))"

definition deposit_for_fees :: "Staking \<Rightarrow> ValidatorPublicKey \<Rightarrow> u128 \<Rightarrow> Staking \<times> (string, string) Result" where
  "deposit_for_fees st holder amount =
     (st\<lparr>st_fees := fees_deposit_for_fees (st_fees st) holder amount\<rparr>, Ok ''Deposited'')"

definition pay_for_dadi :: "Staking \<Rightarrow> LaneId \<Rightarrow> LaneBytesSize \<Rightarrow> Staking \<times> (unit, string) Result" where
  "pay_for_dadi st lane_id cumul_size =
     (case fees_pay_for_dadi (st_fees st) lane_id cumul_size of (fe, r) \<Rightarrow> (st\<lparr>st_fees := fe\<rparr>, r))"

definition staking_distribute :: "Staking \<Rightarrow> (Staking \<times> (unit, string) Result) option" where
  "staking_distribute st =
     map_option (\<lambda>(fe, r). (st\<lparr>st_fees := fe\<rparr>, r)) (fees_distribute (st_fees st) (st_bonded st))"

text \<open>\<open>todo!()\<close> panics.\<close>

fun process_staking_action :: "Staking \<Rightarrow> Identity \<Rightarrow> StakingAction \<Rightarrow> (Staking \<times> (string, string) Result) option" where
  "process_staking_action st identity (Stake amount) = Some (stake st identity amount)"
| "process_staking_action st identity (Delegate validator) = Some (delegate_to st identity validator)"
| "process_staking_action st identity (Distribute claim) = None"
| "process_staking_action st identity (DepositForFees holder amount) = Some (deposit_for_fees st holder amount)"

fun process_staking_actions :: "Staking \<Rightarrow> (Identity \<times> StakingAction) list \<Rightarrow> (Staking \<times> (unit, string) Result) option" where
  "process_staking_actions st [] = Some (st, Ok ())"
| "process_staking_actions st ((identity, action) # rest) =
     (case process_staking_action st identity action of
        None \<Rightarrow> None
      | Some (st', Inl e) \<Rightarrow> Some (st', Err e)
      | Some (st', Inr _) \<Rightarrow> process_staking_actions st' rest)"

fun bond_all :: "Staking \<Rightarrow> ValidatorPublicKey list \<Rightarrow> Staking \<times> (unit, string) Result" where
  "bond_all st [] = (st, Ok ())"
| "bond_all st (v # vs) =
     (case bond st v of (st', Inl e) \<Rightarrow> (st', Err e) | (st', Inr _) \<Rightarrow> bond_all st' vs)"

definition process_block :: "Staking \<Rightarrow> Block \<Rightarrow> (Staking \<times> (unit, string) Result) option" where
  "process_block st b =
     (case process_staking_actions st (bk_staking_actions b) of
        None \<Rightarrow> None
      | Some (st', Inl e) \<Rightarrow> Some (st', Err e)
      | Some (st', Inr _) \<Rightarrow> Some (bond_all st' (bk_new_bounded_validators b)))"

subsection \<open>The contract\<close>

definition check_transfer_blob :: "SdkEnv \<Rightarrow> HyllarAction reader \<Rightarrow> (HyllarAction \<Rightarrow> string) \<Rightarrow> IndexedBlobs \<Rightarrow> BlobIndex \<Rightarrow> u128 \<Rightarrow> (unit, string) Result" where
  "check_transfer_blob S rd dbg blobs index amount =
     (case parse_structured_blob S rd blobs index of
        None \<Rightarrow> Err ''No transfer blob found''
      | Some transfer_action \<Rightarrow>
          (case sd_parameters (sb_data transfer_action) of
             Transfer recipient transfer_amount \<Rightarrow>
               if recipient \<noteq> ''staking'' then Err (''Transfer recipient should be 'staking' but was '' @ recipient)
               else if sb_contract_name transfer_action \<noteq> ''hyllar'' then
                 Err (''Only hyllar token are accepted to stake. Got '' @ sb_contract_name transfer_action @ ''.'')
               else if amount \<noteq> transfer_amount then
                 Err (''Transfer amount '' @ show_nat (unat transfer_amount) @ '' mismatch Stake amount '' @ show_nat (unat amount))
               else Ok ()
           | els \<Rightarrow> Err (''Wrong HyllarAction, should be a transfer '' @ show_nat (unat amount) @ '' to 'staking' but was '' @ dbg els)))"

fun staking_action ::
  "SdkEnv \<Rightarrow> HyllarAction reader \<Rightarrow> (HyllarAction \<Rightarrow> string) \<Rightarrow> Staking \<Rightarrow> Calldata \<Rightarrow> StakingAction \<Rightarrow> ExecutionContext \<Rightarrow>
     (Staking \<times> (string, string) Result) option" where
  "staking_action S rd dbg st cd (Stake amount) ctx =
     (case check_transfer_blob S rd dbg (cd_blobs cd) (cd_index cd + 1) amount of
        Inl e \<Rightarrow> Some (st, Err e)
      | Inr _ \<Rightarrow> Some (stake st (ec_caller ctx) amount))"
| "staking_action S rd dbg st cd (Delegate validator) ctx = Some (delegate_to st (ec_caller ctx) validator)"
| "staking_action S rd dbg st cd (Distribute claim) ctx = None"
| "staking_action S rd dbg st cd (DepositForFees holder amount) ctx =
     (case check_transfer_blob S rd dbg (cd_blobs cd) (cd_index cd + 1) amount of
        Inl e \<Rightarrow> Some (st, Err e)
      | Inr _ \<Rightarrow> Some (deposit_for_fees st holder amount))"

definition Staking_execute ::
  "SdkEnv \<Rightarrow> StakingAction reader \<Rightarrow> HyllarAction reader \<Rightarrow> (HyllarAction \<Rightarrow> string) \<Rightarrow> Staking \<Rightarrow> Calldata \<Rightarrow> (Staking \<times> RunResult) option" where
  "Staking_execute S rds rd dbg st cd =
     (case parse_calldata S rds cd of
        Inl e \<Rightarrow> Some (st, Err e)
      | Inr (action, ctx) \<Rightarrow>
          map_option (map_ok (\<lambda>output. (as_bytes output, ctx, []))) (staking_action S rd dbg st cd action ctx))"

definition Staking_commit :: "Env \<Rightarrow> Staking \<Rightarrow> StateCommitment" where
  "Staking_commit E st =
     sha2_256 E
       (concat (map (\<lambda>(identity, s). as_bytes identity @ to_le_bytes 16 (unat s)) (st_stakes st)) @
        concat (map (\<lambda>(v, ds). v @ concat (map as_bytes ds)) (st_delegations st)) @
        concat (map (\<lambda>(v, hs). v @ concat (map (\<lambda>h. to_le_bytes 8 (unat h)) hs)) (st_rewarded st)))"

definition Staking_contract ::
  "Env \<Rightarrow> SdkEnv \<Rightarrow> StakingAction reader \<Rightarrow> HyllarAction reader \<Rightarrow> (HyllarAction \<Rightarrow> string) \<Rightarrow> (Staking, Staking) ZkContract" where
  "Staking_contract E S rds rd dbg = FullStateRevert (Staking_execute S rds rd dbg) (Staking_commit E)"

subsection \<open>Stakes as natural numbers\<close>

lemma total_sum: "bt_inv m \<Longrightarrow> total m = (\<Sum>k \<in> fst ` set m. unat (bal m k))"
proof -
  assume "bt_inv m"
  then have d: "distinct (map fst m)" by (rule bt.ok_distinct)
  then have "unat (bal m k) = unat b" if "(k, b) \<in> set m" for k b
    using that by (simp add: bal_def)
  then have "map (\<lambda>(k, b). unat b) m = map (\<lambda>k. unat (bal m k)) (map fst m)"
    by (auto simp: case_prod_beta)
  then show ?thesis
    using d by (simp add: total_def sum_list_distinct_conv_sum_set del: map_map)
qed

lemma sum_bal_le_total:
  assumes "bt_inv m" and "finite D"
  shows "(\<Sum>k \<in> D. unat (bal m k)) \<le> total m"
proof -
  have "bal m k = 0" if "k \<notin> fst ` set m" for k
    using that by (simp add: bal_def map_of_eq_None_iff [THEN iffD2])
  then have "(\<Sum>k \<in> D. unat (bal m k)) = (\<Sum>k \<in> D \<inter> fst ` set m. unat (bal m k))"
    using assms(2) by (intro sum.mono_neutral_right) auto
  also have "\<dots> \<le> (\<Sum>k \<in> fst ` set m. unat (bal m k))"
    by (intro sum_mono2) auto
  finally show ?thesis by (simp add: total_sum [OF assms(1)])
qed

lemma unat_sum_list:
  "sum_list (map unat ws) < 2 ^ 128 \<Longrightarrow> unat (sum_list ws) = sum_list (map unat ws)" for ws :: "u128 list"
  by (induction ws) (simp_all add: unat_plus)

text \<open>The delegators of a validator and their stake.\<close>

definition delegators :: "Staking \<Rightarrow> ValidatorPublicKey \<Rightarrow> Identity list" where
  "delegators st v = (case map_of (st_delegations st) v of None \<Rightarrow> [] | Some ds \<Rightarrow> ds)"

definition nstake :: "Staking \<Rightarrow> ValidatorPublicKey \<Rightarrow> nat" where
  "nstake st v = sum_list (map (\<lambda>d. unat (bal (st_stakes st) d)) (delegators st v))"

definition staking_wf :: "Staking \<Rightarrow> bool" where
  "staking_wf st \<longleftrightarrow> bt_inv (st_stakes st) \<and> bt_inv (st_delegations st) \<and>
     distinct (concat (map snd (st_delegations st))) \<and> distinct (st_bonded st)"

text \<open>All stakes together fit into 128 bits, so no sum of stakes wraps.\<close>

definition staking_inv :: "Staking \<Rightarrow> bool" where
  "staking_inv st \<longleftrightarrow> staking_wf st \<and> total (st_stakes st) < 2 ^ 128"

lemma delegators_nth:
  "delegators st v \<noteq> [] \<Longrightarrow> (v, delegators st v) \<in> set (st_delegations st)"
  by (auto simp: delegators_def map_of_SomeD split: option.splits)

lemma delegators_distinct: "staking_inv st \<Longrightarrow> distinct (delegators st v)"
proof (cases "delegators st v = []")
  case False
  assume "staking_inv st"
  with delegators_nth [OF False] show ?thesis
    by (force simp: staking_inv_def staking_wf_def distinct_concat_iff)
qed simp

lemma concat_snd_disjoint:
  "distinct (concat (map snd m)) \<Longrightarrow> (v, ds) \<in> set m \<Longrightarrow> (w, es) \<in> set m \<Longrightarrow> v \<noteq> w \<Longrightarrow> set ds \<inter> set es = {}"
proof (induction m)
  case (Cons p m)
  then have rest: "set (snd p) \<inter> (\<Union>a \<in> set m. set (snd a)) = {}" by simp
  consider "p = (v, ds)" "(w, es) \<in> set m" | "p = (w, es)" "(v, ds) \<in> set m" | "(v, ds) \<in> set m" "(w, es) \<in> set m"
    using Cons.prems by auto
  then show ?case
  proof cases
    case 1
    then have "set es \<subseteq> (\<Union>a \<in> set m. set (snd a))" by force
    with 1 rest show ?thesis by auto
  next
    case 2
    then have "set ds \<subseteq> (\<Union>a \<in> set m. set (snd a))" by force
    with 2 rest show ?thesis by auto
  next
    case 3
    with Cons show ?thesis by simp
  qed
qed simp

lemma delegators_disjoint:
  assumes "staking_inv st" and "v \<noteq> w"
  shows "set (delegators st v) \<inter> set (delegators st w) = {}"
proof (cases "delegators st v = [] \<or> delegators st w = []")
  case False
  with assms delegators_nth [of st v] delegators_nth [of st w] show ?thesis
    by (intro concat_snd_disjoint [of "st_delegations st" v _ w]) (auto simp: staking_inv_def staking_wf_def)
qed auto

lemma nstake_sum: "staking_inv st \<Longrightarrow> nstake st v = (\<Sum>d \<in> set (delegators st v). unat (bal (st_stakes st) d))"
  by (simp add: nstake_def sum_list_distinct_conv_sum_set delegators_distinct)

lemma stake_sum_le:
  assumes "staking_inv st" and "finite V"
  shows "(\<Sum>v \<in> V. nstake st v) \<le> total (st_stakes st)"
proof -
  have "(\<Sum>v \<in> V. nstake st v) = (\<Sum>d \<in> (\<Union>v \<in> V. set (delegators st v)). unat (bal (st_stakes st) d))"
    using assms delegators_disjoint [OF assms(1)] by (subst sum.UNION_disjoint) (auto simp: nstake_sum)
  also have "\<dots> \<le> total (st_stakes st)"
    using assms by (intro sum_bal_le_total) (auto simp: staking_inv_def staking_wf_def)
  finally show ?thesis .
qed

lemma get_stake_unat:
  assumes "staking_inv st"
  shows "get_stake st v = Some s \<Longrightarrow> unat s = nstake st v" and "get_stake st v = None \<Longrightarrow> nstake st v = 0"
proof -
  have "nstake st v < 2 ^ 128"
    using stake_sum_le [OF assms, of "{v}"] assms by (simp add: staking_inv_def staking_wf_def)
  then have "unat (sum_list (map (bal (st_stakes st)) (delegators st v))) = nstake st v"
    by (subst unat_sum_list) (simp_all add: nstake_def comp_def)
  then show "get_stake st v = Some s \<Longrightarrow> unat s = nstake st v"
    by (auto simp: get_stake_def delegators_def)
  show "get_stake st v = None \<Longrightarrow> nstake st v = 0"
    by (simp add: get_stake_def nstake_def delegators_def)
qed

lemma remdups_adj_sorted_distinct: "sorted xs \<Longrightarrow> distinct (remdups_adj xs)"
  by (induction xs rule: remdups_adj.induct) auto

lemma voting_power_unat:
  assumes "staking_inv st"
  shows "unat (compute_voting_power st vs) = (\<Sum>v \<in> set vs. nstake st v)"
proof -
  let ?vs = "remdups_adj (sort vs)"
  have d: "distinct ?vs" by (simp add: remdups_adj_sorted_distinct)
  have "map unat (List.map_filter (get_stake st) ws) = map (nstake st) (filter (\<lambda>v. get_stake st v \<noteq> None) ws)" for ws
    using get_stake_unat [OF assms] by (induction ws) (auto simp: List.map_filter_simps split: option.split)
  moreover have "sum_list (map (nstake st) (filter (\<lambda>v. get_stake st v \<noteq> None) ws)) = sum_list (map (nstake st) ws)" for ws
    using get_stake_unat(2) [OF assms] by (induction ws) auto
  ultimately have sum: "sum_list (map unat (List.map_filter (get_stake st) ?vs)) = (\<Sum>v \<in> set vs. nstake st v)"
    using d by (simp add: sum_list_distinct_conv_sum_set)
  have "(\<Sum>v \<in> set vs. nstake st v) < 2 ^ 128"
    using stake_sum_le [OF assms, of "set vs"] assms by (simp add: staking_inv_def staking_wf_def)
  then show ?thesis
    unfolding compute_voting_power_def by (subst unat_sum_list) (simp_all only: sum)
qed

subsection \<open>Operations keep the invariant\<close>

text \<open>The stake the bonded validators have now.\<close>

definition bonded_stake :: "Staking \<Rightarrow> nat" where
  "bonded_stake st = (\<Sum>v \<in> set (st_bonded st). nstake st v)"

lemma staking_inv_new: "staking_inv Staking_new"
  by (simp add: staking_inv_def staking_wf_def Staking_new_def bt_inv_def total_def)

lemma bond_accepted:
  assumes "bond st v = (st', Ok ())"
  obtains s where "v \<notin> set (st_bonded st)" "get_stake st v = Some s" "MIN_STAKE \<le> s"
    "st' = st\<lparr>st_bonded := sort (st_bonded st @ [v]), st_total_bond := st_total_bond st + s\<rparr>"
proof (cases "is_bonded st v")
  case True
  with assms show thesis by (simp add: bond_def)
next
  case False
  show thesis
  proof (cases "get_stake st v")
    case None
    with False assms show thesis by (simp add: bond_def)
  next
    case (Some s)
    with False assms have "MIN_STAKE \<le> s" "st' = st\<lparr>st_bonded := sort (st_bonded st @ [v]), st_total_bond := st_total_bond st + s\<rparr>"
      by (simp_all add: bond_def not_less split: if_splits)
    with False Some show thesis
      by (intro that) (simp_all add: is_bonded_def list_ex_iff)
  qed
qed

lemma nstake_cong: "st_stakes st' = st_stakes st \<Longrightarrow> st_delegations st' = st_delegations st \<Longrightarrow> nstake st' = nstake st"
  by (simp add: nstake_def delegators_def fun_eq_iff)

lemma bond_keeps:
  assumes "staking_inv st" and "bond st v = (st', Ok ())"
  shows "staking_inv st'" and "bonded_stake st' = bonded_stake st + nstake st v"
    and "st_total_bond st' = st_total_bond st + word_of_nat (nstake st v)"
proof -
  obtain s where s: "v \<notin> set (st_bonded st)" "get_stake st v = Some s" "MIN_STAKE \<le> s"
      "st' = st\<lparr>st_bonded := sort (st_bonded st @ [v]), st_total_bond := st_total_bond st + s\<rparr>"
    by (rule bond_accepted [OF assms(2)])
  have n: "nstake st' = nstake st" unfolding s(4) by (rule nstake_cong) simp_all
  have "unat s = nstake st v" using assms(1) s(2) by (rule get_stake_unat(1))
  then have "word_of_nat (nstake st v) = s" by (simp flip: \<open>unat s = nstake st v\<close>)
  then show "st_total_bond st' = st_total_bond st + word_of_nat (nstake st v)" by (simp only: s(4)) simp
  show "staking_inv st'" using s(1) assms(1) unfolding s(4) by (simp add: staking_inv_def staking_wf_def)
  show "bonded_stake st' = bonded_stake st + nstake st v"
    unfolding bonded_stake_def n unfolding s(4) using s(1) by simp
qed

lemma delegators_delegate:
  "delegators (st\<lparr>st_delegations := bt_push w staker (st_delegations st)\<rparr>) v =
     (if v = w then delegators st v @ [staker] else delegators st v)"
  by (simp add: delegators_def bt_push_def hm_simps)



lemma mset_concat_bt_push:
  "bt_inv m \<Longrightarrow> mset (concat (map snd (bt_push k x m))) = add_mset x (mset (concat (map snd m)))"
proof (induction m)
  case (Cons e m)
  obtain j ys where e: "e = (j, ys)" by (cases e)
  have inv: "bt_inv m" "\<forall>i \<in> fst ` set m. j < i"
    using Cons.prems e by (auto simp: bt_inv_def)
  consider "j < k" | "j = k" | "k < j" by (rule linorder_cases)
  then show ?case
  proof cases
    case 1
    with Cons.IH [OF inv(1)] e show ?thesis by (auto simp: bt_push_def)
  next
    case 2
    with e show ?thesis by (simp add: bt_push_def)
  next
    case 3
    then have "map_of m k = None"
      using inv(2) by (auto simp: map_of_eq_None_iff)
    with 3 e show ?thesis by (auto simp: bt_push_def)
  qed
qed (simp add: bt_push_def)

lemma delegate_keeps:
  assumes "staking_wf st" and "delegate_to st staker v = (st', r)"
  shows "staking_wf st'"
proof (cases "staker \<in> set (concat (map snd (st_delegations st)))")
  case True
  with assms show ?thesis by (simp add: delegate_to_def list_ex_iff)
next
  case False
  let ?d = "bt_push v staker (st_delegations st)"
  have st': "st' = st\<lparr>st_delegations := ?d\<rparr>"
    using False assms(2) by (simp add: delegate_to_def list_ex_iff split: if_splits)
  have "mset (concat (map snd ?d)) = mset (staker # concat (map snd (st_delegations st)))"
    using assms(1) by (simp add: staking_wf_def mset_concat_bt_push)
  then have "distinct (concat (map snd ?d))"
    using mset_eq_imp_distinct_iff False assms(1) unfolding staking_wf_def by (metis distinct.simps(2))
  with assms(1) st' show ?thesis
    by (simp add: staking_wf_def) (simp add: bt_push_def)
qed

lemma stake_keeps:
  assumes "staking_inv st" and "stake st staker amount = (st', r)" and "total (st_stakes st) + unat amount < 2 ^ 128"
  shows "staking_inv st'"
proof (cases "map_of (st_stakes st) staker = None")
  case True
  then have "total (bt_insert staker amount (st_stakes st)) = total (st_stakes st) + unat amount"
    using assms(1) total_bt_insert [of "st_stakes st" staker amount] by (simp add: staking_inv_def staking_wf_def bal_def)
  with True assms show ?thesis by (auto simp: stake_def staking_inv_def staking_wf_def)
next
  case False
  with assms show ?thesis by (auto simp: stake_def)
qed

lemma stake_wf:
  "staking_wf st \<Longrightarrow> staking_wf (fst (stake st staker amount))"
  by (auto simp: stake_def staking_wf_def)

lemma delegate_wf: "staking_wf st \<Longrightarrow> staking_wf (fst (delegate_to st staker v))"
  using delegate_keeps [of st staker v] by (cases "delegate_to st staker v") simp

lemma deposit_wf: "staking_wf st \<Longrightarrow> staking_wf (fst (deposit_for_fees st holder amount))"
  by (simp add: deposit_for_fees_def staking_wf_def)

subsection \<open>The contract keeps the invariant\<close>

lemma staking_action_wf:
  assumes "staking_wf st" and "staking_action S rd dbg st cd action ctx = Some (st', res)"
  shows "staking_wf st'"
proof (cases action)
  case (Stake amount)
  with assms stake_wf [of st "ec_caller ctx" amount] show ?thesis by (auto split: sum.splits)
next
  case (Delegate v)
  with assms delegate_wf [of st "ec_caller ctx" v] show ?thesis by auto
next
  case (DepositForFees holder amount)
  with assms deposit_wf [of st holder amount] show ?thesis by (auto split: sum.splits)
qed (use assms in simp)

lemma Staking_execute_run:
  assumes "Staking_execute S rds rd dbg st cd = Some (st', Ok r)"
  obtains action ctx out where "parse_calldata S rds cd = Ok (action, ctx)"
    "staking_action S rd dbg st cd action ctx = Some (st', Ok out)" "r = (as_bytes out, ctx, [])"
proof -
  obtain action ctx where p: "parse_calldata S rds cd = Ok (action, ctx)"
    using assms by (auto simp: Staking_execute_def split: sum.splits)
  obtain st1 out where a: "staking_action S rd dbg st cd action ctx = Some (st1, out)"
    using assms p by (auto simp: Staking_execute_def)
  show thesis
  proof (cases out)
    case (Inl e)
    with assms p a show thesis by (simp add: Staking_execute_def)
  next
    case (Inr o')
    with assms p a show thesis by (intro that [of action ctx o']) (simp_all add: Staking_execute_def)
  qed
qed

interpretation staking: full_revert "Staking_execute S rds rd dbg" "Staking_commit E" staking_wf for E S rds rd dbg
proof unfold_locales
  fix s cd s' r
  assume "staking_wf s" "Staking_execute S rds rd dbg s cd = Some (s', Ok r)"
  then show "staking_wf s'"
    by (auto elim!: Staking_execute_run dest: staking_action_wf)
qed

lemma check_transfer_blob_Ok:
  assumes "check_transfer_blob S rd dbg blobs index amount = Ok ()"
  obtains tr where "parse_structured_blob S rd blobs index = Some tr" "sb_contract_name tr = ''hyllar''"
    "sd_parameters (sb_data tr) = Transfer ''staking'' amount"
  using assms
  by (cases "parse_structured_blob S rd blobs index")
    (auto simp: check_transfer_blob_def split: HyllarAction.splits if_splits)

lemma stake_Ok:
  assumes "stake st staker amount = (st', Ok out)"
  shows "map_of (st_stakes st) staker = None \<and> st' = st\<lparr>st_stakes := bt_insert staker amount (st_stakes st)\<rparr>"
  using assms by (auto simp: stake_def split: if_splits)

text \<open>The blob after the staking blob transfers the amount to the staking contract.\<close>

definition backed :: "SdkEnv \<Rightarrow> HyllarAction reader \<Rightarrow> Calldata \<Rightarrow> u128 \<Rightarrow> bool" where
  "backed S rd cd amount \<longleftrightarrow>
     (\<exists>tr. parse_structured_blob S rd (cd_blobs cd) (cd_index cd + 1) = Some tr \<and> sb_contract_name tr = ''hyllar'' \<and>
        sd_parameters (sb_data tr) = Transfer ''staking'' amount)"

text \<open>
  C35. When a call of the staking contract succeeds, either the stakes are unchanged, or the caller
  had no stake and now has exactly the amount that the next blob transfers to the contract;
  the stakes then grow by this amount and nobody else's stake moves.
\<close>

theorem staking_backed:
  assumes "staking_wf st" and "Staking_execute S rds rd dbg st cd = Some (st', Ok (out, ctx, effects))"
  shows "st_stakes st' = st_stakes st \<or>
    (\<exists>amount. backed S rd cd amount \<and> bal (st_stakes st) (ec_caller ctx) = 0 \<and>
       bal (st_stakes st') (ec_caller ctx) = amount \<and> total (st_stakes st') = total (st_stakes st) + unat amount \<and>
       (\<forall>k. k \<noteq> ec_caller ctx \<longrightarrow> bal (st_stakes st') k = bal (st_stakes st) k))"
proof -
  obtain action ctx' o' where run: "staking_action S rd dbg st cd action ctx' = Some (st', Ok o')" "ctx' = ctx"
    using assms(2) by (auto elim: Staking_execute_run)
  show ?thesis
  proof (cases action)
    case (Stake amount)
    with run have "check_transfer_blob S rd dbg (cd_blobs cd) (cd_index cd + 1) amount = Ok ()"
        and stake: "stake st (ec_caller ctx) amount = (st', Ok o')"
      by (auto split: sum.splits)
    then have "backed S rd cd amount"
      unfolding backed_def by (auto elim!: check_transfer_blob_Ok)
    moreover have new: "map_of (st_stakes st) (ec_caller ctx) = None" "st' = st\<lparr>st_stakes := bt_insert (ec_caller ctx) amount (st_stakes st)\<rparr>"
      using stake_Ok [OF stake] by auto
    moreover have "total (st_stakes st') = total (st_stakes st) + unat amount"
      using new assms(1) total_bt_insert [of "st_stakes st" "ec_caller ctx" amount] by (simp add: staking_wf_def bal_def)
    ultimately show ?thesis by (auto simp: bal_def hm_simps)
  next
    case (Delegate v)
    with run show ?thesis by (auto simp: delegate_to_def split: if_splits)
  next
    case (DepositForFees holder amount)
    with run show ?thesis by (auto simp: deposit_for_fees_def split: sum.splits)
  qed (use run in simp)
qed

subsection \<open>Fees are conserved\<close>

definition fee_total :: "(ValidatorPublicKey, ValidatorFeeState) btreemap \<Rightarrow> i128" where
  "fee_total m = sum_list (map (\<lambda>(v, s). vf_balance s) m)"

definition fee_balance :: "(ValidatorPublicKey, ValidatorFeeState) btreemap \<Rightarrow> ValidatorPublicKey \<Rightarrow> i128" where
  "fee_balance m v = (case map_of m v of None \<Rightarrow> 0 | Some s \<Rightarrow> vf_balance s)"

lemma fee_total_bt_insert:
  "bt_inv m \<Longrightarrow> fee_total (bt_insert k s m) = fee_total m - fee_balance m k + vf_balance s"
proof (induction m)
  case (Cons e m)
  obtain j c where e: "e = (j, c)" by (cases e)
  have inv: "bt_inv m" "\<forall>i \<in> fst ` set m. j < i"
    using Cons.prems e by (auto simp: bt_inv_def)
  consider "j < k" | "j = k" | "k < j" by (rule linorder_cases)
  then show ?case
  proof cases
    case 1
    with Cons.IH [OF inv(1)] e show ?thesis by (auto simp: fee_total_def fee_balance_def)
  next
    case 2
    with e show ?thesis by (simp add: fee_total_def fee_balance_def)
  next
    case 3
    then have "map_of m k = None"
      using inv(2) by (auto simp: map_of_eq_None_iff)
    with 3 e show ?thesis by (auto simp: fee_total_def fee_balance_def)
  qed
qed (simp add: fee_total_def fee_balance_def)

lemma add_fee_balance_total:
  "bt_inv m \<Longrightarrow> fee_total (add_fee_balance v d m) = fee_total m + d \<and> bt_inv (add_fee_balance v d m)"
  by (auto simp: add_fee_balance_def fee_total_bt_insert fee_balance_def ValidatorFeeState_default_def split: option.split)

lemma add_fee_balances_total:
  "bt_inv m \<Longrightarrow> fee_total (fold (\<lambda>v. add_fee_balance v d) vs m) = fee_total m + of_nat (length vs) * d \<and>
     bt_inv (fold (\<lambda>v. add_fee_balance v d) vs m)"
  by (induction vs arbitrary: m) (auto simp: add_fee_balance_total algebra_simps)

lemma i128_div_nat:
  assumes "a < 2 ^ 64" and "0 < n" and "n < 2 ^ 64"
  shows "i128_div (word_of_nat a) (word_of_nat n) = word_of_nat (a div n)"
proof -
  have "sint (word_of_nat k :: i128) = int k" if "k < 2 ^ 64" for k :: nat
    using that by (simp add: signed_of_nat signed_take_bit_int_eq_self)
  then show ?thesis
    using assms by (simp add: i128_div_def signed_divide_int_def flip: zdiv_int)
qed

lemma distribute_one_total:
  assumes "bt_inv m" and "distribute_one bonded d c m = Some (m', Ok ())" and "length bonded < 2 ^ 64"
  obtains lost where "lost < length bonded" "fee_total m' + of_nat lost = fee_total m" "bt_inv m'"
proof -
  obtain state where state: "map_of m d = Some state"
    using assms(2) by (auto simp: distribute_one_def split: option.splits)
  let ?n = "length bonded" and ?k = "unat (c - vf_paid_cumul_size state)"
  let ?fee = "word_of_nat ?k :: i128"
  let ?m1 = "bt_insert d (state\<lparr>vf_balance := vf_balance state - ?fee, vf_paid_cumul_size := c\<rparr>) m"
  have n: "0 < ?n" and m': "m' = fold (\<lambda>v. add_fee_balance v (i128_div ?fee (word_of_nat ?n))) bonded ?m1"
    using assms(2) state by (auto simp: distribute_one_def Let_def of_nat_unat split: if_splits)
  have "?k < 2 ^ 64"
    using unsigned_less [where ?'a = nat, of "c - vf_paid_cumul_size state"] by simp
  then have div: "i128_div ?fee (word_of_nat ?n) = word_of_nat (?k div ?n)"
    using n assms(3) by (intro i128_div_nat)
  have m1: "fee_total ?m1 = fee_total m - ?fee" "bt_inv ?m1"
    using assms(1) state by (simp_all add: fee_total_bt_insert fee_balance_def)
  have "fee_total m' = fee_total m - ?fee + of_nat ?n * of_nat (?k div ?n)" "bt_inv m'"
    using add_fee_balances_total [OF m1(2), of "i128_div ?fee (word_of_nat ?n)" bonded] m1(1) unfolding m' div by auto
  moreover have "?fee = of_nat ?n * of_nat (?k div ?n) + of_nat (?k mod ?n)"
    unfolding of_nat_mult [symmetric] of_nat_add [symmetric] by simp
  ultimately show thesis
    using n by (intro that [of "?k mod ?n"]) (simp_all add: algebra_simps)
qed

lemma distribute_loop_total:
  assumes "bt_inv m" and "distribute_loop bonded ps m = Some (m', Ok ())" and "length bonded < 2 ^ 64"
  shows "\<exists>lost \<le> length ps * (length bonded - 1). fee_total m' + of_nat lost = fee_total m"
  using assms
proof (induction ps arbitrary: m)
  case (Cons p ps)
  obtain d c where p: "p = (d, c)" by (cases p)
  obtain m1 where one: "distribute_one bonded d c m = Some (m1, Ok ())" and rest: "distribute_loop bonded ps m1 = Some (m', Ok ())"
    using Cons.prems(2) p by (auto split: option.splits sum.splits)
  obtain l1 where l1: "l1 < length bonded" "fee_total m1 + of_nat l1 = fee_total m" "bt_inv m1"
    using Cons.prems(1) one Cons.prems(3) by (rule distribute_one_total)
  obtain l2 where l2: "l2 \<le> length ps * (length bonded - 1)" "fee_total m' + of_nat l2 = fee_total m1"
    using Cons.IH [OF l1(3) rest Cons.prems(3)] by blast
  have "fee_total m' + of_nat (l1 + l2) = fee_total m"
    using l1(2) l2(2) by (simp add: algebra_simps)
  moreover have "l1 + l2 \<le> length (p # ps) * (length bonded - 1)"
    using l1(1) l2(1) by simp
  ultimately show ?case by blast
qed simp

text \<open>
  C36. The distribution of the pending fees creates no money: the sum of all fee balances falls by
  less than one unit per bonded validator and pending fee, the rest of the rounded divisions.
\<close>

theorem fees_conserved:
  assumes "bt_inv (fe_balances (st_fees st))" and "staking_distribute st = Some (st', Ok ())"
    and "length (st_bonded st) < 2 ^ 64"
  shows "\<exists>lost \<le> length (fe_pending_fees (st_fees st)) * (length (st_bonded st) - 1).
    fee_total (fe_balances (st_fees st')) + of_nat lost = fee_total (fe_balances (st_fees st)) \<and>
    fe_pending_fees (st_fees st') = []"
proof -
  obtain m where "distribute_loop (st_bonded st) (fe_pending_fees (st_fees st)) (fe_balances (st_fees st)) = Some (m, Ok ())"
      "st_fees st' = \<lparr>fe_pending_fees = [], fe_balances = m\<rparr>"
    using assms(2) by (auto simp: staking_distribute_def fees_distribute_def)
  with distribute_loop_total [OF assms(1) _ assms(3)] show ?thesis by fastforce
qed

subsection \<open>Witnesses\<close>

definition sample_stake :: "StakingAction reader" where
  "sample_stake d = Some (Stake 40, d)"

definition sample_stake_transfer :: "HyllarAction reader" where
  "sample_stake_transfer d = Some (Transfer ''staking'' 40, d)"

definition sample_stake_calldata :: Calldata where
  "sample_stake_calldata =
     \<lparr>cd_tx_hash = ''h'', cd_identity = ''u@id'',
      cd_blobs = [(0, \<lparr>b_contract_name = ''staking'', b_data = [0, 0]\<rparr>),
                  (1, \<lparr>b_contract_name = ''hyllar'', b_data = [0, 0]\<rparr>)],
      cd_tx_blob_count = 2, cd_index = 0, cd_tx_ctx = None, cd_private_input = []\<rparr>"

lemma sample_stake_run:
  "Staking_execute sample_sdk sample_stake sample_stake_transfer dbg Staking_new sample_stake_calldata =
     Some (Staking_new\<lparr>st_stakes := [(''u@id'', 40)]\<rparr>,
       Ok (as_bytes ''Staked'', \<lparr>ec_callees_blobs = [], ec_caller = ''u@id'', ec_contract_name = ''staking''\<rparr>, []))"
  by (simp add: Staking_execute_def sample_stake_def sample_stake_transfer_def sample_stake_calldata_def sdk_eval
      check_transfer_blob_def stake_def Staking_new_def)

lemma staking_wf_new: "staking_wf Staking_new"
  using staking_inv_new by (simp add: staking_inv_def)

theorem staking_backed_witness:
  "\<exists>st'. Staking_execute sample_sdk sample_stake sample_stake_transfer (\<lambda>_. '''') Staking_new sample_stake_calldata =
       Some (st', Ok (as_bytes ''Staked'', \<lparr>ec_callees_blobs = [], ec_caller = ''u@id'', ec_contract_name = ''staking''\<rparr>, [])) \<and>
     (\<exists>amount. backed sample_sdk sample_stake_transfer sample_stake_calldata amount \<and> bal (st_stakes st') ''u@id'' = amount)"
proof -
  note run = sample_stake_run [of "\<lambda>_. ''''"]
  have "st_stakes (Staking_new\<lparr>st_stakes := [(''u@id'', 40)]\<rparr>) \<noteq> st_stakes Staking_new"
    by (simp add: Staking_new_def)
  with staking_backed [OF staking_wf_new run] run show ?thesis by auto
qed

text \<open>Two bonded validators share the fee for 101 bytes that the first one disseminated.\<close>

definition sample_fees :: Staking where
  "sample_fees = Staking_new\<lparr>
     st_bonded := [[1], [2]],
     st_fees := \<lparr>fe_pending_fees = [([1], 101)], fe_balances = [([1], \<lparr>vf_balance = 200, vf_paid_cumul_size = 0\<rparr>)]\<rparr>\<rparr>"

lemma sample_fees_distributed:
  "staking_distribute sample_fees = Some (sample_fees\<lparr>st_fees :=
     \<lparr>fe_pending_fees = [],
      fe_balances = [([1], \<lparr>vf_balance = 149, vf_paid_cumul_size = 101\<rparr>), ([2], \<lparr>vf_balance = 50, vf_paid_cumul_size = 0\<rparr>)]\<rparr>\<rparr>, Ok ())"
  by (simp add: staking_distribute_def fees_distribute_def distribute_one_def add_fee_balance_def sample_fees_def
      Staking_new_def i128_div_def signed_divide_int_def ValidatorFeeState_default_def)

theorem fees_conserved_witness:
  "\<exists>st' lost. staking_distribute sample_fees = Some (st', Ok ()) \<and> lost \<le> 1 \<and>
     fee_total (fe_balances (st_fees st')) + of_nat lost = 200"
proof -
  have "bt_inv (fe_balances (st_fees sample_fees))" "length (st_bonded sample_fees) < 2 ^ 64"
    by (simp_all add: sample_fees_def bt_inv_def)
  from fees_conserved [OF this(1) sample_fees_distributed this(2)] sample_fees_distributed show ?thesis
    by (auto simp: sample_fees_def fee_total_def)
qed

end
