(* ===== verification/Blst_Crypto.thy ===== *)
theory Blst_Crypto
  imports Sample_Env
begin

text \<open>
  The signatures of validators, \<open>BlstCrypto\<close> of \<open>crates/hyle-crypto/src/lib.rs\<close>. The curve
  operations of \<open>blst\<close> are parameters: parsing of keys and signatures and the verification
  equation are fields of \<open>Env\<close>, signing with the own secret key and the two aggregations are
  fields of \<open>BlstCrypto\<close>. Messages are given by their \<open>borsh\<close> encoding, which is \<open>None\<close> when it
  fails.
\<close>

type_synonym 'm SignedByValidator = "('m, ValidatorSignature) Signed"

record BlstCrypto =
  bc_validator_pubkey :: ValidatorPublicKey
  bc_sign_bytes :: "bytes \<Rightarrow> Signature"
  bc_aggregate_pks :: "ValidatorPublicKey list \<Rightarrow> ValidatorPublicKey option"
  bc_aggregate_sigs :: "Signature list \<Rightarrow> Signature option"

datatype CryptoError =
    PkParseError
  | SigParseError
  | BorshError
  | AggregatePkError
  | AggregateSigError
  | NoSignatures
  | WrongAggregate

definition sign :: "BlstCrypto \<Rightarrow> ('m \<Rightarrow> bytes option) \<Rightarrow> 'm \<Rightarrow> ('m SignedByValidator, CryptoError) Result" where
  "sign B enc msg =
     (case enc msg of
        None \<Rightarrow> Err BorshError
      | Some encoded \<Rightarrow>
          Ok \<lparr>sg_msg = msg, sg_signature = \<lparr>vs_signature = bc_sign_bytes B encoded, vs_validator = bc_validator_pubkey B\<rparr>\<rparr>)"

definition verify :: "Env \<Rightarrow> ('m \<Rightarrow> bytes option) \<Rightarrow> 'm SignedByValidator \<Rightarrow> (bool, CryptoError) Result" where
  "verify E enc msg =
     (if \<not> blst_pk_ok E (vs_validator (sg_signature msg)) then Err PkParseError
      else if \<not> blst_sig_ok E (vs_signature (sg_signature msg)) then Err SigParseError
      else case enc (sg_msg msg) of
             None \<Rightarrow> Err BorshError
           | Some encoded \<Rightarrow>
               Ok (blst_sig_verify E encoded (vs_signature (sg_signature msg)) (vs_validator (sg_signature msg))))"

definition aggregate_validators_pk ::
    "Env \<Rightarrow> BlstCrypto \<Rightarrow> ValidatorPublicKey list \<Rightarrow> (ValidatorPublicKey, CryptoError) Result" where
  "aggregate_validators_pk E B validators =
     (if \<not> list_all (blst_pk_ok E) validators then Err PkParseError
      else case bc_aggregate_pks B validators of None \<Rightarrow> Err AggregatePkError | Some pk \<Rightarrow> Ok pk)"

definition verify_aggregate ::
    "Env \<Rightarrow> BlstCrypto \<Rightarrow> ('m \<Rightarrow> bytes option) \<Rightarrow> ('m, AggregateSignature) Signed \<Rightarrow> (bool, CryptoError) Result" where
  "verify_aggregate E B enc msg =
     and_then (aggregate_validators_pk E B (ag_validators (sg_signature msg))) (\<lambda>pk.
       if \<not> blst_sig_ok E (ag_signature (sg_signature msg)) then Err SigParseError
       else case enc (sg_msg msg) of
              None \<Rightarrow> Err BorshError
            | Some encoded \<Rightarrow> Ok (blst_sig_verify E encoded (ag_signature (sg_signature msg)) pk))"

text \<open>The signatures, keys and validators of a list of signed messages.\<close>

fun extract_aggregates ::
    "Env \<Rightarrow> 'm SignedByValidator list \<Rightarrow> (Signature list \<times> ValidatorPublicKey list, CryptoError) Result" where
  "extract_aggregates E [] = Ok ([], [])"
| "extract_aggregates E (s # aggregates) =
     (if \<not> blst_sig_ok E (vs_signature (sg_signature s)) then Err SigParseError
      else if \<not> blst_pk_ok E (vs_validator (sg_signature s)) then Err PkParseError
      else and_then (extract_aggregates E aggregates) (\<lambda>(sigs, val).
             Ok (vs_signature (sg_signature s) # sigs, vs_validator (sg_signature s) # val)))"

definition aggregate ::
    "Env \<Rightarrow> BlstCrypto \<Rightarrow> ('m \<Rightarrow> bytes option) \<Rightarrow> 'm \<Rightarrow> 'm SignedByValidator list \<Rightarrow>
     (('m, AggregateSignature) Signed, CryptoError) Result" where
  "aggregate E B enc msg aggregates =
     (case aggregates of
        [] \<Rightarrow> Err NoSignatures
      | [a] \<Rightarrow>
          Ok \<lparr>sg_msg = msg,
              sg_signature = \<lparr>ag_signature = vs_signature (sg_signature a), ag_validators = [vs_validator (sg_signature a)]\<rparr>\<rparr>
      | _ \<Rightarrow>
          and_then (extract_aggregates E aggregates) (\<lambda>(sigs, val).
            case bc_aggregate_pks B val of
              None \<Rightarrow> Err AggregatePkError
            | Some aggregated_pk \<Rightarrow>
                (case bc_aggregate_sigs B sigs of
                   None \<Rightarrow> Err AggregateSigError
                 | Some aggregated_sig \<Rightarrow>
                     and_then
                       (verify_aggregate E B enc
                          \<lparr>sg_msg = msg, sg_signature = \<lparr>ag_signature = aggregated_sig, ag_validators = [aggregated_pk]\<rparr>\<rparr>)
                       (\<lambda>valid. if \<not> valid then Err WrongAggregate
                          else Ok \<lparr>sg_msg = msg, sg_signature = \<lparr>ag_signature = aggregated_sig, ag_validators = val\<rparr>\<rparr>))))"

definition sign_aggregate ::
    "Env \<Rightarrow> BlstCrypto \<Rightarrow> ('m \<Rightarrow> bytes option) \<Rightarrow> 'm \<Rightarrow> 'm SignedByValidator list \<Rightarrow>
     (('m, AggregateSignature) Signed, CryptoError) Result" where
  "sign_aggregate E B enc msg aggregates =
     and_then (sign B enc msg) (\<lambda>self_signed. aggregate E B enc msg (aggregates @ [self_signed]))"

definition secret_from_name :: "string \<Rightarrow> bytes" where
  "secret_from_name validator_name =
     (let validator_name_bytes = as_bytes validator_name;
          len = min (length validator_name_bytes) 32
      in take len validator_name_bytes @ replicate (32 - len) 0)"

subsection \<open>Certificates verify\<close>

lemma extract_aggregates_Ok:
  "extract_aggregates E as = Ok (sigs, val) \<Longrightarrow>
     val = map (\<lambda>a. vs_validator (sg_signature a)) as \<and> sigs = map (\<lambda>a. vs_signature (sg_signature a)) as \<and>
     list_all (blst_pk_ok E) val \<and> list_all (blst_sig_ok E) sigs"
proof (induction as arbitrary: sigs val)
  case (Cons a as)
  obtain ss vs where "extract_aggregates E as = Ok (ss, vs)"
    using Cons.prems by (cases "extract_aggregates E as") (auto split: if_splits)
  with Cons show ?case by (auto split: if_splits)
qed simp

text \<open>
  The laws of the curve library: the aggregate of one key is the key, and an aggregate of
  parsable keys parses and so does the own signature, which verifies under the own key.
\<close>

definition blst_laws :: "Env \<Rightarrow> BlstCrypto \<Rightarrow> bool" where
  "blst_laws E B \<longleftrightarrow>
     (\<forall>k. bc_aggregate_pks B [k] = Some k) \<and>
     blst_pk_ok E (bc_validator_pubkey B) \<and> (\<forall>d. blst_sig_ok E (bc_sign_bytes B d)) \<and>
     (\<forall>d. blst_sig_verify E d (bc_sign_bytes B d) (bc_validator_pubkey B))"

lemma sign_Ok:
  "sign B enc msg = Ok s \<Longrightarrow> \<exists>d. enc msg = Some d \<and> s =
     \<lparr>sg_msg = msg, sg_signature = \<lparr>vs_signature = bc_sign_bytes B d, vs_validator = bc_validator_pubkey B\<rparr>\<rparr>"
  by (auto simp: sign_def split: option.splits)

lemma aggregate_many:
  assumes "blst_laws E B" and "aggregate E B enc msg (a # b # as) = Ok c"
  shows "sg_msg c = msg" and "ag_validators (sg_signature c) = map (\<lambda>a. vs_validator (sg_signature a)) (a # b # as)"
    and "verify_aggregate E B enc c = Ok True"
proof -
  obtain sigs val pk sig where ex: "extract_aggregates E (a # b # as) = Ok (sigs, val)" "bc_aggregate_pks B val = Some pk"
      "bc_aggregate_sigs B sigs = Some sig"
      "verify_aggregate E B enc \<lparr>sg_msg = msg, sg_signature = \<lparr>ag_signature = sig, ag_validators = [pk]\<rparr>\<rparr> = Ok True"
      "c = \<lparr>sg_msg = msg, sg_signature = \<lparr>ag_signature = sig, ag_validators = val\<rparr>\<rparr>"
    using assms(2) unfolding aggregate_def list.case
    by (auto simp: ok_simps simp del: extract_aggregates.simps split: option.splits if_splits)
  note val = extract_aggregates_Ok [OF ex(1)]
  show "sg_msg c = msg" "ag_validators (sg_signature c) = map (\<lambda>a. vs_validator (sg_signature a)) (a # b # as)"
    using ex(5) val by simp_all
  show "verify_aggregate E B enc c = Ok True"
    using ex(2,4,5) val assms(1)
    by (auto simp: verify_aggregate_def aggregate_validators_pk_def blst_laws_def split: if_splits option.splits)
qed

lemma sign_aggregate_sound:
  assumes "blst_laws E B" and "sign_aggregate E B enc msg as = Ok c"
  shows "sg_msg c = msg \<and> verify_aggregate E B enc c = Ok True \<and>
    ag_validators (sg_signature c) = map (\<lambda>a. vs_validator (sg_signature a)) as @ [bc_validator_pubkey B]"
proof -
  obtain s where sgn: "sign B enc msg = Ok s" and agg: "aggregate E B enc msg (as @ [s]) = Ok c"
    using assms(2) by (auto simp: sign_aggregate_def ok_simps)
  obtain d where d: "enc msg = Some d"
      "s = \<lparr>sg_msg = msg, sg_signature = \<lparr>vs_signature = bc_sign_bytes B d, vs_validator = bc_validator_pubkey B\<rparr>\<rparr>"
    using sign_Ok [OF sgn] by blast
  show ?thesis
  proof (cases as)
    case Nil
    with agg d assms(1) show ?thesis
      by (auto simp: aggregate_def verify_aggregate_def aggregate_validators_pk_def blst_laws_def)
  next
    case (Cons a as')
    then obtain b bs where list: "as @ [s] = a # b # bs" by (cases as') auto
    note c = aggregate_many [OF assms(1) agg [unfolded list]]
    have "map (\<lambda>a. vs_validator (sg_signature a)) (a # b # bs) =
        map (\<lambda>a. vs_validator (sg_signature a)) as @ [bc_validator_pubkey B]"
      unfolding list [symmetric] by (simp add: d)
    then show ?thesis using c by simp
  qed
qed

text \<open>
  A certificate that \<open>sign_aggregate\<close> returns names the signers of the aggregated messages
  followed by the own key, and \<open>verify_aggregate\<close> accepts it for the message.
\<close>

theorem sign_aggregate_verifies:
  assumes "blst_laws E B" and "sign_aggregate E B enc msg as = Ok c"
  shows "sg_msg c = msg \<and> verify_aggregate E B enc c = Ok True \<and>
    ag_validators (sg_signature c) = map (\<lambda>a. vs_validator (sg_signature a)) as @ [bc_validator_pubkey B]"
  by (rule sign_aggregate_sound [OF assms])

definition sample_crypto :: "ValidatorPublicKey \<Rightarrow> BlstCrypto" where
  "sample_crypto key =
     \<lparr>bc_validator_pubkey = key, bc_sign_bytes = id,
      bc_aggregate_pks = (\<lambda>ks. case ks of [] \<Rightarrow> None | k # _ \<Rightarrow> Some k),
      bc_aggregate_sigs = (\<lambda>ss. case ss of [] \<Rightarrow> None | s # _ \<Rightarrow> Some s)\<rparr>"

lemma sample_blst [simp]:
  "blst_pk_ok sample_env k" "blst_sig_ok sample_env sig" "blst_sig_verify sample_env d sig k"
  by (simp_all add: sample_env_def)

lemma sample_crypto_laws: "blst_laws sample_env (sample_crypto key)"
  by (simp add: blst_laws_def sample_crypto_def)

definition sample_signed :: "ValidatorPublicKey \<Rightarrow> bytes SignedByValidator" where
  "sample_signed key = \<lparr>sg_msg = [5], sg_signature = \<lparr>vs_signature = [5], vs_validator = key\<rparr>\<rparr>"

theorem sign_aggregate_verifies_witness:
  "\<exists>c. sign_aggregate sample_env (sample_crypto [3]) Some [5] [sample_signed [1], sample_signed [2]] = Ok c \<and>
     verify_aggregate sample_env (sample_crypto [3]) Some c = Ok True \<and> ag_validators (sg_signature c) = [[1], [2], [3]]"
proof -
  obtain c where c: "sign_aggregate sample_env (sample_crypto [3]) Some [5] [sample_signed [1], sample_signed [2]] = Ok c"
    by (simp add: sign_aggregate_def sign_def aggregate_def verify_aggregate_def aggregate_validators_pk_def
        sample_crypto_def sample_signed_def)
  from sign_aggregate_verifies [OF sample_crypto_laws c] c show ?thesis
    by (simp add: sample_signed_def sample_crypto_def)
qed

end
