(* ===== verification/Step_Monad.thy ===== *)
theory Step_Monad
  imports Prelude
begin

text \<open>
  Methods with \<open>&mut self\<close> that return \<open>Result\<close>: a step maps the state to the new state and
  the result, and keeps the changes made before an early return. A panic is \<open>None\<close>.
  \<open>wp\<close> is the weakest precondition of a step that may panic; its equations reduce a goal about a
  method to goals about its branches. The locale \<open>transition\<close> lifts a reflexive and transitive
  relation between states from the primitive updates to whole methods.
\<close>

type_synonym ('s, 'e, 'a) step = "'s \<Rightarrow> ('s \<times> ('a, 'e) Result) option"

definition ret :: "'a \<Rightarrow> ('s, 'e, 'a) step" where
  "ret x s = Some (s, Ok x)"

definition bail :: "'e \<Rightarrow> ('s, 'e, 'a) step" where
  "bail e s = Some (s, Err e)"

definition panic :: "('s, 'e, 'a) step" where
  "panic s = None"

definition bnd :: "('s, 'e, 'a) step \<Rightarrow> ('a \<Rightarrow> ('s, 'e, 'b) step) \<Rightarrow> ('s, 'e, 'b) step" where
  "bnd m f s = (case m s of None \<Rightarrow> None | Some (s', Inl e) \<Rightarrow> Some (s', Err e) | Some (s', Inr x) \<Rightarrow> f x s')"

definition thn :: "('s, 'e, unit) step \<Rightarrow> ('s, 'e, 'b) step \<Rightarrow> ('s, 'e, 'b) step" where
  "thn m k = bnd m (\<lambda>_. k)"

text \<open>The rest of a method depends on the state it has reached.\<close>

definition reads :: "('s \<Rightarrow> ('s, 'e, 'a) step) \<Rightarrow> ('s, 'e, 'a) step" where
  "reads f s = f s s"

definition modify :: "('s \<Rightarrow> 's) \<Rightarrow> ('s, 'e, unit) step" where
  "modify f s = Some (f s, Ok ())"

text \<open>The operator \<open>?\<close> on a result, and a computation that may panic.\<close>

definition attempt :: "('a, 'e) Result \<Rightarrow> ('s, 'e, 'a) step" where
  "attempt r s = Some (s, r)"

definition unwrap :: "'a option \<Rightarrow> ('s, 'e, 'a) step" where
  "unwrap v s = map_option (\<lambda>x. (s, Ok x)) v"

fun for_each :: "('a \<Rightarrow> ('s, 'e, unit) step) \<Rightarrow> 'a list \<Rightarrow> ('s, 'e, unit) step" where
  "for_each f [] = ret ()"
| "for_each f (x # xs) = thn (f x) (for_each f xs)"

text \<open>A \<open>HashSet\<close> iterates in an unspecified order; the model keeps the order of insertion.\<close>

definition hs_insert :: "'a \<Rightarrow> 'a list \<Rightarrow> 'a list" where
  "hs_insert x xs = (if x \<in> set xs then xs else xs @ [x])"

lemma set_hs_insert [simp]: "set (hs_insert x xs) = insert x (set xs)"
  by (auto simp: hs_insert_def)

lemma distinct_hs_insert [simp]: "distinct xs \<Longrightarrow> distinct (hs_insert x xs)"
  by (simp add: hs_insert_def)

lemma hs_insert_nonempty [simp]: "hs_insert x xs \<noteq> []"
  by (auto simp: hs_insert_def)

subsection \<open>Weakest preconditions\<close>

definition wp :: "('s, 'e, 'a) step \<Rightarrow> ('s \<Rightarrow> ('a, 'e) Result \<Rightarrow> bool) \<Rightarrow> 's \<Rightarrow> bool" where
  "wp m Q s \<longleftrightarrow> (case m s of None \<Rightarrow> True | Some (s', r) \<Rightarrow> Q s' r)"

named_theorems wp_simps \<open>weakest preconditions of the primitive steps\<close>

lemma wp_ret [wp_simps]: "wp (ret x) Q s = Q s (Ok x)"
  by (simp add: wp_def ret_def)

lemma wp_bail [wp_simps]: "wp (bail e) Q s = Q s (Err e)"
  by (simp add: wp_def bail_def)

lemma wp_panic [wp_simps]: "wp panic Q s = True"
  by (simp add: wp_def panic_def)

lemma wp_bnd [wp_simps]:
  "wp (bnd m f) Q s = wp m (\<lambda>s' r. case r of Inl e \<Rightarrow> Q s' (Err e) | Inr x \<Rightarrow> wp (f x) Q s') s"
  by (auto simp: wp_def bnd_def split: option.splits sum.splits)

lemma wp_thn [wp_simps]:
  "wp (thn m k) Q s = wp m (\<lambda>s' r. case r of Inl e \<Rightarrow> Q s' (Err e) | Inr x \<Rightarrow> wp k Q s') s"
  by (simp add: thn_def wp_bnd)

lemma wp_reads [wp_simps]: "wp (reads f) Q s = wp (f s) Q s"
  by (simp add: wp_def reads_def)

lemma wp_modify [wp_simps]: "wp (modify f) Q s = Q (f s) (Ok ())"
  by (simp add: wp_def modify_def)

lemma wp_attempt [wp_simps]: "wp (attempt r) Q s = Q s r"
  by (simp add: wp_def attempt_def)

lemma wp_unwrap [wp_simps]: "wp (unwrap v) Q s = (case v of None \<Rightarrow> True | Some x \<Rightarrow> Q s (Ok x))"
  by (simp add: wp_def unwrap_def split: option.split)

lemma wp_mono: "wp m Q s \<Longrightarrow> (\<And>s' r. Q s' r \<Longrightarrow> Q' s' r) \<Longrightarrow> wp m Q' s"
  by (auto simp: wp_def split: option.splits)

lemma wpI: "(\<And>s' r. m s = Some (s', r) \<Longrightarrow> Q s' r) \<Longrightarrow> wp m Q s"
  by (auto simp: wp_def split: option.split)

lemma wpD: "wp m Q s \<Longrightarrow> m s = Some (s', r) \<Longrightarrow> Q s' r"
  by (simp add: wp_def)

lemma wp_conj: "wp m Q s \<Longrightarrow> wp m Q' s \<Longrightarrow> wp m (\<lambda>s' r. Q s' r \<and> Q' s' r) s"
  by (auto simp: wp_def split: option.splits)

subsection \<open>Steps that do not panic\<close>

definition runs :: "('s, 'e, 'a) step \<Rightarrow> 's \<Rightarrow> bool" where
  "runs m s \<longleftrightarrow> m s \<noteq> None"

lemma runs_simps [simp]:
  "runs (ret x) s" "runs (bail e) s" "\<not> runs panic s" "runs (modify f) s" "runs (attempt r) s"
  "runs (reads g) s = runs (g s) s" "runs (unwrap v) s = (v \<noteq> None)"
  by (simp_all add: runs_def ret_def bail_def panic_def modify_def attempt_def reads_def unwrap_def)

lemma runs_bnd: "runs m s \<Longrightarrow> wp m (\<lambda>s' r. case r of Inl e \<Rightarrow> True | Inr x \<Rightarrow> runs (f x) s') s \<Longrightarrow> runs (bnd m f) s"
  by (auto simp: runs_def wp_def bnd_def split: option.splits sum.splits)

lemma runs_thn: "runs m s \<Longrightarrow> wp m (\<lambda>s' r. is_ok r \<longrightarrow> runs k s') s \<Longrightarrow> runs (thn m k) s"
  unfolding thn_def by (rule runs_bnd) (auto elim!: wp_mono split: sum.split)

lemma runsE: "runs m s \<Longrightarrow> \<exists>s' r. m s = Some (s', r)"
  by (auto simp: runs_def)

subsection \<open>Relations between the states before and after\<close>

locale transition =
  fixes R :: "'s \<Rightarrow> 's \<Rightarrow> bool"
  assumes refl: "R s s" and trans: "R s t \<Longrightarrow> R t u \<Longrightarrow> R s u"
begin

definition moves :: "('s, 'e, 'a) step \<Rightarrow> bool" where
  "moves m \<longleftrightarrow> (\<forall>s. wp m (\<lambda>s' r. R s s') s)"

lemma moves_ret [simp, intro]: "moves (ret x)"
  by (simp add: moves_def wp_simps refl)

lemma moves_bail [simp, intro]: "moves (bail e)"
  by (simp add: moves_def wp_simps refl)

lemma moves_panic [simp, intro]: "moves panic"
  by (simp add: moves_def wp_simps)

lemma moves_attempt [simp, intro]: "moves (attempt r)"
  by (simp add: moves_def wp_simps refl)

lemma moves_unwrap [simp, intro]: "moves (unwrap v)"
  by (simp add: moves_def wp_simps refl split: option.split)

lemma moves_modify: "(\<And>s. R s (f s)) \<Longrightarrow> moves (modify f)"
  by (simp add: moves_def wp_simps)

lemma moves_reads [intro]: "(\<And>s. moves (f s)) \<Longrightarrow> moves (reads f)"
  by (simp add: moves_def wp_simps)

lemma moves_bnd [intro]:
  assumes "moves m" and f: "\<And>x. moves (f x)"
  shows "moves (bnd m f)"
  unfolding moves_def wp_bnd
proof
  fix s
  have "wp m (\<lambda>s' r. R s s') s" using assms(1) by (simp add: moves_def)
  then show "wp m (\<lambda>s' r. case r of Inl e \<Rightarrow> R s s' | Inr x \<Rightarrow> wp (f x) (\<lambda>s' r. R s s') s') s"
  proof (rule wp_mono)
    fix s' r
    assume R: "R s s'"
    have "wp (f x) (\<lambda>s'' r. R s s'') s'" for x
      using f [of x] R by (auto simp: moves_def intro: wp_mono trans)
    with R show "case r of Inl e \<Rightarrow> R s s' | Inr x \<Rightarrow> wp (f x) (\<lambda>s' r. R s s') s'"
      by (simp split: sum.split)
  qed
qed

lemma moves_thn [intro]: "moves m \<Longrightarrow> moves k \<Longrightarrow> moves (thn m k)"
  unfolding thn_def by (rule moves_bnd)

lemma moves_for_each [intro]: "(\<And>x. moves (f x)) \<Longrightarrow> moves (for_each f xs)"
  by (induction xs) auto

lemma moves_if [intro]: "(b \<Longrightarrow> moves m) \<Longrightarrow> (\<not> b \<Longrightarrow> moves m') \<Longrightarrow> moves (if b then m else m')"
  by simp

text \<open>The same for a step from a known state.\<close>

definition goes :: "'s \<Rightarrow> ('s, 'e, 'a) step \<Rightarrow> bool" where
  "goes s m \<longleftrightarrow> wp m (\<lambda>s' r. R s s') s"

lemma goes_moves: "moves m \<Longrightarrow> goes s m"
  by (simp add: moves_def goes_def)

lemma movesI: "(\<And>s. goes s m) \<Longrightarrow> moves m"
  by (simp add: moves_def goes_def)

lemma moves_readsI: "(\<And>s. goes s (f s)) \<Longrightarrow> moves (reads f)"
  by (simp add: moves_def goes_def wp_simps)

lemma goes_reads: "goes s (f s) \<Longrightarrow> goes s (reads f)"
  by (simp add: goes_def wp_simps)

lemma goes_bnd:
  assumes "goes s m" and f: "\<And>x s'. m s = Some (s', Ok x) \<Longrightarrow> goes s' (f x)"
  shows "goes s (bnd m f)"
  unfolding goes_def wp_bnd
proof (rule wpI)
  fix s' r
  assume run: "m s = Some (s', r)"
  then have R: "R s s'" using assms(1) by (auto simp: goes_def dest: wpD)
  show "case r of Inl e \<Rightarrow> R s s' | Inr x \<Rightarrow> wp (f x) (\<lambda>s' r. R s s') s'"
  proof (cases r)
    case (Inr x)
    with run f have "wp (f x) (\<lambda>s'' r. R s' s'') s'" by (simp add: goes_def)
    then have "wp (f x) (\<lambda>s'' r. R s s'') s'" by (rule wp_mono) (rule trans [OF R])
    with Inr show ?thesis by simp
  qed (use R in simp)
qed

lemma goes_thn: "goes s m \<Longrightarrow> (\<And>s'. m s = Some (s', Ok ()) \<Longrightarrow> goes s' k) \<Longrightarrow> goes s (thn m k)"
  unfolding thn_def by (rule goes_bnd) auto

lemma goes_thn_attempt: "(r = Ok () \<Longrightarrow> goes s k) \<Longrightarrow> goes s (thn (attempt r) k)"
  by (rule goes_thn) (auto simp: attempt_def intro: goes_moves)

lemma goes_thn_modify: "R s (f s) \<Longrightarrow> goes (f s) k \<Longrightarrow> goes s (thn (modify f) k)"
  by (rule goes_thn) (auto simp: goes_def wp_simps modify_def)

lemma goes_modify: "R s (f s) \<Longrightarrow> goes s (modify f)"
  by (simp add: goes_def wp_simps)

lemma goes_if: "(b \<Longrightarrow> goes s m) \<Longrightarrow> (\<not> b \<Longrightarrow> goes s m') \<Longrightarrow> goes s (if b then m else m')"
  by simp

lemma goes_bnd_unwrap: "(\<And>x. v = Some x \<Longrightarrow> goes s (f x)) \<Longrightarrow> goes s (bnd (unwrap v) f)"
  by (rule goes_bnd) (auto simp: unwrap_def intro: goes_moves)

lemma movesD: "moves m \<Longrightarrow> m s = Some (s', r) \<Longrightarrow> R s s'"
  unfolding moves_def by (blast dest: wpD)

end

end
