(* ===== verification/Consensus_Types.thy ===== *)
theory Consensus_Types
  imports Staking Blst_Crypto Step_Monad
begin

text \<open>
  The messages of the consensus (\<open>src/consensus/network.rs\<close>), the headers of network messages
  (\<open>src/p2p/network.rs\<close>) and the state of the consensus module (\<open>src/consensus.rs\<close>,
  \<open>role_leader.rs\<close>, \<open>role_follower.rs\<close>, \<open>role_timeout.rs\<close>). The encoders of \<open>borsh\<close> are
  parameters, a field per type that is encoded.
\<close>

subsection \<open>Messages\<close>

datatype PrepareVoteMarker = PrepareVoteMarker

datatype ConfirmAckMarker = ConfirmAckMarker

datatype ConsensusTimeoutMarker = ConsensusTimeoutMarker

type_synonym PrepareVote = "(ConsensusProposalHash \<times> PrepareVoteMarker) SignedByValidator"
type_synonym ConfirmAck = "(ConsensusProposalHash \<times> ConfirmAckMarker) SignedByValidator"
type_synonym TimeoutMsg = "Slot \<times> View \<times> ConsensusProposalHash \<times> ConsensusTimeoutMarker"

datatype 'm QuorumCertificate = QuorumCertificate (qc_signature: AggregateSignature) (qc_marker: 'm)

type_synonym PrepareQC = "PrepareVoteMarker QuorumCertificate"
type_synonym CommitQC = "ConfirmAckMarker QuorumCertificate"
type_synonym TimeoutQC = "ConsensusTimeoutMarker QuorumCertificate"

datatype TCKind =
    TC_NilProposal
  | TC_PrepareQC PrepareQC ConsensusProposal

datatype TimeoutKind =
    TK_NilProposal "TimeoutMsg SignedByValidator"
  | TK_PrepareQC PrepareQC ConsensusProposal

type_synonym ConsensusTimeout = "TimeoutMsg SignedByValidator \<times> TimeoutKind"

datatype Ticket =
    Ticket_Genesis
  | Ticket_CommitQC CommitQC
  | Ticket_TimeoutQC TimeoutQC TCKind
  | Ticket_ForcedCommitQc

type_synonym Prepare = "ValidatorPublicKey \<times> ConsensusProposal \<times> Ticket \<times> View"

datatype ConsensusNetMessage =
    Prepare ConsensusProposal Ticket View
  | PrepareVote PrepareVote
  | Confirm PrepareQC ConsensusProposalHash
  | ConfirmAck ConfirmAck
  | Commit CommitQC ConsensusProposalHash
  | TimeoutMessage ConsensusTimeout
  | TimeoutCertificate TimeoutQC TCKind Slot View
  | CandidacyMessage "ValidatorCandidacy SignedByValidator"
  | SyncRequest ConsensusProposalHash
  | SyncReply Prepare

definition QuorumCertificate_hashed :: "Env \<Rightarrow> 'm QuorumCertificate \<Rightarrow> bytes" where
  "QuorumCertificate_hashed E qc =
     sha3_256 E (ag_signature (qc_signature qc) @ to_le_bytes 8 (length (ag_validators (qc_signature qc))) @
       concat (ag_validators (qc_signature qc)))"

subsection \<open>Encoders\<close>

record MsgHeader =
  mh_timestamp :: u128
  mh_hash :: bytes

record 'm MsgWithHeader =
  mw_header :: "MsgHeader SignedByValidator"
  mw_msg :: 'm

record Borsh =
  enc_prepare_vote :: "ConsensusProposalHash \<times> PrepareVoteMarker \<Rightarrow> bytes option"
  enc_confirm_ack :: "ConsensusProposalHash \<times> ConfirmAckMarker \<Rightarrow> bytes option"
  enc_timeout :: "TimeoutMsg \<Rightarrow> bytes option"
  enc_candidacy :: "ValidatorCandidacy \<Rightarrow> bytes option"
  enc_poda :: "DataProposalHash \<times> LaneBytesSize \<Rightarrow> bytes option"
  enc_header :: "MsgHeader \<Rightarrow> bytes option"
  enc_h_prepare :: "ConsensusProposalHash \<times> Ticket \<times> View \<Rightarrow> bytes option"
  enc_h_confirm :: "Signature \<times> ConsensusProposalHash \<Rightarrow> bytes option"
  enc_h_commit :: "CommitQC \<times> ConsensusProposalHash \<Rightarrow> bytes option"
  enc_h_signature :: "ValidatorSignature \<Rightarrow> bytes option"
  enc_h_timeout_qc :: "ValidatorSignature \<times> Signature \<times> ConsensusProposalHash \<Rightarrow> bytes option"
  enc_h_nil_tc :: "Signature \<times> Slot \<times> View \<Rightarrow> bytes option"
  enc_h_tc :: "Signature \<times> ConsensusProposalHash \<times> Slot \<times> View \<Rightarrow> bytes option"
  enc_h_candidacy :: "ValidatorCandidacy SignedByValidator \<Rightarrow> bytes option"
  enc_h_hash :: "ConsensusProposalHash \<Rightarrow> bytes option"
  enc_h_reply :: "Signature option \<times> ValidatorPublicKey \<times> ConsensusProposalHash \<times> Ticket \<times> View \<Rightarrow> bytes option"

definition unwrap_or_default :: "bytes option \<Rightarrow> bytes" where
  "unwrap_or_default d = (case d of None \<Rightarrow> [] | Some b \<Rightarrow> b)"

definition qc_sig :: "'m QuorumCertificate \<Rightarrow> Signature" where
  "qc_sig qc = ag_signature (qc_signature qc)"

fun ticket_sig :: "Ticket \<Rightarrow> Signature option" where
  "ticket_sig (Ticket_CommitQC qc) = Some (qc_sig qc)"
| "ticket_sig (Ticket_TimeoutQC qc tck) = Some (qc_sig qc)"
| "ticket_sig _ = None"

fun to_header_signable_data :: "Env \<Rightarrow> Borsh \<Rightarrow> ConsensusNetMessage \<Rightarrow> bytes" where
  "to_header_signable_data E X (Prepare cp t v) = unwrap_or_default (enc_h_prepare X (ConsensusProposal_hashed E cp, t, v))"
| "to_header_signable_data E X (PrepareVote pv) = as_bytes (fst (sg_msg pv))"
| "to_header_signable_data E X (Confirm qc cph) = unwrap_or_default (enc_h_confirm X (qc_sig qc, cph))"
| "to_header_signable_data E X (ConfirmAck ca) = as_bytes (fst (sg_msg ca))"
| "to_header_signable_data E X (Commit qc cph) = unwrap_or_default (enc_h_commit X (qc, cph))"
| "to_header_signable_data E X (TimeoutMessage (sm, tk)) =
     unwrap_or_default (case tk of
        TK_NilProposal _ \<Rightarrow> enc_h_signature X (sg_signature sm)
      | TK_PrepareQC qc cp \<Rightarrow> enc_h_timeout_qc X (sg_signature sm, qc_sig qc, ConsensusProposal_hashed E cp))"
| "to_header_signable_data E X (TimeoutCertificate qc tck s v) =
     unwrap_or_default (case tck of
        TC_NilProposal \<Rightarrow> enc_h_nil_tc X (qc_sig qc, s, v)
      | TC_PrepareQC qc' cp \<Rightarrow> enc_h_tc X (qc_sig qc', ConsensusProposal_hashed E cp, s, v))"
| "to_header_signable_data E X (CandidacyMessage vc) = unwrap_or_default (enc_h_candidacy X vc)"
| "to_header_signable_data E X (SyncRequest cph) = unwrap_or_default (enc_h_hash X cph)"
| "to_header_signable_data E X (SyncReply (pb, cp, t, v)) =
     unwrap_or_default (enc_h_reply X (ticket_sig t, pb, ConsensusProposal_hashed E cp, t, v))"

subsection \<open>The state of a node\<close>

datatype Step = StartSlotStep | PrepareVoteStep | ConfirmAckStep

record LeaderState =
  ld_step :: Step
  ld_prepare_votes :: "PrepareVote list"
  ld_confirm_ack :: "ConfirmAck list"
  ld_pending_ticket :: "Ticket option"

definition LeaderState_default :: LeaderState where
  "LeaderState_default = \<lparr>ld_step = StartSlotStep, ld_prepare_votes = [], ld_confirm_ack = [], ld_pending_ticket = None\<rparr>"

record BufferedPrepares =
  bp_prepares :: "(ConsensusProposalHash, Prepare) btreemap"
  bp_children :: "(ConsensusProposalHash, ConsensusProposalHash) btreemap"

record FollowerState =
  fw_buffered_quorum_certificate :: "CommitQC option"
  fw_buffered_prepares :: BufferedPrepares

datatype TimeoutState =
    Inactive
  | Scheduled TimestampMs
  | CertificateEmitted

record TimeoutRoleState =
  tr_requests :: "ConsensusTimeout list"
  tr_state :: TimeoutState
  tr_highest_seen_prepare_qc :: "(Slot \<times> PrepareQC) option"

datatype StateTag = Joining | Leader | Follower

record JoiningState =
  js_staking_updated_to :: Slot

record GenesisState =
  gs_peer_pubkey :: "(string, ValidatorPublicKey) hashmap"

record BFTRoundState =
  br_staking :: Staking
  br_slot :: Slot
  br_view :: View
  br_parent_hash :: ConsensusProposalHash
  br_parent_timestamp :: TimestampMs
  br_parent_cut :: Cut
  br_current_proposal :: ConsensusProposal
  br_leader :: LeaderState
  br_follower :: FollowerState
  br_timeout :: TimeoutRoleState
  br_joining :: JoiningState
  br_genesis :: GenesisState
  br_state_tag :: StateTag

record ConsensusStore = BFTRoundState +
  cn_validator_candidates :: "ValidatorCandidacy SignedByValidator list"

text \<open>What the module puts on the bus.\<close>

datatype ConsensusCommand =
    TimeoutTick
  | StartNewSlot "TimestampMs option"

record CommittedConsensusProposal =
  cc_staking :: Staking
  cc_consensus_proposal :: ConsensusProposal
  cc_certificate :: AggregateSignature

datatype OutboundMessage =
    SendMessage ValidatorPublicKey "ConsensusNetMessage MsgWithHeader"
  | BroadcastMessage "ConsensusNetMessage MsgWithHeader"

text \<open>Durations count nanoseconds; a delayed command is sent by a spawned task after a sleep.\<close>

type_synonym Duration = nat

datatype Output =
    Outbound OutboundMessage
  | CommitConsensusProposal CommittedConsensusProposal
  | SendCommand ConsensusCommand
  | DelayedCommand Duration ConsensusCommand
  | ConnectTo string

record Consensus = ConsensusStore +
  cn_bus :: "Output list"

subsection \<open>Configuration and errors\<close>

datatype TimestampCheck = Full | Monotonic | NoCheck

text \<open>
  The node: its external functions, keys and configuration, the clock as read during one
  event, which messages the channels of the bus still accept, and the random choice of a peer.
\<close>

record Node =
  nd_env :: Env
  nd_crypto :: BlstCrypto
  nd_borsh :: Borsh
  nd_now :: TimestampMs
  nd_slot_duration :: Duration
  nd_timeout_after :: Duration
  nd_timestamp_checks :: TimestampCheck
  nd_public_address :: string
  nd_bus_accepts :: "Output \<Rightarrow> bool"
  nd_choose :: "ValidatorPublicKey list \<Rightarrow> ValidatorPublicKey option"

datatype ConsensusError =
    CryptoFailed CryptoError
  | ChannelFull
  | StakingFailed string
  | NotSynchronized
  | GenesisTicketNotAccepted
  | NoNextLeader
  | QcInvalid
  | QcUnverifiable CryptoError
  | QcNonConsensusValidators
  | QcNotEnoughPower
  | CandidateStakeTooLow
  | CandidateNotStaking
  | NonGenesisBlock
  | WrongStep
  | NotLeader
  | NoTicket
  | WrongVoteHash
  | WrongAckHash
  | GenesisTicketTooLate
  | InvalidTicket
  | WrongSlot
  | WrongView
  | WrongLeader
  | CutMissesLanes
  | UnknownLane
  | CutGoesBackwards
  | NotEnoughPoDA
  | PoDAInvalid
  | PoDAUnverifiable CryptoError
  | TimestampTooOld
  | TimestampTooLate
  | TcProposalMismatch
  | TcChangesVotingPower
  | TcWrongSlot
  | TcQcWrongSlot
  | FeesNotInCut
  | NewValidatorStakeTooLow
  | NewValidatorNoStake
  | NewValidatorBadSignature
  | TimeoutQcWrongSlot
  | NotAllNil

type_synonym 'a cstep = "(Consensus, ConsensusError, 'a) step"

end
