(* ===== verification/Consensus.thy ===== *)
theory Consensus
  imports Consensus_Types
begin

text \<open>
  The consensus module: \<open>src/consensus.rs\<close> and the roles \<open>role_leader.rs\<close>, \<open>role_follower.rs\<close>,
  \<open>role_timeout.rs\<close> and \<open>role_sync.rs\<close>. A handler is a step on the state of the module; the
  messages, events and commands it sends are appended to \<open>cn_bus\<close>. Replies that the code awaits,
  the new cut of the mempool in \<open>start_round\<close>, are arguments.
\<close>

abbreviation own_key :: "Node \<Rightarrow> ValidatorPublicKey" where
  "own_key N \<equiv> bc_validator_pubkey (nd_crypto N)"

abbreviation hashed :: "Node \<Rightarrow> ConsensusProposal \<Rightarrow> ConsensusProposalHash" where
  "hashed N cp \<equiv> ConsensusProposal_hashed (nd_env N) cp"

subsection \<open>Sending\<close>

definition bus_send :: "Node \<Rightarrow> Output \<Rightarrow> unit cstep" where
  "bus_send N out =
     (if nd_bus_accepts N out then modify (\<lambda>st. st\<lparr>cn_bus := cn_bus st @ [out]\<rparr>) else bail ChannelFull)"

definition sign_net_message ::
    "Node \<Rightarrow> ConsensusNetMessage \<Rightarrow> (ConsensusNetMessage MsgWithHeader, CryptoError) Result" where
  "sign_net_message N msg =
     and_then
       (sign (nd_crypto N) (enc_header (nd_borsh N))
          \<lparr>mh_timestamp = nd_now N, mh_hash = to_header_signable_data (nd_env N) (nd_borsh N) msg\<rparr>)
       (\<lambda>header. Ok \<lparr>mw_header = header, mw_msg = msg\<rparr>)"

definition broadcast_net_message :: "Node \<Rightarrow> ConsensusNetMessage \<Rightarrow> unit cstep" where
  "broadcast_net_message N net_message =
     bnd (attempt (map_err CryptoFailed (sign_net_message N net_message))) (\<lambda>signed_msg.
       bus_send N (Outbound (BroadcastMessage signed_msg)))"

definition send_net_message :: "Node \<Rightarrow> ValidatorPublicKey \<Rightarrow> ConsensusNetMessage \<Rightarrow> unit cstep" where
  "send_net_message N to net_message =
     bnd (attempt (map_err CryptoFailed (sign_net_message N net_message))) (\<lambda>signed_msg.
       bus_send N (Outbound (SendMessage to signed_msg)))"

subsection \<open>Rounds and certificates\<close>

text \<open>With no bonded validator the remainder panics.\<close>

definition round_leader :: "Consensus \<Rightarrow> ValidatorPublicKey option" where
  "round_leader st =
     (let bonded = st_bonded (br_staking st)
      in if bonded = [] then None
         else Some (bonded ! (unat (br_slot st + br_view st - 1) mod length bonded)))"

definition next_view_leader :: "Consensus \<Rightarrow> ValidatorPublicKey option" where
  "next_view_leader st = round_leader (st\<lparr>br_view := br_view st + 1\<rparr>)"

definition is_round_leader :: "Consensus \<Rightarrow> bool" where
  "is_round_leader st \<longleftrightarrow> br_state_tag st = Leader"

definition current_slot_prepare_is_present :: "Consensus \<Rightarrow> bool" where
  "current_slot_prepare_is_present st \<longleftrightarrow> cp_slot (br_current_proposal st) = br_slot st"

definition verify_quorum_signers_part_of_consensus :: "Consensus \<Rightarrow> 'm QuorumCertificate \<Rightarrow> bool" where
  "verify_quorum_signers_part_of_consensus st qc =
     list_all (\<lambda>v. list_ex (\<lambda>v2. v2 = v) (st_bonded (br_staking st))) (ag_validators (qc_signature qc))"

definition is_part_of_consensus :: "Consensus \<Rightarrow> ValidatorPublicKey \<Rightarrow> bool" where
  "is_part_of_consensus st pubkey = is_bonded (br_staking st) pubkey"

text \<open>A bonded validator without an entry in the registry panics.\<close>

definition get_own_voting_power :: "Node \<Rightarrow> Consensus \<Rightarrow> u128 option" where
  "get_own_voting_power N st =
     (if is_part_of_consensus st (own_key N) then get_stake (br_staking st) (own_key N) else Some 0)"

definition verify_quorum_certificate ::
    "Node \<Rightarrow> Consensus \<Rightarrow> ('t \<Rightarrow> bytes option) \<Rightarrow> 't \<Rightarrow> 'm QuorumCertificate \<Rightarrow> (unit, ConsensusError) Result" where
  "verify_quorum_certificate N st enc message quorum_certificate =
     (let expected_signed_message =
            \<lparr>sg_msg = message,
             sg_signature = \<lparr>ag_signature = ag_signature (qc_signature quorum_certificate),
                             ag_validators = ag_validators (qc_signature quorum_certificate)\<rparr>\<rparr>;
          part = verify_quorum_signers_part_of_consensus st quorum_certificate
      in case verify_aggregate (nd_env N) (nd_crypto N) enc expected_signed_message of
           Inl err \<Rightarrow> Err (QcUnverifiable err)
         | Inr res \<Rightarrow>
             if \<not> res \<and> part then Err QcInvalid
             else if \<not> part then Err QcNonConsensusValidators
             else
               let voting_power = compute_voting_power (br_staking st) (ag_validators (qc_signature quorum_certificate));
                   f = compute_f (br_staking st)
               in if voting_power < 2 * f + 1 then Err QcNotEnoughPower else Ok ())"

definition verify_commit_quorum_certificate_against_current_proposal ::
    "Node \<Rightarrow> Consensus \<Rightarrow> CommitQC \<Rightarrow> (unit, ConsensusError) Result" where
  "verify_commit_quorum_certificate_against_current_proposal N st commit_quorum_certificate =
     verify_quorum_certificate N st (enc_confirm_ack (nd_borsh N))
       (hashed N (br_current_proposal st), ConfirmAckMarker) commit_quorum_certificate"

definition emit_commit_event :: "Node \<Rightarrow> CommitQC \<Rightarrow> unit cstep" where
  "emit_commit_event N commit_quorum_certificate =
     reads (\<lambda>st.
       bus_send N (CommitConsensusProposal
         \<lparr>cc_staking = br_staking st, cc_consensus_proposal = br_current_proposal st,
          cc_certificate = qc_signature commit_quorum_certificate\<rparr>))"

definition send_candidacy :: "Node \<Rightarrow> unit cstep" where
  "send_candidacy N =
     bnd (attempt (map_err CryptoFailed
            (sign (nd_crypto N) (enc_candidacy (nd_borsh N)) \<lparr>vc_peer_address = nd_public_address N\<rparr>)))
       (\<lambda>candidacy. broadcast_net_message N (CandidacyMessage candidacy))"

subsection \<open>Buffered prepares\<close>

definition bp_contains :: "BufferedPrepares \<Rightarrow> ConsensusProposalHash \<Rightarrow> bool" where
  "bp_contains bp proposal_hash \<longleftrightarrow> map_of (bp_prepares bp) proposal_hash \<noteq> None"

definition bp_push :: "Node \<Rightarrow> Prepare \<Rightarrow> BufferedPrepares \<Rightarrow> BufferedPrepares" where
  "bp_push N prepare_message bp =
     (let (_, proposal, _, _) = prepare_message;
          proposal_hash = hashed N proposal
      in \<lparr>bp_prepares = bt_insert proposal_hash prepare_message (bp_prepares bp),
          bp_children = bt_insert (cp_parent_hash proposal) proposal_hash (bp_children bp)\<rparr>)"

definition bp_get :: "BufferedPrepares \<Rightarrow> ConsensusProposalHash \<Rightarrow> Prepare option" where
  "bp_get bp proposal_hash = map_of (bp_prepares bp) proposal_hash"

definition next_prepare :: "BufferedPrepares \<Rightarrow> ConsensusProposalHash \<Rightarrow> Prepare option" where
  "next_prepare bp proposal_hash =
     (case map_of (bp_children bp) proposal_hash of
        None \<Rightarrow> None
      | Some children \<Rightarrow> map_of (bp_prepares bp) children)"

abbreviation buffered :: "Consensus \<Rightarrow> BufferedPrepares" where
  "buffered st \<equiv> fw_buffered_prepares (br_follower st)"

definition push_prepare :: "Node \<Rightarrow> Prepare \<Rightarrow> Consensus \<Rightarrow> Consensus" where
  "push_prepare N prepare st =
     st\<lparr>br_follower := (br_follower st)\<lparr>fw_buffered_prepares := bp_push N prepare (buffered st)\<rparr>\<rparr>"

definition has_no_buffered_children :: "Node \<Rightarrow> Consensus \<Rightarrow> bool" where
  "has_no_buffered_children N st \<longleftrightarrow> next_prepare (buffered st) (hashed N (br_current_proposal st)) = None"

subsection \<open>Timeout state\<close>

definition as_millis :: "Duration \<Rightarrow> u128" where
  "as_millis d = word_of_nat (d div 1000000)"

definition schedule_next :: "Node \<Rightarrow> Consensus \<Rightarrow> Consensus" where
  "schedule_next N st =
     st\<lparr>br_timeout := (br_timeout st)\<lparr>tr_state := Scheduled (nd_now N + as_millis (nd_timeout_after N))\<rparr>\<rparr>"

definition certificate_emitted :: "Consensus \<Rightarrow> Consensus" where
  "certificate_emitted st = st\<lparr>br_timeout := (br_timeout st)\<lparr>tr_state := CertificateEmitted\<rparr>\<rparr>"

definition update_highest_seen_prepare_qc ::
    "Slot \<Rightarrow> PrepareQC \<Rightarrow> TimeoutRoleState \<Rightarrow> TimeoutRoleState \<times> bool" where
  "update_highest_seen_prepare_qc slot qc tr =
     (case tr_highest_seen_prepare_qc tr of
        Some (s, _) \<Rightarrow>
          if slot < s then (tr, False) else (tr\<lparr>tr_highest_seen_prepare_qc := Some (slot, qc)\<rparr>, True)
      | None \<Rightarrow> (tr\<lparr>tr_highest_seen_prepare_qc := Some (slot, qc)\<rparr>, True))"

subsection \<open>Ending a round\<close>

fun apply_staking_action :: "ConsensusStakingAction \<Rightarrow> unit cstep" where
  "apply_staking_action (Bond candidate) =
     reads (\<lambda>st.
       case bond (br_staking st) (vs_validator (sg_signature candidate)) of (staking, r) \<Rightarrow>
         thn (modify (\<lambda>st. st\<lparr>br_staking := staking\<rparr>)) (attempt (map_err StakingFailed r)))"
| "apply_staking_action (PayFeesForDaDi lane_id cumul_size) =
     reads (\<lambda>st.
       case pay_for_dadi (br_staking st) lane_id cumul_size of (staking, r) \<Rightarrow>
         thn (modify (\<lambda>st. st\<lparr>br_staking := staking\<rparr>)) (attempt (map_err StakingFailed r)))"

definition distribute_fees :: "unit cstep" where
  "distribute_fees =
     reads (\<lambda>st.
       bnd (unwrap (staking_distribute (br_staking st))) (\<lambda>(staking, r).
         thn (modify (\<lambda>st. st\<lparr>br_staking := staking\<rparr>)) (attempt (map_err StakingFailed r))))"

text \<open>The arm of \<open>apply_ticket\<close> for a committed proposal.\<close>

definition commit_round :: "Node \<Rightarrow> CommitQC option \<Rightarrow> unit cstep" where
  "commit_round N qc =
     thn (modify (\<lambda>st. st\<lparr>
            br_slot := br_slot st + 1,
            br_view := 0,
            br_parent_hash := hashed N (br_current_proposal st),
            br_parent_timestamp := cp_timestamp (br_current_proposal st),
            br_parent_cut := cp_cut (br_current_proposal st),
            br_follower := (br_follower st)\<lparr>fw_buffered_quorum_certificate := qc\<rparr>\<rparr>))
       (reads (\<lambda>st.
          thn (modify (\<lambda>st. st\<lparr>br_current_proposal := (br_current_proposal st)\<lparr>cp_staking_actions := []\<rparr>\<rparr>))
            (thn (for_each apply_staking_action (cp_staking_actions (br_current_proposal st)))
              distribute_fees)))"

definition assume_role :: "Node \<Rightarrow> unit cstep" where
  "assume_role N =
     reads (\<lambda>st. bnd (unwrap (round_leader st)) (\<lambda>round_leader.
       if round_leader = own_key N then modify (\<lambda>st. st\<lparr>br_state_tag := Leader\<rparr>)
       else modify (\<lambda>st. schedule_next N (st\<lparr>br_state_tag := Follower\<rparr>))))"

definition apply_ticket :: "Node \<Rightarrow> Ticket \<Rightarrow> unit cstep" where
  "apply_ticket N ticket =
     reads (\<lambda>st.
       if br_state_tag st = Joining then bail NotSynchronized
       else
         thn (modify (\<lambda>st. st\<lparr>br_leader := LeaderState_default, br_timeout := (br_timeout st)\<lparr>tr_requests := []\<rparr>\<rparr>))
           (thn
             (case ticket of
                Ticket_CommitQC qc \<Rightarrow> commit_round N (Some qc)
              | Ticket_ForcedCommitQc \<Rightarrow> commit_round N None
              | Ticket_TimeoutQC _ _ \<Rightarrow>
                  modify (\<lambda>st. st\<lparr>
                    br_view := br_view st + 1,
                    br_follower := (br_follower st)\<lparr>fw_buffered_quorum_certificate := None\<rparr>\<rparr>)
              | Ticket_Genesis \<Rightarrow> bail GenesisTicketNotAccepted)
             (assume_role N)))"

definition set_pending_ticket :: "Ticket option \<Rightarrow> Consensus \<Rightarrow> Consensus" where
  "set_pending_ticket t st = st\<lparr>br_leader := (br_leader st)\<lparr>ld_pending_ticket := t\<rparr>\<rparr>"

definition stake_or_zero :: "Staking \<Rightarrow> ValidatorPublicKey \<Rightarrow> u128" where
  "stake_or_zero s v = (case get_stake s v of None \<Rightarrow> 0 | Some x \<Rightarrow> x)"

definition advance_round :: "Node \<Rightarrow> Ticket \<Rightarrow> unit cstep" where
  "advance_round N ticket =
     thn (apply_ticket N ticket)
       (reads (\<lambda>st.
          if is_round_leader st \<and> has_no_buffered_children N st \<and> ticket \<noteq> Ticket_ForcedCommitQc then
            thn (modify (set_pending_ticket (Some ticket))) (bus_send N (SendCommand (StartNewSlot None)))
          else if is_part_of_consensus st (own_key N) then ret ()
          else if MIN_STAKE < stake_or_zero (br_staking st) (own_key N) then send_candidacy N
          else ret ()))"

subsection \<open>Candidates, blocks and genesis\<close>

definition on_validator_candidacy :: "ValidatorCandidacy SignedByValidator \<Rightarrow> unit cstep" where
  "on_validator_candidacy candidacy =
     reads (\<lambda>st. let validator = vs_validator (sg_signature candidacy) in
       if is_part_of_consensus st validator then ret ()
       else if is_bonded (br_staking st) validator then ret ()
       else case get_stake (br_staking st) validator of
              None \<Rightarrow> bail CandidateNotStaking
            | Some amount \<Rightarrow>
                if amount < MIN_STAKE then bail CandidateStakeTooLow
                else modify (\<lambda>st. st\<lparr>cn_validator_candidates := cn_validator_candidates st @ [candidacy]\<rparr>))"

definition ConsensusProposal_default :: ConsensusProposal where
  "ConsensusProposal_default =
     \<lparr>cp_slot = 0, cp_parent_hash = [], cp_cut = [], cp_staking_actions = [], cp_timestamp = 0\<rparr>"

definition handle_node_state_event :: "Block \<Rightarrow> unit cstep" where
  "handle_node_state_event block =
     reads (\<lambda>st. bnd (unwrap (process_block (br_staking st) block)) (\<lambda>(staking, r).
       thn (modify (\<lambda>st. st\<lparr>br_staking := staking\<rparr>))
         (thn (attempt (map_err StakingFailed r))
           (if br_state_tag st = Joining \<and> js_staking_updated_to (br_joining st) < bk_block_height block then
              modify (\<lambda>st. st\<lparr>
                br_joining := \<lparr>js_staking_updated_to = bk_block_height block\<rparr>,
                br_slot := bk_block_height block + 1,
                br_view := 0,
                br_parent_hash := bk_hash block,
                br_current_proposal := ConsensusProposal_default\<lparr>cp_slot := bk_block_height block\<rparr>,
                br_timeout := (br_timeout st)\<lparr>tr_requests := []\<rparr>\<rparr>)
            else ret ()))))"

datatype GenesisEvent = GenesisBlock SignedBlock | NoGenesis

text \<open>An error of a send that is only logged.\<close>

definition log_error :: "unit cstep \<Rightarrow> unit cstep" where
  "log_error m st = (case m st of None \<Rightarrow> None | Some (st', r) \<Rightarrow> Some (st', Ok ()))"

text \<open>\<open>block\<close> is the first block that the node state reports after the genesis event.\<close>

definition wait_genesis :: "Node \<Rightarrow> GenesisEvent \<Rightarrow> Block \<Rightarrow> unit cstep" where
  "wait_genesis N event block =
     thn
       (case event of
          GenesisBlock signed_block \<Rightarrow>
            if bk_block_height block \<noteq> 0 then bail NonGenesisBlock
            else
              thn (handle_node_state_event block)
                (thn (modify (\<lambda>st. st\<lparr>
                        br_parent_hash := SignedBlock_hashed (nd_env N) signed_block, br_slot := 1, br_view := 0\<rparr>))
                  (reads (\<lambda>st. bnd (unwrap (round_leader st)) (\<lambda>round_leader.
                     thn (modify (\<lambda>st. st\<lparr>br_state_tag := if round_leader = own_key N then Leader else Follower\<rparr>))
                       (log_error (bus_send N (CommitConsensusProposal
                         \<lparr>cc_staking = br_staking st,
                          cc_consensus_proposal = sk_consensus_proposal signed_block,
                          cc_certificate = sk_certificate signed_block\<rparr>)))))))
        | NoGenesis \<Rightarrow> modify (\<lambda>st. schedule_next N (st\<lparr>br_state_tag := Joining\<rparr>)))
       (reads (\<lambda>st.
          if is_round_leader st then
            thn (modify (set_pending_ticket (Some Ticket_Genesis))) (bus_send N (SendCommand (StartNewSlot None)))
          else ret ()))"

subsection \<open>Leader\<close>

definition candidate_bonds :: "Consensus \<Rightarrow> ConsensusStakingAction list" where
  "candidate_bonds st =
     map Bond (filter (\<lambda>v.
       MIN_STAKE < stake_or_zero (br_staking st) (vs_validator (sg_signature v)) \<and>
       \<not> is_bonded (br_staking st) (vs_validator (sg_signature v))) (cn_validator_candidates st))"

definition new_proposal :: "TimestampMs \<Rightarrow> Cut \<Rightarrow> unit cstep" where
  "new_proposal current_timestamp the_cut =
     reads (\<lambda>st. modify (\<lambda>st'. st'\<lparr>
       cn_validator_candidates := [],
       br_current_proposal :=
         \<lparr>cp_slot = br_slot st,
          cp_parent_hash = br_parent_hash st,
          cp_cut = the_cut,
          cp_staking_actions =
            candidate_bonds st @ map (\<lambda>(lane_id, _, cumul_size, _). PayFeesForDaDi lane_id cumul_size) the_cut,
          cp_timestamp = current_timestamp\<rparr>\<rparr>))"

definition propose :: "Node \<Rightarrow> Ticket \<Rightarrow> unit cstep" where
  "propose N ticket =
     thn (modify (\<lambda>st. st\<lparr>br_leader := (br_leader st)\<lparr>ld_step := PrepareVoteStep\<rparr>\<rparr>))
       (reads (\<lambda>st.
          thn (modify (push_prepare N (own_key N, br_current_proposal st, ticket, br_view st)))
            (broadcast_net_message N (Prepare (br_current_proposal st) ticket (br_view st)))))"

fun is_timeout_ticket :: "Ticket \<Rightarrow> bool" where
  "is_timeout_ticket (Ticket_TimeoutQC _ _) = True"
| "is_timeout_ticket _ = False"

text \<open>\<open>new_cut\<close> is the answer of the mempool, \<open>None\<close> on an error or when it comes too late.\<close>

definition start_round :: "Node \<Rightarrow> TimestampMs \<Rightarrow> TimestampMs option \<Rightarrow> Cut option \<Rightarrow> unit cstep" where
  "start_round N current_timestamp may_delay new_cut =
     reads (\<lambda>st.
       if ld_step (br_leader st) \<noteq> StartSlotStep then bail WrongStep
       else if \<not> is_round_leader st then bnd (unwrap (round_leader st)) (\<lambda>_. bail NotLeader)
       else case ld_pending_ticket (br_leader st) of
              None \<Rightarrow> bail NoTicket
            | Some ticket \<Rightarrow>
                thn (modify (set_pending_ticket None))
                  (if cp_slot (br_current_proposal st) = br_slot st then propose N ticket
                   else case new_cut of
                          Some the_cut \<Rightarrow>
                            if (case may_delay of None \<Rightarrow> True | Some ts \<Rightarrow> current_timestamp < ts) \<and>
                               \<not> is_timeout_ticket ticket \<and> the_cut = br_parent_cut st then
                              let max_delay = (case may_delay of
                                    Some ts \<Rightarrow> ts | None \<Rightarrow> current_timestamp + as_millis (nd_slot_duration N));
                                  sleep_for = min (unat (ucast (max_delay - current_timestamp) :: u64) * 1000000) 500000000
                              in thn (modify (set_pending_ticket (Some ticket)))
                                   (modify (\<lambda>st. st\<lparr>cn_bus :=
                                      cn_bus st @ [DelayedCommand sleep_for (StartNewSlot (Some max_delay))]\<rparr>))
                            else thn (new_proposal current_timestamp the_cut) (propose N ticket)
                        | None \<Rightarrow> thn (new_proposal current_timestamp (br_parent_cut st)) (propose N ticket)))"

definition on_prepare_vote :: "Node \<Rightarrow> PrepareVote \<Rightarrow> unit cstep" where
  "on_prepare_vote N prepare_vote =
     reads (\<lambda>st.
       if br_state_tag st \<noteq> Leader then ret ()
       else if ld_step (br_leader st) \<noteq> PrepareVoteStep then ret ()
       else if fst (sg_msg prepare_vote) \<noteq> hashed N (br_current_proposal st) then bail WrongVoteHash
       else
         let votes = hs_insert prepare_vote (ld_prepare_votes (br_leader st));
             votes_power = compute_voting_power (br_staking st) (map (\<lambda>v. vs_validator (sg_signature v)) votes);
             f = compute_f (br_staking st);
             proposal_hash_hint = hashed N (br_current_proposal st)
         in thn (modify (\<lambda>st. st\<lparr>br_leader := (br_leader st)\<lparr>ld_prepare_votes := votes\<rparr>\<rparr>))
              (bnd (unwrap (get_own_voting_power N st)) (\<lambda>own_power.
                 if 2 * f < votes_power + own_power then
                   bnd (attempt (map_err CryptoFailed
                          (sign_aggregate (nd_env N) (nd_crypto N) (enc_prepare_vote (nd_borsh N))
                             (proposal_hash_hint, PrepareVoteMarker) votes)))
                     (\<lambda>aggregation.
                        thn (modify (\<lambda>st. st\<lparr>br_leader := (br_leader st)\<lparr>ld_step := ConfirmAckStep\<rparr>\<rparr>))
                          (broadcast_net_message N
                             (Confirm (QuorumCertificate (sg_signature aggregation) PrepareVoteMarker) proposal_hash_hint)))
                 else ret ())))"

definition on_confirm_ack :: "Node \<Rightarrow> ConfirmAck \<Rightarrow> unit cstep" where
  "on_confirm_ack N confirm_ack =
     reads (\<lambda>st.
       if br_state_tag st \<noteq> Leader then ret ()
       else if ld_step (br_leader st) \<noteq> ConfirmAckStep then ret ()
       else if fst (sg_msg confirm_ack) \<noteq> hashed N (br_current_proposal st) then bail WrongAckHash
       else if confirm_ack \<in> set (ld_confirm_ack (br_leader st)) then ret ()
       else
         let acks = hs_insert confirm_ack (ld_confirm_ack (br_leader st));
             confirmed_power = compute_voting_power (br_staking st) (map (\<lambda>v. vs_validator (sg_signature v)) acks);
             f = compute_f (br_staking st)
         in thn (modify (\<lambda>st. st\<lparr>br_leader := (br_leader st)\<lparr>ld_confirm_ack := acks\<rparr>\<rparr>))
              (bnd (unwrap (get_own_voting_power N st)) (\<lambda>own_power.
                 if 2 * f < confirmed_power + own_power then
                   bnd (attempt (map_err CryptoFailed
                          (sign_aggregate (nd_env N) (nd_crypto N) (enc_confirm_ack (nd_borsh N))
                             (hashed N (br_current_proposal st), ConfirmAckMarker) acks)))
                     (\<lambda>aggregation.
                        let commit_quorum_certificate = QuorumCertificate (sg_signature aggregation) ConfirmAckMarker
                        in thn (broadcast_net_message N (Commit commit_quorum_certificate (fst (sg_msg confirm_ack))))
                             (thn (reads (\<lambda>st. attempt
                                     (verify_commit_quorum_certificate_against_current_proposal N st commit_quorum_certificate)))
                               (thn (emit_commit_event N commit_quorum_certificate)
                                 (advance_round N (Ticket_CommitQC commit_quorum_certificate)))))
                 else ret ())))"

subsection \<open>Verification of proposals\<close>

definition verify_poda_entry ::
    "Node \<Rightarrow> Consensus \<Rightarrow> LaneId \<times> DataProposalHash \<times> LaneBytesSize \<times> AggregateSignature \<Rightarrow> (unit, ConsensusError) Result" where
  "verify_poda_entry N st entry =
     (let (lane_id, data_proposal_hash, lane_size, poda_sig) = entry;
          voting_power = compute_voting_power (br_staking st) (ag_validators poda_sig);
          f = compute_f (br_staking st);
          parent = List.find (\<lambda>(v, _, _, _). v = lane_id) (br_parent_cut st)
      in
      if \<not> is_known (br_staking st) lane_id then Err UnknownLane
      else if (case parent of Some (_, h, _, _) \<Rightarrow> h = data_proposal_hash | None \<Rightarrow> False) then Ok ()
      else if (case parent of Some (_, _, sz, _) \<Rightarrow> lane_size \<le> sz | None \<Rightarrow> False) then Err CutGoesBackwards
      else if voting_power < f + 1 then Err NotEnoughPoDA
      else case verify_aggregate (nd_env N) (nd_crypto N) (enc_poda (nd_borsh N))
                  \<lparr>sg_msg = (data_proposal_hash, lane_size), sg_signature = poda_sig\<rparr> of
             Inr valid \<Rightarrow> if \<not> valid then Err PoDAInvalid else Ok ()
           | Inl err \<Rightarrow> Err (PoDAUnverifiable err))"

fun verify_poda_entries :: "Node \<Rightarrow> Consensus \<Rightarrow> Cut \<Rightarrow> (unit, ConsensusError) Result" where
  "verify_poda_entries N st [] = Ok ()"
| "verify_poda_entries N st (entry # the_cut) =
     and_then (verify_poda_entry N st entry) (\<lambda>_. verify_poda_entries N st the_cut)"

definition verify_poda :: "Node \<Rightarrow> Consensus \<Rightarrow> ConsensusProposal \<Rightarrow> (unit, ConsensusError) Result" where
  "verify_poda N st consensus_proposal =
     (if list_ex (\<lambda>(lane_id, _, _, _). \<not> list_ex (\<lambda>(l, _, _, _). l = lane_id) (cp_cut consensus_proposal)) (br_parent_cut st)
      then Err CutMissesLanes
      else verify_poda_entries N st (cp_cut consensus_proposal))"

text \<open>The multiplication and the addition of durations panic when they overflow.\<close>

definition duration_checked :: "nat \<Rightarrow> Duration option" where
  "duration_checked d = (if d < 2 ^ 64 * 1000000000 then Some d else None)"

definition max_round_duration :: "Node \<Rightarrow> Consensus \<Rightarrow> Duration option" where
  "max_round_duration N st =
     (case duration_checked (nd_slot_duration N * 2) of None \<Rightarrow> None | Some a \<Rightarrow>
      case duration_checked (nd_timeout_after N * unat (ucast (br_view st) :: u32)) of None \<Rightarrow> None | Some b \<Rightarrow>
      duration_checked (a + b))"

definition verify_timestamp ::
    "Node \<Rightarrow> Consensus \<Rightarrow> ConsensusProposal \<Rightarrow> (unit, ConsensusError) Result option" where
  "verify_timestamp N st consensus_proposal =
     (let timestamp = cp_timestamp consensus_proposal;
          previous_timestamp = br_parent_timestamp st;
          monotonic_check = (if timestamp \<le> previous_timestamp then Err TimestampTooOld else Ok ())
      in
      if previous_timestamp = 0 then Some (Ok ())
      else case nd_timestamp_checks N of
             NoCheck \<Rightarrow> Some (Ok ())
           | Monotonic \<Rightarrow> Some monotonic_check
           | Full \<Rightarrow>
               if \<not> is_ok monotonic_check then Some monotonic_check
               else case max_round_duration N st of
                      None \<Rightarrow> None
                    | Some d \<Rightarrow>
                        if previous_timestamp + as_millis d < timestamp then Some (Err TimestampTooLate)
                        else Some (Ok ()))"

definition verify_dadi_fees :: "Cut \<Rightarrow> LaneId \<Rightarrow> LaneBytesSize \<Rightarrow> (unit, ConsensusError) Result" where
  "verify_dadi_fees the_cut lane_id cumul_size =
     (case List.find (\<lambda>(l, _, sz, _). l = lane_id \<and> sz = cumul_size) the_cut of
        None \<Rightarrow> Err FeesNotInCut
      | Some _ \<Rightarrow> Ok ())"

definition verify_new_validators_to_bond :: "Node \<Rightarrow> ValidatorCandidacy SignedByValidator \<Rightarrow> unit cstep" where
  "verify_new_validators_to_bond N new_validator =
     reads (\<lambda>st. let pubkey = vs_validator (sg_signature new_validator) in
       case get_stake (br_staking st) pubkey of
         None \<Rightarrow> bail NewValidatorNoStake
       | Some amount \<Rightarrow>
           if amount < MIN_STAKE then bail NewValidatorStakeTooLow
           else
             bnd (attempt (map_err CryptoFailed (verify (nd_env N) (enc_candidacy (nd_borsh N)) new_validator))) (\<lambda>valid.
               if \<not> valid then bail NewValidatorBadSignature
               else
                 thn (modify (\<lambda>st. st\<lparr>cn_validator_candidates :=
                        filter (\<lambda>v. vs_validator (sg_signature v) \<noteq> pubkey) (cn_validator_candidates st)\<rparr>))
                   (bus_send N (ConnectTo (vc_peer_address (sg_msg new_validator))))))"

fun verify_staking_action :: "Node \<Rightarrow> Cut \<Rightarrow> ConsensusStakingAction \<Rightarrow> unit cstep" where
  "verify_staking_action N the_cut (Bond candidate) = verify_new_validators_to_bond N candidate"
| "verify_staking_action N the_cut (PayFeesForDaDi lane_id cumul_size) = attempt (verify_dadi_fees the_cut lane_id cumul_size)"

definition verify_staking_actions :: "Node \<Rightarrow> ConsensusProposal \<Rightarrow> unit cstep" where
  "verify_staking_actions N proposal =
     for_each (verify_staking_action N (cp_cut proposal)) (cp_staking_actions proposal)"

definition current_proposal_changes_voting_power :: "Consensus \<Rightarrow> bool" where
  "current_proposal_changes_voting_power st \<longleftrightarrow>
     0 < length (filter (\<lambda>sa. case sa of Bond _ \<Rightarrow> True | _ \<Rightarrow> False) (cp_staking_actions (br_current_proposal st)))"

subsection \<open>Timeout certificates\<close>

text \<open>Keep a prepare certificate of the slot and, if it is not older, its proposal.\<close>

definition adopt_prepare_qc :: "Slot \<Rightarrow> PrepareQC \<Rightarrow> ConsensusProposal \<Rightarrow> unit cstep" where
  "adopt_prepare_qc slot qc cp =
     modify (\<lambda>st.
       case update_highest_seen_prepare_qc slot qc (br_timeout st) of (tr, updated) \<Rightarrow>
         if updated then st\<lparr>br_timeout := tr, br_current_proposal := cp\<rparr> else st\<lparr>br_timeout := tr\<rparr>)"

definition verify_tc :: "Node \<Rightarrow> TimeoutQC \<Rightarrow> TCKind \<Rightarrow> Slot \<Rightarrow> View \<Rightarrow> unit cstep" where
  "verify_tc N received_timeout_certificate received_proposal_qc received_slot received_view =
     reads (\<lambda>st.
       let timeout_ok = verify_quorum_certificate N st (enc_timeout (nd_borsh N))
             (received_slot, received_view, br_parent_hash st, ConsensusTimeoutMarker) received_timeout_certificate
       in case received_proposal_qc of
            TC_NilProposal \<Rightarrow> attempt timeout_ok
          | TC_PrepareQC qc cp \<Rightarrow>
              thn (attempt timeout_ok)
                (if cp_slot cp \<noteq> received_slot then bail TcQcWrongSlot
                 else
                   thn (attempt (verify_quorum_certificate N st (enc_prepare_vote (nd_borsh N))
                          (hashed N cp, PrepareVoteMarker) qc))
                     (adopt_prepare_qc received_slot qc cp)))"

definition on_timeout_certificate :: "Node \<Rightarrow> TimeoutQC \<Rightarrow> TCKind \<Rightarrow> Slot \<Rightarrow> View \<Rightarrow> unit cstep" where
  "on_timeout_certificate N received_timeout_certificate received_proposal_qc received_slot received_view =
     reads (\<lambda>st.
       if received_slot < br_slot st \<or> received_slot = br_slot st \<and> received_view < br_view st then ret ()
       else if br_slot st < received_slot \<or> br_view st < received_view then ret ()
       else
         thn (verify_tc N received_timeout_certificate received_proposal_qc received_slot received_view)
           (reads (\<lambda>st. bnd (unwrap (next_view_leader st)) (\<lambda>leader.
              thn (if leader \<noteq> own_key N \<and> br_state_tag st = Joining
                   then modify (\<lambda>st. st\<lparr>br_state_tag := Leader\<rparr>) else ret ())
                (advance_round N (Ticket_TimeoutQC received_timeout_certificate received_proposal_qc))))))"

definition timeout_message :: "Consensus \<Rightarrow> TimeoutMsg" where
  "timeout_message st = (br_slot st, br_view st, br_parent_hash st, ConsensusTimeoutMarker)"

definition get_timeout_message :: "Node \<Rightarrow> Consensus \<Rightarrow> (ConsensusTimeout, ConsensusError) Result" where
  "get_timeout_message N st =
     and_then (map_err CryptoFailed (sign (nd_crypto N) (enc_timeout (nd_borsh N)) (timeout_message st))) (\<lambda>signed_timeout_metadata.
       let nil = and_then (map_err CryptoFailed (sign (nd_crypto N) (enc_timeout (nd_borsh N)) (timeout_message st)))
                   (\<lambda>nil_signed. Ok (signed_timeout_metadata, TK_NilProposal nil_signed))
       in case tr_highest_seen_prepare_qc (br_timeout st) of
            Some (s, qc) \<Rightarrow>
              if s = br_slot st then Ok (signed_timeout_metadata, TK_PrepareQC qc (br_current_proposal st)) else nil
          | None \<Rightarrow> nil)"

fun nil_messages :: "ConsensusTimeout list \<Rightarrow> (TimeoutMsg SignedByValidator list, ConsensusError) Result" where
  "nil_messages [] = Ok []"
| "nil_messages ((_, TK_NilProposal nil_signed) # requests) =
     and_then (nil_messages requests) (\<lambda>ms. Ok (nil_signed # ms))"
| "nil_messages ((_, TK_PrepareQC _ _) # requests) = Err NotAllNil"

definition timeout_ticket :: "Node \<Rightarrow> Consensus \<Rightarrow> Slot \<Rightarrow> (TimeoutQC \<times> TCKind, ConsensusError) Result" where
  "timeout_ticket N st received_slot =
     (let certify = (\<lambda>messages. map_err CryptoFailed
            (sign_aggregate (nd_env N) (nd_crypto N) (enc_timeout (nd_borsh N)) (timeout_message st) messages));
          nil = and_then (nil_messages (tr_requests (br_timeout st))) (\<lambda>signed_nil_messages.
                and_then (certify signed_nil_messages) (\<lambda>c.
                  Ok (QuorumCertificate (sg_signature c) ConsensusTimeoutMarker, TC_NilProposal)))
      in case tr_highest_seen_prepare_qc (br_timeout st) of
           Some (s, qc) \<Rightarrow>
             if s = received_slot then
               and_then (certify (map fst (tr_requests (br_timeout st)))) (\<lambda>c.
                 Ok (QuorumCertificate (sg_signature c) ConsensusTimeoutMarker, TC_PrepareQC qc (br_current_proposal st)))
             else nil
         | None \<Rightarrow> nil)"

definition insert_timeout :: "ConsensusTimeout \<Rightarrow> Consensus \<Rightarrow> Consensus" where
  "insert_timeout t st = st\<lparr>br_timeout := (br_timeout st)\<lparr>tr_requests := hs_insert t (tr_requests (br_timeout st))\<rparr>\<rparr>"

text \<open>The parts of \<open>on_timeout\<close>: joining the timeout of others, and the certificate.\<close>

definition join_mutiny :: "Node \<Rightarrow> u128 \<Rightarrow> u128 cstep" where
  "join_mutiny N voting_power =
     reads (\<lambda>st. bnd (attempt (get_timeout_message N st)) (\<lambda>timeout.
       thn (modify (insert_timeout timeout))
         (thn (broadcast_net_message N (TimeoutMessage timeout))
           (reads (\<lambda>st. bnd (unwrap (get_own_voting_power N st)) (\<lambda>own_power.
              thn (modify (schedule_next N)) (ret (voting_power + own_power))))))))"

definition create_timeout_certificate :: "Node \<Rightarrow> Slot \<Rightarrow> View \<Rightarrow> unit cstep" where
  "create_timeout_certificate N received_slot received_view =
     reads (\<lambda>st. bnd (attempt (timeout_ticket N st received_slot)) (\<lambda>(qc, kind).
       thn (modify (schedule_next N))
         (reads (\<lambda>st. bnd (unwrap (next_view_leader st)) (\<lambda>round_leader.
            thn
              (if round_leader = own_key N then
                 (if br_state_tag st = Joining then modify (\<lambda>st. st\<lparr>br_state_tag := Leader\<rparr>) else ret ())
               else
                 thn (broadcast_net_message N (TimeoutCertificate qc kind received_slot received_view))
                   (modify certificate_emitted))
              (advance_round N (Ticket_TimeoutQC qc kind)))))))"

definition count_timeouts :: "Node \<Rightarrow> Slot \<Rightarrow> View \<Rightarrow> unit cstep" where
  "count_timeouts N received_slot received_view =
     reads (\<lambda>st.
       let f = compute_f (br_staking st);
           timeout_validators = map (\<lambda>(m, _). vs_validator (sg_signature m)) (tr_requests (br_timeout st));
           voting_power = compute_voting_power (br_staking st) timeout_validators
       in bnd (if f < voting_power \<and> own_key N \<notin> set timeout_validators then join_mutiny N voting_power
               else ret voting_power) (\<lambda>voting_power.
            reads (\<lambda>st.
              if 2 * f < voting_power \<and> tr_state (br_timeout st) \<noteq> CertificateEmitted
              then create_timeout_certificate N received_slot received_view else ret ())))"

definition on_timeout :: "Node \<Rightarrow> TimeoutMsg SignedByValidator \<Rightarrow> TimeoutKind \<Rightarrow> unit cstep" where
  "on_timeout N received_timeout received_tk =
     reads (\<lambda>st.
       let (received_slot, received_view, received_parent_hash, _) = sg_msg received_timeout in
       if \<not> is_part_of_consensus st (own_key N) then ret ()
       else if received_parent_hash \<noteq> br_parent_hash st then ret ()
       else if received_slot < br_slot st then ret ()
       else if received_slot \<noteq> br_slot st \<or> received_view \<noteq> br_view st then ret ()
       else
         thn (case received_tk of
                TK_NilProposal _ \<Rightarrow> ret ()
              | TK_PrepareQC qc cp \<Rightarrow>
                  if cp_slot cp = received_slot then
                    thn (attempt (verify_quorum_certificate N st (enc_prepare_vote (nd_borsh N))
                           (hashed N cp, PrepareVoteMarker) qc))
                      (adopt_prepare_qc received_slot qc cp)
                  else bail TimeoutQcWrongSlot)
           (reads (\<lambda>st.
              if (received_timeout, received_tk) \<in> set (tr_requests (br_timeout st)) then ret ()
              else
                thn (modify (insert_timeout (received_timeout, received_tk)))
                  (count_timeouts N received_slot received_view))))"

definition on_timeout_tick :: "Node \<Rightarrow> unit cstep" where
  "on_timeout_tick N =
     reads (\<lambda>st.
       case tr_state (br_timeout st) of
         Scheduled timestamp \<Rightarrow>
           if timestamp \<le> nd_now N then
             bnd (attempt (get_timeout_message N st)) (\<lambda>(timeout, kind).
               thn (on_timeout N timeout kind)
                 (thn (broadcast_net_message N (TimeoutMessage (timeout, kind)))
                   (modify (schedule_next N))))
           else ret ()
       | _ \<Rightarrow> ret ())"

subsection \<open>Follower\<close>

definition AggregateSignature_default :: AggregateSignature where
  "AggregateSignature_default = \<lparr>ag_signature = [], ag_validators = []\<rparr>"

text \<open>\<open>TicketVerifyAndProcess\<close>: \<open>True\<close> is \<open>Processed\<close>.\<close>

definition verify_and_process_tc_ticket :: "Node \<Rightarrow> TimeoutQC \<Rightarrow> TCKind \<Rightarrow> ConsensusProposal \<Rightarrow> View \<Rightarrow> bool cstep" where
  "verify_and_process_tc_ticket N timeout_qc tc_kind_data consensus_proposal prepare_view =
     reads (\<lambda>st.
       let prepare_slot = cp_slot consensus_proposal;
           is_next_slot_and_current_proposal_is_present =
             (prepare_slot = br_slot st + 1 \<and> current_slot_prepare_is_present st)
       in
       if prepare_slot = br_slot st \<or> is_next_slot_and_current_proposal_is_present then
         if (case tc_kind_data of TC_PrepareQC _ cp \<Rightarrow> cp \<noteq> consensus_proposal | TC_NilProposal \<Rightarrow> False)
         then bail TcProposalMismatch
         else
           thn
             (if is_next_slot_and_current_proposal_is_present \<and>
                 cp_parent_hash consensus_proposal = hashed N (br_current_proposal st)
              then
                if current_proposal_changes_voting_power st then bail TcChangesVotingPower
                else
                  thn (emit_commit_event N (QuorumCertificate AggregateSignature_default ConfirmAckMarker))
                    (advance_round N Ticket_ForcedCommitQc)
              else ret ())
             (reads (\<lambda>st.
                if prepare_slot \<noteq> br_slot st then bail TcWrongSlot
                else
                  thn (verify_tc N timeout_qc tc_kind_data (br_slot st) (prepare_view - 1))
                    (reads (\<lambda>st.
                       thn (if prepare_view = br_view st + 1
                            then advance_round N (Ticket_TimeoutQC timeout_qc tc_kind_data) else ret ())
                         (ret True)))))
       else ret False)"

definition verify_and_process_commit_ticket :: "Node \<Rightarrow> ConsensusProposal \<Rightarrow> CommitQC \<Rightarrow> bool cstep" where
  "verify_and_process_commit_ticket N consensus_proposal commit_qc =
     reads (\<lambda>st.
       if cp_slot consensus_proposal = br_slot st \<or>
          cp_slot consensus_proposal = br_slot st + 1 \<and> current_slot_prepare_is_present st
       then
         if fw_buffered_quorum_certificate (br_follower st) = Some commit_qc then ret True
         else if \<not> current_slot_prepare_is_present st then
           thn (attempt (verify_quorum_certificate N st (enc_confirm_ack (nd_borsh N))
                  (br_parent_hash st, ConfirmAckMarker) commit_qc))
             (ret True)
         else
           thn (attempt (verify_commit_quorum_certificate_against_current_proposal N st commit_qc))
             (thn (emit_commit_event N commit_qc)
               (thn (advance_round N (Ticket_CommitQC commit_qc)) (ret True)))
       else ret False)"

text \<open>
  The walk from a missing parent to an ancestor that is not buffered, \<open>Some None\<close> when it meets
  the current proposal. It does not return if the buffered proposals form a cycle.
\<close>

partial_function (option) missing_parent ::
    "BufferedPrepares \<Rightarrow> ConsensusProposalHash \<Rightarrow> ConsensusProposalHash \<Rightarrow> ConsensusProposalHash option option" where
  "missing_parent bp current_dp_hash missing_dp_hash =
     (case bp_get bp missing_dp_hash of
        None \<Rightarrow> Some (Some missing_dp_hash)
      | Some prep \<Rightarrow>
          if missing_dp_hash = current_dp_hash then Some None
          else missing_parent bp current_dp_hash (cp_parent_hash (fst (snd prep))))"

definition buffer_prepare_message_and_fetch_missing_parent :: "Node \<Rightarrow> Prepare \<Rightarrow> unit cstep" where
  "buffer_prepare_message_and_fetch_missing_parent N prepare =
     reads (\<lambda>st. let (_, consensus_proposal, _, _) = prepare in
       thn (if bp_contains (buffered st) (hashed N consensus_proposal) then ret () else modify (push_prepare N prepare))
         (reads (\<lambda>st.
            bnd (unwrap (missing_parent (buffered st) (hashed N (br_current_proposal st)) (cp_parent_hash consensus_proposal)))
              (\<lambda>missing.
                case missing of
                  None \<Rightarrow> ret ()
                | Some missing_dp_hash \<Rightarrow>
                    let bonded = st_bonded (br_staking st);
                        node_to_ask = (if bonded = [] then None else nd_choose N (filter (\<lambda>pk. pk \<noteq> own_key N) bonded))
                    in case node_to_ask of
                         Some n \<Rightarrow> send_net_message N n (SyncRequest missing_dp_hash)
                       | None \<Rightarrow> broadcast_net_message N (SyncRequest missing_dp_hash)))))"

definition process_ticket :: "Node \<Rightarrow> ConsensusProposal \<Rightarrow> Ticket \<Rightarrow> View \<Rightarrow> bool cstep" where
  "process_ticket N consensus_proposal ticket view =
     (case ticket of
        Ticket_Genesis \<Rightarrow> reads (\<lambda>st. if br_slot st \<noteq> 1 then bail GenesisTicketTooLate else ret True)
      | Ticket_CommitQC commit_qc \<Rightarrow> verify_and_process_commit_ticket N consensus_proposal commit_qc
      | Ticket_TimeoutQC timeout_qc tc_kind_data \<Rightarrow>
          verify_and_process_tc_ticket N timeout_qc tc_kind_data consensus_proposal view
      | Ticket_ForcedCommitQc \<Rightarrow> bail InvalidTicket)"

text \<open>
  The part of \<open>on_prepare\<close> after the ticket was processed. It returns the prepare to fast-forward
  to, for which the code calls \<open>on_prepare\<close> again.
\<close>

definition accept_prepare :: "Node \<Rightarrow> Prepare \<Rightarrow> Prepare option cstep" where
  "accept_prepare N prepare =
     (let (sender, consensus_proposal, ticket, view) = prepare in
      reads (\<lambda>st.
        if cp_slot consensus_proposal \<noteq> br_slot st then bail WrongSlot
        else if view \<noteq> br_view st then bail WrongView
        else
          bnd (unwrap (round_leader st)) (\<lambda>round_leader.
            if sender \<noteq> round_leader then bail WrongLeader
            else
              thn (attempt (verify_poda N st consensus_proposal))
                (thn (verify_staking_actions N consensus_proposal)
                  (reads (\<lambda>st. bnd (unwrap (verify_timestamp N st consensus_proposal)) (\<lambda>timestamp_ok.
                     thn (attempt timestamp_ok)
                       (thn (modify (\<lambda>st. push_prepare N prepare (st\<lparr>br_current_proposal := consensus_proposal\<rparr>)))
                         (reads (\<lambda>st.
                            case next_prepare (buffered st) (hashed N consensus_proposal) of
                              Some p \<Rightarrow> ret (Some p)
                            | None \<Rightarrow>
                                if is_part_of_consensus st (own_key N) then
                                  bnd (attempt (map_err CryptoFailed (sign (nd_crypto N) (enc_prepare_vote (nd_borsh N))
                                         (hashed N consensus_proposal, PrepareVoteMarker))))
                                    (\<lambda>vote. thn (send_net_message N round_leader (PrepareVote vote)) (ret None))
                                else ret None))))))))))"

definition prepare_is_expected :: "Consensus \<Rightarrow> ConsensusProposal \<Rightarrow> View \<Rightarrow> bool" where
  "prepare_is_expected st consensus_proposal view \<longleftrightarrow>
     cp_slot consensus_proposal = br_slot st \<and> \<not> current_slot_prepare_is_present st \<or>
     current_slot_prepare_is_present st \<and>
       (cp_slot consensus_proposal = br_slot st + 1 \<or> cp_slot consensus_proposal = br_slot st \<and> br_view st < view)"

definition on_prepare_once :: "Node \<Rightarrow> Prepare \<Rightarrow> Prepare option cstep" where
  "on_prepare_once N prepare =
     (let (sender, consensus_proposal, ticket, view) = prepare in
      reads (\<lambda>st.
        if br_state_tag st = Joining \<and> \<not> prepare_is_expected st consensus_proposal view
        then thn (modify (push_prepare N prepare)) (ret None)
        else
          thn (if br_state_tag st = Joining then modify (\<lambda>st. st\<lparr>br_state_tag := Follower\<rparr>) else ret ())
            (reads (\<lambda>st.
               if cp_slot consensus_proposal < br_slot st then ret None
               else
                 bnd (process_ticket N consensus_proposal ticket view) (\<lambda>processed.
                   if \<not> processed
                   then thn (buffer_prepare_message_and_fetch_missing_parent N prepare) (ret None)
                   else accept_prepare N prepare)))))"

partial_function (option) on_prepare ::
    "Node \<Rightarrow> Prepare \<Rightarrow> Consensus \<Rightarrow> (Consensus \<times> (unit, ConsensusError) Result) option" where
  "on_prepare N prepare st =
     (case on_prepare_once N prepare st of
        None \<Rightarrow> None
      | Some (st', r) \<Rightarrow>
          (case r of
             Inl e \<Rightarrow> Some (st', Err e)
           | Inr None \<Rightarrow> Some (st', Ok ())
           | Inr (Some p) \<Rightarrow> on_prepare N p st'))"

definition on_confirm :: "Node \<Rightarrow> PrepareQC \<Rightarrow> ConsensusProposalHash \<Rightarrow> unit cstep" where
  "on_confirm N prepare_quorum_certificate proposal_hash_hint =
     reads (\<lambda>st.
       if br_state_tag st \<noteq> Follower then ret ()
       else if proposal_hash_hint \<noteq> hashed N (br_current_proposal st) then ret ()
       else
         thn (attempt (verify_quorum_certificate N st (enc_prepare_vote (nd_borsh N))
                (proposal_hash_hint, PrepareVoteMarker) prepare_quorum_certificate))
           (thn (modify (\<lambda>st. st\<lparr>br_timeout :=
                   fst (update_highest_seen_prepare_qc (br_slot st) prepare_quorum_certificate (br_timeout st))\<rparr>))
             (if is_part_of_consensus st (own_key N) then
                bnd (unwrap (round_leader st)) (\<lambda>leader.
                bnd (attempt (map_err CryptoFailed (sign (nd_crypto N) (enc_confirm_ack (nd_borsh N))
                       (proposal_hash_hint, ConfirmAckMarker)))) (\<lambda>ack.
                  send_net_message N leader (ConfirmAck ack)))
              else ret ())))"

definition on_commit_while_joining :: "Node \<Rightarrow> CommitQC \<Rightarrow> ConsensusProposalHash \<Rightarrow> unit cstep" where
  "on_commit_while_joining N commit_quorum_certificate proposal_hash_hint =
     reads (\<lambda>st.
       case bp_get (buffered st) proposal_hash_hint of
         None \<Rightarrow> ret ()
       | Some (_, potential_proposal, _, _) \<Rightarrow>
           if cp_slot potential_proposal \<le> br_slot st then ret ()
           else if js_staking_updated_to (br_joining st) + 1 < cp_slot potential_proposal then ret ()
           else
             thn (modify (\<lambda>st. st\<lparr>br_current_proposal := potential_proposal\<rparr>))
               (thn (reads (\<lambda>st. attempt
                       (verify_commit_quorum_certificate_against_current_proposal N st commit_quorum_certificate)))
                 (thn (modify (\<lambda>st. st\<lparr>
                         br_slot := cp_slot (br_current_proposal st), br_view := 0, br_state_tag := Follower\<rparr>))
                   (thn (emit_commit_event N commit_quorum_certificate)
                     (advance_round N (Ticket_CommitQC commit_quorum_certificate))))))"

definition on_commit :: "Node \<Rightarrow> CommitQC \<Rightarrow> ConsensusProposalHash \<Rightarrow> unit cstep" where
  "on_commit N commit_quorum_certificate proposal_hash_hint =
     reads (\<lambda>st.
       if br_state_tag st \<noteq> Joining \<and> cp_slot (br_current_proposal st) \<noteq> br_slot st then ret ()
       else case br_state_tag st of
              Follower \<Rightarrow>
                if hashed N (br_current_proposal st) \<noteq> proposal_hash_hint then ret ()
                else
                  thn (attempt (verify_commit_quorum_certificate_against_current_proposal N st commit_quorum_certificate))
                    (thn (emit_commit_event N commit_quorum_certificate)
                      (advance_round N (Ticket_CommitQC commit_quorum_certificate)))
            | Joining \<Rightarrow> on_commit_while_joining N commit_quorum_certificate proposal_hash_hint
            | Leader \<Rightarrow> ret ())"

subsection \<open>Synchronisation and dispatch\<close>

definition on_sync_request :: "Node \<Rightarrow> ValidatorPublicKey \<Rightarrow> ConsensusProposalHash \<Rightarrow> unit cstep" where
  "on_sync_request N sender proposal_hash =
     reads (\<lambda>st. case bp_get (buffered st) proposal_hash of
       Some prepare \<Rightarrow> send_net_message N sender (SyncReply prepare)
     | None \<Rightarrow> ret ())"

definition on_sync_reply :: "Node \<Rightarrow> Prepare \<Rightarrow> unit cstep" where
  "on_sync_reply N prepare = on_prepare N prepare"

text \<open>The sender is the validator that signed the header.\<close>

fun handle_net_message :: "Node \<Rightarrow> ValidatorPublicKey \<Rightarrow> ConsensusNetMessage \<Rightarrow> unit cstep" where
  "handle_net_message N sender (Prepare consensus_proposal ticket view) = on_prepare N (sender, consensus_proposal, ticket, view)"
| "handle_net_message N sender (PrepareVote prepare_vote) = on_prepare_vote N prepare_vote"
| "handle_net_message N sender (Confirm qc proposal_hash_hint) = on_confirm N qc proposal_hash_hint"
| "handle_net_message N sender (ConfirmAck confirm_ack) = on_confirm_ack N confirm_ack"
| "handle_net_message N sender (Commit qc proposal_hash_hint) = on_commit N qc proposal_hash_hint"
| "handle_net_message N sender (TimeoutMessage (timeout, tk)) = on_timeout N timeout tk"
| "handle_net_message N sender (TimeoutCertificate qc tck slot view) = on_timeout_certificate N qc tck slot view"
| "handle_net_message N sender (CandidacyMessage candidacy) = on_validator_candidacy candidacy"
| "handle_net_message N sender (SyncRequest proposal_hash) = on_sync_request N sender proposal_hash"
| "handle_net_message N sender (SyncReply prepare) = on_sync_reply N prepare"

fun handle_command :: "Node \<Rightarrow> Cut option \<Rightarrow> ConsensusCommand \<Rightarrow> unit cstep" where
  "handle_command N new_cut TimeoutTick = on_timeout_tick N"
| "handle_command N new_cut (StartNewSlot may_delay) = start_round N (nd_now N) may_delay new_cut"

subsection \<open>The message loop\<close>

text \<open>
  What the loop of \<open>start\<close> listens to: blocks of the node state, commands, with the cut that the
  mempool returns should the command ask for one, network messages, and the ticks of the
  timer. Between events the clock moves, and the bus and the random choice of a validator may
  answer differently.
\<close>

datatype ConsensusEvent =
    NodeStateEvent Block
  | Command "Cut option" ConsensusCommand
  | NetMessage ValidatorPublicKey ConsensusNetMessage
  | Tick

record Moment =
  mo_now :: TimestampMs
  mo_bus_accepts :: "Output \<Rightarrow> bool"
  mo_choose :: "ValidatorPublicKey list \<Rightarrow> ValidatorPublicKey option"

definition at_moment :: "Node \<Rightarrow> Moment \<Rightarrow> Node" where
  "at_moment N m = N\<lparr>nd_now := mo_now m, nd_bus_accepts := mo_bus_accepts m, nd_choose := mo_choose m\<rparr>"

fun on_event :: "Node \<Rightarrow> ConsensusEvent \<Rightarrow> unit cstep" where
  "on_event N (NodeStateEvent block) = log_error (handle_node_state_event block)"
| "on_event N (Command new_cut cmd) = log_error (handle_command N new_cut cmd)"
| "on_event N (NetMessage sender msg) = log_error (handle_net_message N sender msg)"
| "on_event N Tick = bus_send N (SendCommand TimeoutTick)"

definition start :: "Node \<Rightarrow> (Moment \<times> ConsensusEvent) list \<Rightarrow> unit cstep" where
  "start N events = for_each (\<lambda>(m, event). on_event (at_moment N m) event) events"

end
