(* ===== verification/Consensus_Safety.thy ===== *)
theory Consensus_Safety
  imports Consensus
begin

text \<open>
  What the consensus module never does: quorum certificates intersect, commits carry
  an accepted certificate, and rounds only move forward. The relation \<open>advances\<close> between
  the states before and after a step collects the facts that every handler keeps; an
  interpretation of the locale \<open>transition\<close> on it carries them through the handlers, and one on
  \<open>reports\<close> through the message loop.
\<close>

subsection \<open>Quorum certificates\<close>

text \<open>The total bond is up to date: no stake was delegated to a validator after it bonded.\<close>

definition bond_current :: "Staking \<Rightarrow> bool" where
  "bond_current s \<longleftrightarrow> unat (st_total_bond s) = bonded_stake s"

lemma AggregateSignature_eta [simp]: "\<lparr>ag_signature = ag_signature a, ag_validators = ag_validators a\<rparr> = a"
  by (cases a) simp

lemma verify_quorum_certificate_Ok:
  "verify_quorum_certificate N st enc m qc = Ok () \<longleftrightarrow>
     verify_aggregate (nd_env N) (nd_crypto N) enc \<lparr>sg_msg = m, sg_signature = qc_signature qc\<rparr> = Ok True \<and>
     set (ag_validators (qc_signature qc)) \<subseteq> set (st_bonded (br_staking st)) \<and>
     2 * compute_f (br_staking st) + 1 \<le> compute_voting_power (br_staking st) (ag_validators (qc_signature qc))"
  by (auto simp: verify_quorum_certificate_def Let_def verify_quorum_signers_part_of_consensus_def list_all_iff
      list_ex_iff not_less split: sum.splits if_splits)

lemma unat_quorum: "unat (2 * compute_f s + 1) = 2 * (unat (st_total_bond s) div 3) + 1"
proof -
  have "unat (st_total_bond s) < 2 ^ 128"
    using unsigned_less [where ?'a = nat, of "st_total_bond s"] by simp
  then show ?thesis
    by (simp add: compute_f_def unat_word_ariths unat_div)
qed

lemma quorum_stake:
  assumes "staking_inv s" and "2 * compute_f s + 1 \<le> compute_voting_power s vs"
  shows "2 * (unat (st_total_bond s) div 3) + 1 \<le> (\<Sum>v \<in> set vs. nstake s v)"
  using assms unfolding word_le_nat_alt unat_quorum by (simp add: voting_power_unat)

lemma quorums_overlap:
  assumes "staking_inv s" and "bond_current s"
    and "set vs \<subseteq> set (st_bonded s)" "2 * compute_f s + 1 \<le> compute_voting_power s vs"
    and "set ws \<subseteq> set (st_bonded s)" "2 * compute_f s + 1 \<le> compute_voting_power s ws"
  shows "4 * (unat (st_total_bond s) div 3) + 2 \<le> unat (st_total_bond s) + (\<Sum>v \<in> set vs \<inter> set ws. nstake s v)"
proof -
  have "(\<Sum>v \<in> set vs. nstake s v) + (\<Sum>v \<in> set ws. nstake s v) =
      (\<Sum>v \<in> set vs \<union> set ws. nstake s v) + (\<Sum>v \<in> set vs \<inter> set ws. nstake s v)"
    by (rule sum.union_inter [symmetric]) simp_all
  moreover have "(\<Sum>v \<in> set vs \<union> set ws. nstake s v) \<le> unat (st_total_bond s)"
    using assms(2,3,5) unfolding bond_current_def bonded_stake_def by (auto intro!: sum_mono2)
  ultimately show ?thesis
    using quorum_stake [OF assms(1,4)] quorum_stake [OF assms(1,6)] by linarith
qed


subsection \<open>What every handler does to rounds, the bus and the registry\<close>

inductive round_step :: "Slot \<times> View \<Rightarrow> Slot \<times> View \<Rightarrow> bool" where
  committed: "round_step (s, v) (s + 1, 0)"
| timed_out: "round_step (s, v) (s, v + 1)"
| joined: "s < s' \<Longrightarrow> round_step (s, v) (s', 0)"

definition cround :: "Consensus \<Rightarrow> Slot \<times> View" where
  "cround st = (br_slot st, br_view st)"

text \<open>Someone is bonded, and every bonded validator is in the registry.\<close>

definition staking_live :: "Staking \<Rightarrow> bool" where
  "staking_live s \<longleftrightarrow> st_bonded s \<noteq> [] \<and> (\<forall>v \<in> set (st_bonded s). get_stake s v \<noteq> None)"

definition has_bonds :: "ConsensusProposal \<Rightarrow> bool" where
  "has_bonds cp \<longleftrightarrow> (\<exists>c. Bond c \<in> set (cp_staking_actions cp))"

text \<open>
  The certificate of a committed proposal is accepted under the staking state that comes
  with it. The one exception is a proposal without new validators that is committed on the strength
  of a timeout certificate of the next slot, with an empty certificate.
\<close>

definition certified :: "Node \<Rightarrow> CommittedConsensusProposal \<Rightarrow> bool" where
  "certified N c \<longleftrightarrow>
     cc_certificate c = AggregateSignature_default \<and> \<not> has_bonds (cc_consensus_proposal c) \<or>
     (\<exists>st. br_staking st = cc_staking c \<and>
        verify_quorum_certificate N st (enc_confirm_ack (nd_borsh N))
          (hashed N (cc_consensus_proposal c), ConfirmAckMarker) (QuorumCertificate (cc_certificate c) ConfirmAckMarker) = Ok ())"

fun output_ok :: "Node \<Rightarrow> Output \<Rightarrow> bool" where
  "output_ok N (CommitConsensusProposal c) = certified N c"
| "output_ok N _ = True"

definition advances :: "Node \<Rightarrow> Consensus \<Rightarrow> Consensus \<Rightarrow> bool" where
  "advances N st st' \<longleftrightarrow>
     round_step\<^sup>*\<^sup>* (cround st) (cround st') \<and>
     (\<exists>outs. cn_bus st' = cn_bus st @ outs \<and> list_all (output_ok N) outs) \<and>
     (staking_live (br_staking st) \<longrightarrow> staking_live (br_staking st'))"

interpretation adv: transition "advances N" for N
proof
  show "advances N s s" for s by (simp add: advances_def)
  show "advances N s u" if "advances N s t" "advances N t u" for s t u
    using that by (fastforce simp: advances_def intro: rtranclp_trans)
qed

text \<open>Updates of the other parts of the state.\<close>

lemma advances_same:
  "br_slot st' = br_slot st \<Longrightarrow> br_view st' = br_view st \<Longrightarrow> cn_bus st' = cn_bus st \<Longrightarrow> br_staking st' = br_staking st \<Longrightarrow>
     advances N st st'"
  by (simp add: advances_def cround_def)

lemma advances_push [simp]: "advances N st (push_prepare N' p st)"
  by (rule advances_same) (simp_all add: push_prepare_def)

lemma advances_schedule [simp]: "advances N st (schedule_next N' st)"
  by (rule advances_same) (simp_all add: schedule_next_def)

lemma advances_emitted [simp]: "advances N st (certificate_emitted st)"
  by (rule advances_same) (simp_all add: certificate_emitted_def)

lemma advances_pending [simp]: "advances N st (set_pending_ticket t st)"
  by (rule advances_same) (simp_all add: set_pending_ticket_def)

lemma advances_insert_timeout [simp]: "advances N st (insert_timeout t st)"
  by (rule advances_same) (simp_all add: insert_timeout_def)

lemma advances_record [simp]:
  "advances N st (br_leader_update f st)" "advances N st (br_follower_update g st)" "advances N st (br_timeout_update h st)"
  "advances N st (br_current_proposal_update k st)" "advances N st (br_state_tag_update l st)"
  "advances N st (cn_validator_candidates_update m st)"
  by (rule advances_same; simp)+

lemma bus_send_moves: "output_ok N out \<Longrightarrow> adv.moves N (bus_send N' out)"
  unfolding bus_send_def by (intro adv.moves_if adv.moves_modify adv.moves_bail) (auto simp: advances_def cround_def)

lemma broadcast_moves [simp, intro]: "adv.moves N (broadcast_net_message N' m)"
  unfolding broadcast_net_message_def by (intro adv.moves_bnd adv.moves_attempt bus_send_moves) simp

lemma send_moves [simp, intro]: "adv.moves N (send_net_message N' to m)"
  unfolding send_net_message_def by (intro adv.moves_bnd adv.moves_attempt bus_send_moves) simp

lemma send_candidacy_moves [simp, intro]: "adv.moves N (send_candidacy N')"
  unfolding send_candidacy_def by (intro adv.moves_bnd adv.moves_attempt broadcast_moves)

lemma command_moves [simp, intro]: "adv.moves N (bus_send N' (SendCommand c))"
  by (rule bus_send_moves) simp

subsection \<open>Ending a round\<close>

lemma get_stake_cong:
  "st_stakes s' = st_stakes s \<Longrightarrow> st_delegations s' = st_delegations s \<Longrightarrow> get_stake s' = get_stake s"
  by (simp add: get_stake_def fun_eq_iff)

lemma sort_nonempty: "xs \<noteq> [] \<Longrightarrow> sort xs \<noteq> []" for xs :: "'a::linorder list"
  by (metis set_empty set_sort)

lemma bond_live: "staking_live s \<Longrightarrow> staking_live (fst (bond s v))"
proof (cases "bond s v")
  case (Pair s' r)
  assume live: "staking_live s"
  show ?thesis
  proof (cases r)
    case (Inl e)
    with Pair live show ?thesis by (auto simp: bond_def split: if_splits option.splits)
  next
    case (Inr u)
    with Pair have ok: "bond s v = (s', Ok ())" by simp
    obtain x where x: "get_stake s v = Some x" "s' = s\<lparr>st_bonded := sort (st_bonded s @ [v]), st_total_bond := st_total_bond s + x\<rparr>"
      using ok by (rule bond_accepted)
    have "get_stake s' = get_stake s" unfolding x(2) by (rule get_stake_cong) simp_all
    moreover have "sort (st_bonded s @ [v]) \<noteq> []" by (rule sort_nonempty) simp
    ultimately show ?thesis using live x Pair by (simp add: staking_live_def)
  qed
qed

lemma fees_live: "staking_live (s\<lparr>st_fees := f\<rparr>) = staking_live s"
proof -
  have "get_stake (s\<lparr>st_fees := f\<rparr>) = get_stake s" by (rule get_stake_cong) simp_all
  then show ?thesis by (simp add: staking_live_def)
qed

lemma pay_for_dadi_live: "staking_live s \<Longrightarrow> staking_live (fst (pay_for_dadi s l c))"
  by (simp add: pay_for_dadi_def fees_live split: prod.split)

lemma distribute_live: "staking_live s \<Longrightarrow> staking_distribute s = Some (s', r) \<Longrightarrow> staking_live s'"
  by (auto simp: staking_distribute_def fees_live)

lemma advances_staking:
  "(staking_live (br_staking st) \<Longrightarrow> staking_live s) \<Longrightarrow> advances N st (st\<lparr>br_staking := s\<rparr>)"
  by (simp add: advances_def cround_def)

lemma set_staking_goes:
  "(staking_live (br_staking st) \<Longrightarrow> staking_live s) \<Longrightarrow>
     adv.goes N st (thn (modify (\<lambda>st. st\<lparr>br_staking := s\<rparr>)) (attempt r))"
  by (intro adv.goes_thn_modify advances_staking adv.goes_moves adv.moves_attempt)

lemma apply_staking_action_moves: "adv.moves N (apply_staking_action a)"
proof (cases a)
  case (Bond c)
  show ?thesis unfolding Bond apply_staking_action.simps
  proof (rule adv.moves_readsI)
    fix st
    show "adv.goes N st (case bond (br_staking st) (vs_validator (sg_signature c)) of (staking, r) \<Rightarrow>
        thn (modify (\<lambda>st. st\<lparr>br_staking := staking\<rparr>)) (attempt (map_err StakingFailed r)))"
      using bond_live [of "br_staking st" "vs_validator (sg_signature c)"]
      by (cases "bond (br_staking st) (vs_validator (sg_signature c))") (simp add: set_staking_goes)
  qed
next
  case (PayFeesForDaDi l c)
  show ?thesis unfolding PayFeesForDaDi apply_staking_action.simps
  proof (rule adv.moves_readsI)
    fix st
    show "adv.goes N st (case pay_for_dadi (br_staking st) l c of (staking, r) \<Rightarrow>
        thn (modify (\<lambda>st. st\<lparr>br_staking := staking\<rparr>)) (attempt (map_err StakingFailed r)))"
      using pay_for_dadi_live [of "br_staking st" l c]
      by (cases "pay_for_dadi (br_staking st) l c") (simp add: set_staking_goes)
  qed
qed

lemma distribute_fees_moves: "adv.moves N distribute_fees"
  unfolding distribute_fees_def
proof (rule adv.moves_readsI, rule adv.goes_bnd_unwrap)
  fix st :: Consensus and x
  assume "staking_distribute (br_staking st) = Some x"
  then show "adv.goes N st (case x of (staking, r) \<Rightarrow>
      thn (modify (\<lambda>st. st\<lparr>br_staking := staking\<rparr>)) (attempt (map_err StakingFailed r)))"
    using distribute_live [of "br_staking st" "fst x" "snd x"] by (cases x) (simp add: set_staking_goes)
qed

lemma commit_round_moves: "adv.moves N (commit_round N' qc)"
  unfolding commit_round_def
proof (intro adv.moves_thn adv.moves_reads adv.moves_for_each adv.moves_modify apply_staking_action_moves distribute_fees_moves)
  show "advances N st (st\<lparr>br_slot := br_slot st + 1, br_view := 0, br_parent_hash := hashed N' (br_current_proposal st),
      br_parent_timestamp := cp_timestamp (br_current_proposal st), br_parent_cut := cp_cut (br_current_proposal st),
      br_follower := (br_follower st)\<lparr>fw_buffered_quorum_certificate := qc\<rparr>\<rparr>)" for st
    by (auto simp: advances_def cround_def intro: round_step.committed)
qed simp

lemma assume_role_moves: "adv.moves N (assume_role N')"
  unfolding assume_role_def
  by (intro adv.moves_reads adv.moves_bnd adv.moves_if adv.moves_modify adv.moves_unwrap)
    (auto intro: adv.trans [OF advances_record(5) advances_schedule])

lemma apply_ticket_moves: "adv.moves N (apply_ticket N' t)"
proof -
  have "advances N st (st\<lparr>br_leader := l, br_timeout := tr\<rparr>)" for st l tr
    by (rule advances_same) simp_all
  moreover have "advances N st (st\<lparr>br_view := br_view st + 1, br_follower := fw\<rparr>)" for st fw
    by (auto simp: advances_def cround_def intro: round_step.timed_out)
  ultimately show ?thesis
    unfolding apply_ticket_def
    by (auto intro!: adv.moves_reads adv.moves_if adv.moves_thn adv.moves_modify commit_round_moves assume_role_moves
        split: Ticket.split)
qed

lemma advance_round_moves [simp, intro]: "adv.moves N (advance_round N' t)"
  unfolding advance_round_def
  by (intro adv.moves_thn adv.moves_reads adv.moves_if adv.moves_modify apply_ticket_moves command_moves send_candidacy_moves
      adv.moves_ret advances_pending)

subsection \<open>The handlers\<close>

lemma emit_goes:
  assumes "certified N \<lparr>cc_staking = br_staking st, cc_consensus_proposal = br_current_proposal st, cc_certificate = qc_signature qc\<rparr>"
  shows "adv.goes N st (emit_commit_event N qc)"
  unfolding emit_commit_event_def using assms by (intro adv.goes_reads adv.goes_moves bus_send_moves) simp

lemma QuorumCertificate_eta: "QuorumCertificate (qc_signature qc) ConfirmAckMarker = qc"
  by (cases qc; cases "qc_marker qc") auto

lemma commit_goes:
  assumes "adv.moves N k"
  shows "adv.goes N st (thn (attempt (verify_commit_quorum_certificate_against_current_proposal N st qc)) (thn (emit_commit_event N qc) k))"
proof (rule adv.goes_thn_attempt)
  assume "verify_commit_quorum_certificate_against_current_proposal N st qc = Ok ()"
  then have "certified N \<lparr>cc_staking = br_staking st, cc_consensus_proposal = br_current_proposal st, cc_certificate = qc_signature qc\<rparr>"
    by (auto simp: certified_def QuorumCertificate_eta verify_commit_quorum_certificate_against_current_proposal_def)
  then show "adv.goes N st (thn (emit_commit_event N qc) k)"
    by (intro adv.goes_thn emit_goes adv.goes_moves assms)
qed

lemma on_validator_candidacy_moves: "adv.moves N (on_validator_candidacy c)"
  unfolding on_validator_candidacy_def
  by (auto simp: Let_def intro!: adv.moves_reads adv.moves_modify split: option.split)

lemma new_proposal_moves: "adv.moves N (new_proposal ts c)"
  unfolding new_proposal_def
  by (intro adv.moves_reads adv.moves_modify) (rule advances_same, simp_all)

lemma propose_moves: "adv.moves N (propose N' t)"
  unfolding propose_def by (intro adv.moves_thn adv.moves_reads adv.moves_modify broadcast_moves) simp_all

lemma delayed_moves: "adv.moves N (modify (\<lambda>st. st\<lparr>cn_bus := cn_bus st @ [DelayedCommand d c]\<rparr>))"
  by (rule adv.moves_modify) (simp add: advances_def cround_def)

lemma start_round_moves: "adv.moves N (start_round N' ts delay c)"
  unfolding start_round_def Let_def
  by (intro adv.moves_reads adv.moves_if adv.moves_bail adv.moves_bnd adv.moves_unwrap)
    (auto split: option.split intro!: adv.moves_thn adv.moves_modify propose_moves new_proposal_moves delayed_moves)

lemma on_prepare_vote_moves: "adv.moves N (on_prepare_vote N' v)"
  unfolding on_prepare_vote_def Let_def
  by (intro adv.moves_reads adv.moves_if adv.moves_bail adv.moves_ret adv.moves_thn adv.moves_bnd adv.moves_unwrap
      adv.moves_attempt adv.moves_modify broadcast_moves) simp_all

lemma commit_reads_goes:
  fixes k :: "'b cstep"
  assumes "adv.moves N k"
  shows "adv.goes N st (thn (reads (\<lambda>st. attempt (verify_commit_quorum_certificate_against_current_proposal N st qc)))
    (thn (emit_commit_event N qc) k))"
proof -
  have "thn (reads (\<lambda>st. attempt (verify_commit_quorum_certificate_against_current_proposal N st qc))) m s =
      thn (attempt (verify_commit_quorum_certificate_against_current_proposal N s qc)) m s" for m :: "'b cstep" and s
    by (simp add: thn_def bnd_def reads_def)
  then show ?thesis
    using commit_goes [OF assms, of st qc] by (simp add: adv.goes_def wp_def)
qed

lemma on_confirm_ack_moves: "adv.moves N (on_confirm_ack N a)"
proof -
  have commit: "adv.moves N (thn (reads (\<lambda>st. attempt (verify_commit_quorum_certificate_against_current_proposal N st qc)))
      (thn (emit_commit_event N qc) (advance_round N t)))" for qc t
    by (intro adv.movesI commit_reads_goes advance_round_moves)
  show ?thesis
    unfolding on_confirm_ack_def Let_def
    by (intro commit adv.moves_reads adv.moves_if adv.moves_bail adv.moves_ret adv.moves_thn adv.moves_bnd adv.moves_unwrap
        adv.moves_attempt adv.moves_modify broadcast_moves) simp_all
qed

lemma verify_new_validators_moves: "adv.moves N (verify_new_validators_to_bond N' c)"
  unfolding verify_new_validators_to_bond_def Let_def
  by (auto intro!: adv.moves_reads adv.moves_bnd adv.moves_thn adv.moves_modify bus_send_moves split: option.split)

lemma verify_staking_action_moves: "adv.moves N (verify_staking_action N' c a)"
  by (cases a) (simp_all add: verify_new_validators_moves)

lemma verify_staking_actions_moves: "adv.moves N (verify_staking_actions N' p)"
  unfolding verify_staking_actions_def by (intro adv.moves_for_each verify_staking_action_moves)

lemma adopt_prepare_qc_moves: "adv.moves N (adopt_prepare_qc s qc cp)"
  unfolding adopt_prepare_qc_def
  by (rule adv.moves_modify, rule advances_same) (simp_all split: prod.split)

lemma verify_tc_moves: "adv.moves N (verify_tc N' qc k s v)"
  unfolding verify_tc_def Let_def
  by (auto intro!: adv.moves_reads adv.moves_thn adopt_prepare_qc_moves split: TCKind.split)

lemma on_timeout_certificate_moves: "adv.moves N (on_timeout_certificate N' qc k s v)"
  unfolding on_timeout_certificate_def
  by (intro adv.moves_reads adv.moves_if adv.moves_ret adv.moves_thn adv.moves_bnd adv.moves_unwrap adv.moves_modify
      verify_tc_moves advance_round_moves advances_record)

lemma join_mutiny_moves: "adv.moves N (join_mutiny N' p)"
  unfolding join_mutiny_def
  by (intro adv.moves_reads adv.moves_ret adv.moves_thn adv.moves_bnd adv.moves_unwrap adv.moves_modify adv.moves_attempt
      broadcast_moves advances_insert_timeout advances_schedule)

lemma create_timeout_certificate_moves: "adv.moves N (create_timeout_certificate N' s v)"
  unfolding create_timeout_certificate_def case_prod_unfold
  by (intro adv.moves_reads adv.moves_if adv.moves_ret adv.moves_thn adv.moves_bnd adv.moves_unwrap adv.moves_modify
      adv.moves_attempt broadcast_moves advance_round_moves advances_emitted advances_schedule advances_record)

lemma count_timeouts_moves: "adv.moves N (count_timeouts N' s v)"
  unfolding count_timeouts_def Let_def
  by (intro adv.moves_reads adv.moves_if adv.moves_ret adv.moves_bnd join_mutiny_moves create_timeout_certificate_moves)

lemma on_timeout_moves: "adv.moves N (on_timeout N' t k)"
  unfolding on_timeout_def
  by (auto intro!: adv.moves_reads adv.moves_thn adv.moves_modify adopt_prepare_qc_moves count_timeouts_moves
      split: prod.split TimeoutKind.split)

lemma on_timeout_tick_moves: "adv.moves N (on_timeout_tick N')"
  unfolding on_timeout_tick_def
  by (auto intro!: adv.moves_reads adv.moves_bnd adv.moves_thn adv.moves_modify on_timeout_moves split: TimeoutState.split)

lemma forced_commit_goes:
  assumes "\<not> current_proposal_changes_voting_power st" and "adv.moves N k"
  shows "adv.goes N st (thn (emit_commit_event N (QuorumCertificate AggregateSignature_default ConfirmAckMarker)) k)"
proof (intro adv.goes_thn emit_goes adv.goes_moves assms(2))
  have "\<not> has_bonds (br_current_proposal st)"
    using assms(1) by (auto simp: has_bonds_def current_proposal_changes_voting_power_def filter_empty_conv)
  then show "certified N \<lparr>cc_staking = br_staking st, cc_consensus_proposal = br_current_proposal st,
      cc_certificate = qc_signature (QuorumCertificate AggregateSignature_default ConfirmAckMarker)\<rparr>"
    by (simp add: certified_def)
qed

lemma tc_ticket_moves: "adv.moves N (verify_and_process_tc_ticket N qc k cp v)"
proof -
  let ?rest = "reads (\<lambda>st. if cp_slot cp \<noteq> br_slot st then bail TcWrongSlot
      else thn (verify_tc N qc k (br_slot st) (v - 1))
        (reads (\<lambda>st. thn (if v = br_view st + 1 then advance_round N (Ticket_TimeoutQC qc k) else ret ()) (ret True))))"
  have rest: "adv.moves N ?rest"
    by (intro adv.moves_reads adv.moves_if adv.moves_bail adv.moves_thn adv.moves_ret verify_tc_moves advance_round_moves)
  have force: "adv.goes N st (if b then
        if current_proposal_changes_voting_power st then bail TcChangesVotingPower
        else thn (emit_commit_event N (QuorumCertificate AggregateSignature_default ConfirmAckMarker)) (advance_round N Ticket_ForcedCommitQc)
      else ret ())" for st b
    by (auto intro: forced_commit_goes adv.goes_moves)
  show ?thesis
    unfolding verify_and_process_tc_ticket_def Let_def
    by (intro adv.moves_readsI adv.goes_if adv.goes_thn [OF force] adv.goes_moves [OF rest] adv.goes_moves [OF adv.moves_ret]
        adv.goes_moves [OF adv.moves_bail])
qed

lemma commit_ticket_moves: "adv.moves N (verify_and_process_commit_ticket N cp qc)"
proof -
  have "adv.moves N (thn (advance_round N (Ticket_CommitQC qc)) (ret True))" by (intro adv.moves_thn adv.moves_ret advance_round_moves)
  moreover have "adv.goes N st (thn (attempt r) (ret True))" for st and r :: "(unit, ConsensusError) Result"
    by (intro adv.goes_moves adv.moves_thn) auto
  ultimately show ?thesis
    unfolding verify_and_process_commit_ticket_def
    by (intro adv.moves_readsI) (auto intro: commit_goes adv.goes_moves [of N "ret True"] adv.goes_moves [of N "ret False"])
qed

lemma buffer_moves: "adv.moves N (buffer_prepare_message_and_fetch_missing_parent N' p)"
  unfolding buffer_prepare_message_and_fetch_missing_parent_def Let_def case_prod_unfold
  by (intro adv.moves_reads adv.moves_thn adv.moves_if adv.moves_ret adv.moves_modify adv.moves_bnd adv.moves_unwrap advances_push)
    (auto split: option.split)

lemma process_ticket_moves: "adv.moves N (process_ticket N cp t v)"
  unfolding process_ticket_def
  by (auto intro: commit_ticket_moves tc_ticket_moves split: Ticket.split)

lemma accept_prepare_moves: "adv.moves N (accept_prepare N' p)"
proof -
  have "advances N st (push_prepare N' p (st\<lparr>br_current_proposal := cp\<rparr>))" for st cp
    by (rule advances_same) (simp_all add: push_prepare_def)
  then show ?thesis
    unfolding accept_prepare_def Let_def case_prod_unfold
    by (intro adv.moves_reads adv.moves_if adv.moves_bail adv.moves_thn adv.moves_bnd adv.moves_unwrap adv.moves_attempt
        adv.moves_modify verify_staking_actions_moves)
      (auto split: option.split intro!: adv.moves_bnd adv.moves_thn)
qed

lemma on_prepare_once_moves: "adv.moves N (on_prepare_once N p)"
  unfolding on_prepare_once_def Let_def case_prod_unfold
  by (intro adv.moves_reads adv.moves_if adv.moves_ret adv.moves_thn adv.moves_bnd adv.moves_modify process_ticket_moves
      buffer_moves accept_prepare_moves advances_push advances_record)

lemma on_prepare_step:
  assumes IH: "\<And>N p st y. f N p st = Some y \<Longrightarrow> advances N st (fst y)"
    and body: "(case on_prepare_once N p st of
        None \<Rightarrow> None
      | Some (st', r) \<Rightarrow>
          (case r of Inl e \<Rightarrow> Some (st', Err e) | Inr None \<Rightarrow> Some (st', Ok ()) | Inr (Some p) \<Rightarrow> f N p st')) = Some y"
  shows "advances N st (fst y)"
proof -
  obtain st1 r where once: "on_prepare_once N p st = Some (st1, r)"
    using body by (auto split: option.splits)
  then have adv: "advances N st st1" by (rule adv.movesD [OF on_prepare_once_moves])
  show ?thesis
  proof (cases r)
    case (Inl e)
    with body once adv show ?thesis by auto
  next
    case (Inr np)
    show ?thesis
    proof (cases np)
      case None
      with body once adv Inr show ?thesis by auto
    next
      case (Some p')
      with body once Inr have "f N p' st1 = Some y" by simp
      from IH [OF this] adv show ?thesis by (rule adv.trans [rotated])
    qed
  qed
qed

lemma on_prepare_advances: "on_prepare N p st = Some y \<Longrightarrow> advances N st (fst y)"
  by (erule on_prepare.raw_induct [where P = "\<lambda>N p st y. advances N st (fst y)", rotated]) (rule on_prepare_step)

lemma on_prepare_moves: "adv.moves N (on_prepare N p)"
  unfolding adv.moves_def by (auto intro!: wpI dest: on_prepare_advances)

lemma on_confirm_moves: "adv.moves N (on_confirm N' qc h)"
  unfolding on_confirm_def
  by (intro adv.moves_reads adv.moves_if adv.moves_ret adv.moves_thn adv.moves_bnd adv.moves_unwrap adv.moves_attempt
      adv.moves_modify send_moves advances_record)

lemma advances_join:
  "br_slot st < s \<Longrightarrow> advances N st (st\<lparr>br_slot := s, br_view := 0, br_state_tag := t\<rparr>)"
  by (auto simp: advances_def cround_def intro: round_step.joined)

text \<open>The proposal a joining node commits to: its slot is ahead of the node's.\<close>

lemma join_commit_goes:
  assumes "br_slot st < cp_slot (br_current_proposal st)"
  shows "adv.goes N st (thn (reads (\<lambda>st. attempt (verify_commit_quorum_certificate_against_current_proposal N st qc)))
    (thn (modify (\<lambda>st. st\<lparr>br_slot := cp_slot (br_current_proposal st), br_view := 0, br_state_tag := Follower\<rparr>))
      (thn (emit_commit_event N qc) (advance_round N (Ticket_CommitQC qc)))))"
proof (rule adv.goes_thn)
  show "adv.goes N st (reads (\<lambda>st. attempt (verify_commit_quorum_certificate_against_current_proposal N st qc)))"
    by (intro adv.goes_moves adv.moves_reads adv.moves_attempt)
next
  fix st'
  assume "reads (\<lambda>st. attempt (verify_commit_quorum_certificate_against_current_proposal N st qc)) st = Some (st', Ok ())"
  then have st': "st' = st" and ok: "verify_commit_quorum_certificate_against_current_proposal N st qc = Ok ()"
    by (auto simp: reads_def attempt_def)
  let ?st1 = "st\<lparr>br_slot := cp_slot (br_current_proposal st), br_view := 0, br_state_tag := Follower\<rparr>"
  have "certified N \<lparr>cc_staking = br_staking ?st1, cc_consensus_proposal = br_current_proposal ?st1, cc_certificate = qc_signature qc\<rparr>"
    using ok by (auto simp: certified_def QuorumCertificate_eta verify_commit_quorum_certificate_against_current_proposal_def)
  then have "adv.goes N ?st1 (thn (emit_commit_event N qc) (advance_round N (Ticket_CommitQC qc)))"
    by (intro adv.goes_thn emit_goes adv.goes_moves advance_round_moves)
  with assms show "adv.goes N st' (thn (modify (\<lambda>st. st\<lparr>br_slot := cp_slot (br_current_proposal st), br_view := 0, br_state_tag := Follower\<rparr>))
      (thn (emit_commit_event N qc) (advance_round N (Ticket_CommitQC qc))))"
    unfolding st' by (intro adv.goes_thn_modify advances_join)
qed

lemma on_commit_while_joining_moves: "adv.moves N (on_commit_while_joining N qc h)"
  unfolding on_commit_while_joining_def
proof (rule adv.moves_readsI)
  fix st
  show "adv.goes N st (case bp_get (buffered st) h of None \<Rightarrow> ret ()
      | Some (_, potential_proposal, _, _) \<Rightarrow>
          if cp_slot potential_proposal \<le> br_slot st then ret ()
          else if js_staking_updated_to (br_joining st) + 1 < cp_slot potential_proposal then ret ()
          else thn (modify (\<lambda>st. st\<lparr>br_current_proposal := potential_proposal\<rparr>))
             (thn (reads (\<lambda>st. attempt (verify_commit_quorum_certificate_against_current_proposal N st qc)))
               (thn (modify (\<lambda>st. st\<lparr>br_slot := cp_slot (br_current_proposal st), br_view := 0, br_state_tag := Follower\<rparr>))
                 (thn (emit_commit_event N qc) (advance_round N (Ticket_CommitQC qc))))))"
    by (auto split: option.split intro!: adv.goes_thn_modify join_commit_goes adv.goes_moves [OF adv.moves_ret])
qed

lemma on_commit_moves: "adv.moves N (on_commit N qc h)"
proof -
  have "adv.goes N st (thn (attempt (verify_commit_quorum_certificate_against_current_proposal N st qc))
      (thn (emit_commit_event N qc) (advance_round N (Ticket_CommitQC qc))))" for st
    by (intro commit_goes advance_round_moves)
  then show ?thesis
    unfolding on_commit_def
    by (intro adv.moves_readsI)
      (auto split: StateTag.split intro: adv.goes_moves [OF adv.moves_ret] adv.goes_moves [OF on_commit_while_joining_moves])
qed

lemma on_sync_request_moves: "adv.moves N (on_sync_request N' s h)"
  unfolding on_sync_request_def by (auto intro!: adv.moves_reads split: option.split)

lemma handle_net_message_moves: "adv.moves N (handle_net_message N sender msg)"
  by (cases "(N, sender, msg)" rule: handle_net_message.cases)
    (simp_all add: on_prepare_moves on_prepare_vote_moves on_confirm_moves on_confirm_ack_moves on_commit_moves
      on_timeout_moves on_timeout_certificate_moves on_validator_candidacy_moves on_sync_request_moves on_sync_reply_def)

lemma handle_command_moves: "adv.moves N (handle_command N c cmd)"
  by (cases cmd) (simp_all add: on_timeout_tick_moves start_round_moves)

subsection \<open>Sequences of events\<close>

text \<open>Blocks of the node state do not send, and keep the registry live.\<close>

definition reports :: "Node \<Rightarrow> Consensus \<Rightarrow> Consensus \<Rightarrow> bool" where
  "reports N st st' \<longleftrightarrow>
     (\<exists>outs. cn_bus st' = cn_bus st @ outs \<and> list_all (output_ok N) outs) \<and>
     (staking_live (br_staking st) \<longrightarrow> staking_live (br_staking st'))"

interpretation rep: transition "reports N" for N
proof
  show "reports N s s" for s by (simp add: reports_def)
  show "reports N s u" if "reports N s t" "reports N t u" for s t u
    using that by (fastforce simp: reports_def)
qed

lemma adv_reports: "adv.moves N m \<Longrightarrow> rep.moves N m"
  unfolding adv.moves_def rep.moves_def by (auto simp: advances_def reports_def intro: wp_mono)

lemma stake_live: "staking_live s \<Longrightarrow> staking_live (fst (stake s i a))"
  by (simp add: staking_live_def stake_def get_stake_def split: prod.split)

lemma delegate_live: "staking_live s \<Longrightarrow> staking_live (fst (delegate_to s i v))"
  by (auto simp: staking_live_def delegate_to_def get_stake_def bt_push_def hm_simps split: option.split)

lemma deposit_live: "staking_live s \<Longrightarrow> staking_live (fst (deposit_for_fees s i v))"
  by (simp add: deposit_for_fees_def fees_live)

lemma process_staking_action_live:
  "staking_live s \<Longrightarrow> process_staking_action s i a = Some (s', r) \<Longrightarrow> staking_live s'"
  using stake_live [of s i] delegate_live [of s i] deposit_live [of s] by (cases a) (auto, (metis fst_conv)+)

lemma process_staking_actions_live:
  "staking_live s \<Longrightarrow> process_staking_actions s as = Some (s', r) \<Longrightarrow> staking_live s'"
proof (induction s as rule: process_staking_actions.induct)
  case (2 s i a rest)
  obtain s1 r1 where one: "process_staking_action s i a = Some (s1, r1)" using 2(3) by (auto split: option.splits)
  have "staking_live s1" by (rule process_staking_action_live [OF 2(2) one])
  with 2 one show ?case by (cases r1) auto
qed simp

lemma bond_all_live: "staking_live s \<Longrightarrow> staking_live (fst (bond_all s vs))"
proof (induction s vs rule: bond_all.induct)
  case (2 s v vs)
  then show ?case using bond_live [of s v] by (auto split: prod.split sum.split)
qed simp

lemma process_block_live: "staking_live s \<Longrightarrow> process_block s b = Some (s', r) \<Longrightarrow> staking_live s'"
  using bond_all_live process_staking_actions_live
  by (auto simp: process_block_def split: option.splits sum.splits) (metis fst_conv)

lemma handle_node_state_event_reports: "rep.moves N (handle_node_state_event b)"
  unfolding handle_node_state_event_def
proof (rule rep.moves_readsI, rule rep.goes_bnd_unwrap)
  fix st :: Consensus and x
  assume x: "process_block (br_staking st) b = Some x"
  show "rep.goes N st (case x of (staking, r) \<Rightarrow> thn (modify (\<lambda>st. st\<lparr>br_staking := staking\<rparr>))
      (thn (attempt (map_err StakingFailed r))
        (if br_state_tag st = Joining \<and> js_staking_updated_to (br_joining st) < bk_block_height b then
           modify (\<lambda>st. st\<lparr>br_joining := \<lparr>js_staking_updated_to = bk_block_height b\<rparr>, br_slot := bk_block_height b + 1,
             br_view := 0, br_parent_hash := bk_hash b,
             br_current_proposal := ConsensusProposal_default\<lparr>cp_slot := bk_block_height b\<rparr>,
             br_timeout := (br_timeout st)\<lparr>tr_requests := []\<rparr>\<rparr>)
         else ret ())))"
    unfolding case_prod_unfold
  proof (rule rep.goes_thn_modify)
    show "reports N st (st\<lparr>br_staking := fst x\<rparr>)"
      using x process_block_live [of "br_staking st" b "fst x" "snd x"] by (simp add: reports_def)
  qed (intro rep.goes_moves rep.moves_thn rep.moves_attempt rep.moves_if rep.moves_modify rep.moves_ret, simp add: reports_def)
qed

lemma log_error_reports: "rep.moves N m \<Longrightarrow> rep.moves N (log_error m)"
  by (auto simp: rep.moves_def wp_def log_error_def split: option.splits)

lemma certified_at [simp]: "certified (at_moment N m) = certified N"
  by (simp add: fun_eq_iff certified_def at_moment_def verify_quorum_certificate_def verify_quorum_signers_part_of_consensus_def)

lemma reports_at: "reports (at_moment N m) = reports N"
proof -
  have "output_ok (at_moment N m) out = output_ok N out" for out by (cases out) simp_all
  then have "output_ok (at_moment N m) = output_ok N" by (intro ext)
  then show ?thesis by (intro ext) (simp add: reports_def)
qed

lemma on_event_reports: "rep.moves N (on_event N e)"
  by (cases e) (simp_all add: log_error_reports handle_node_state_event_reports adv_reports [OF handle_command_moves]
      adv_reports [OF handle_net_message_moves] adv_reports [OF command_moves])

lemma start_reports: "rep.moves N (start N events)"
proof -
  have "rep.moves N (on_event (at_moment N m) e)" for m e
    using on_event_reports [of "at_moment N m" e] by (simp add: rep.moves_def reports_at)
  then show ?thesis unfolding start_def by (intro rep.moves_for_each) (simp split: prod.split)
qed

subsection \<open>Properties\<close>



subsection \<open>A small network\<close>

text \<open>A follower \<open>[2]\<close> in slot 1 that has the proposal of the only bonded validator \<open>[9]\<close>.\<close>

definition sample_borsh :: Borsh where
  "sample_borsh =
     \<lparr>enc_prepare_vote = (\<lambda>(h, _). Some (as_bytes h)), enc_confirm_ack = (\<lambda>(h, _). Some (as_bytes h)), enc_timeout = (\<lambda>_. Some []),
      enc_candidacy = (\<lambda>_. Some []), enc_poda = (\<lambda>(h, _). Some (as_bytes h)), enc_header = (\<lambda>_. Some []), enc_h_prepare = (\<lambda>_. Some []),
      enc_h_confirm = (\<lambda>_. Some []), enc_h_commit = (\<lambda>_. Some []), enc_h_signature = (\<lambda>_. Some []),
      enc_h_timeout_qc = (\<lambda>_. Some []), enc_h_nil_tc = (\<lambda>_. Some []), enc_h_tc = (\<lambda>_. Some []), enc_h_candidacy = (\<lambda>_. Some []),
      enc_h_hash = (\<lambda>_. Some []), enc_h_reply = (\<lambda>_. Some [])\<rparr>"

definition sample_node :: Node where
  "sample_node =
     \<lparr>nd_env = sample_env, nd_crypto = sample_crypto [2], nd_borsh = sample_borsh, nd_now = 1000, nd_slot_duration = 1000000000,
      nd_timeout_after = 5000000000, nd_timestamp_checks = Full, nd_public_address = ''a'', nd_bus_accepts = (\<lambda>_. True),
      nd_choose = (\<lambda>_. None)\<rparr>"

definition sample_bonds :: Staking where
  "sample_bonds = Staking_new\<lparr>st_stakes := [(''u'', 100)], st_bonded := [[9]], st_delegations := [([9], [''u''])], st_total_bond := 100\<rparr>"

definition sample_proposal :: ConsensusProposal where
  "sample_proposal = \<lparr>cp_slot = 1, cp_parent_hash = [], cp_cut = [], cp_staking_actions = [], cp_timestamp = 500\<rparr>"

definition sample_state :: Consensus where
  "sample_state =
     \<lparr>br_staking = sample_bonds, br_slot = 1, br_view = 0, br_parent_hash = [], br_parent_timestamp = 0, br_parent_cut = [],
      br_current_proposal = sample_proposal, br_leader = LeaderState_default,
      br_follower = \<lparr>fw_buffered_quorum_certificate = None, fw_buffered_prepares = \<lparr>bp_prepares = [], bp_children = []\<rparr>\<rparr>,
      br_timeout = \<lparr>tr_requests = [], tr_state = Inactive, tr_highest_seen_prepare_qc = None\<rparr>,
      br_joining = \<lparr>js_staking_updated_to = 0\<rparr>, br_genesis = \<lparr>gs_peer_pubkey = []\<rparr>, br_state_tag = Follower,
      cn_validator_candidates = [], cn_bus = []\<rparr>"

definition sample_qc :: CommitQC where
  "sample_qc = QuorumCertificate \<lparr>ag_signature = [], ag_validators = [[9]]\<rparr> ConfirmAckMarker"

definition sample_moment :: Moment where
  "sample_moment = \<lparr>mo_now = 2000, mo_bus_accepts = (\<lambda>_. True), mo_choose = (\<lambda>_. None)\<rparr>"

lemma sample_node_simps [simp]:
  "nd_env sample_node = sample_env" "nd_crypto sample_node = sample_crypto [2]" "nd_borsh sample_node = sample_borsh"
  "enc_prepare_vote sample_borsh (h, pm) = Some (as_bytes h)" "enc_confirm_ack sample_borsh (h, cm) = Some (as_bytes h)"
  "nd_env (at_moment N m) = nd_env N" "nd_crypto (at_moment N m) = nd_crypto N" "nd_borsh (at_moment N m) = nd_borsh N"
  "nd_bus_accepts (at_moment N m) = mo_bus_accepts m" "mo_bus_accepts sample_moment = (\<lambda>_. True)"
  "bc_aggregate_pks (sample_crypto k) [v] = Some v" "bc_validator_pubkey (sample_crypto k) = k"
  by (simp_all add: sample_node_def sample_borsh_def at_moment_def sample_moment_def sample_crypto_def)

lemma sample_bonds_simps [simp]:
  "st_bonded sample_bonds = [[9]]" "st_total_bond sample_bonds = 100" "compute_f sample_bonds = 33" "get_stake sample_bonds [9] = Some 100" "get_stake sample_bonds [2] = None"
  "compute_voting_power sample_bonds [[9]] = 100" "is_bonded sample_bonds v \<longleftrightarrow> v = [9]"
  by (auto simp: sample_bonds_def compute_f_def get_stake_def compute_voting_power_def is_bonded_def bal_def Staking_new_def)

lemma sample_distribute [simp]: "staking_distribute sample_bonds = Some (sample_bonds, Ok ())"
  by (simp add: staking_distribute_def fees_distribute_def sample_bonds_def Staking_new_def Fees_default_def)

lemma sample_round_leader: "br_staking st = sample_bonds \<Longrightarrow> round_leader st = Some [9]"
  by (simp add: round_leader_def)

lemma sample_qc_accepted:
  "br_staking st = sample_bonds \<Longrightarrow> verify_quorum_certificate (at_moment sample_node m) st (enc_confirm_ack sample_borsh)
     (h, ConfirmAckMarker) (QuorumCertificate \<lparr>ag_signature = s, ag_validators = [[9]]\<rparr> mk) = Ok ()"
  by (simp add: verify_quorum_certificate_def verify_aggregate_def aggregate_validators_pk_def
      verify_quorum_signers_part_of_consensus_def Let_def)

lemma sample_proposal_simps [simp]: "cp_slot sample_proposal = 1" "cp_staking_actions sample_proposal = []"
  by (simp_all add: sample_proposal_def)

lemma sample_state_simps [simp]:
  "br_staking sample_state = sample_bonds" "br_current_proposal sample_state = sample_proposal" "br_slot sample_state = 1"
  "br_state_tag sample_state = Follower" "cn_bus sample_state = []"
  by (simp_all add: sample_state_def)

definition sample_events :: "(Moment \<times> ConsensusEvent) list" where
  "sample_events = [(sample_moment, NetMessage [9] (Commit sample_qc (hashed sample_node sample_proposal)))]"

lemmas step_eval = reads_def thn_def bnd_def attempt_def ret_def modify_def unwrap_def bail_def log_error_def

lemma sample_commit:
  "\<exists>st' r. handle_net_message (at_moment sample_node sample_moment) [9] (Commit sample_qc (hashed sample_node sample_proposal)) sample_state =
     Some (st', r) \<and> cround st' = (2, 0) \<and>
     cn_bus st' = [CommitConsensusProposal \<lparr>cc_staking = sample_bonds, cc_consensus_proposal = sample_proposal,
       cc_certificate = qc_signature sample_qc\<rparr>]"
  by (simp add: step_eval on_commit_def assume_role_def sample_round_leader distribute_fees_def schedule_next_def cround_def
      is_part_of_consensus_def is_round_leader_def stake_or_zero_def MIN_STAKE_def sample_qc_def sample_qc_accepted
      verify_commit_quorum_certificate_against_current_proposal_def emit_commit_event_def bus_send_def
      advance_round_def apply_ticket_def commit_round_def)

lemma sample_inv: "staking_inv sample_bonds" "bond_current sample_bonds" "staking_live sample_bonds"
  by (simp_all add: staking_inv_def staking_wf_def sample_bonds_def Staking_new_def bond_current_def bonded_stake_def nstake_def
      staking_live_def get_stake_def bt_inv_def total_def delegators_def bal_def)




end
