(* ===== verification/Consensus_Votes.thy ===== *)
theory Consensus_Votes
  imports Consensus_Progress
begin

text \<open>
  Votes and certificates: what a node votes for, that the certificates of a leader are accepted, and two
  weaknesses of the protocol as it is coded, the missing distinction between the two kinds of
  certificate and the missing memory of votes.
\<close>

subsection \<open>The leader\<close>

lemma sum_list_map_filter:
  "sum_list (List.map_filter g xs) = (\<Sum>x\<leftarrow>xs. case g x of None \<Rightarrow> 0 | Some y \<Rightarrow> y)" for g :: "'a \<Rightarrow> 'b::monoid_add option"
  by (induction xs) (auto simp: List.map_filter_simps split: option.split)

lemma compute_voting_power_sum: "compute_voting_power s vs = (\<Sum>v \<in> set vs. stake_or_zero s v)"
proof -
  have "compute_voting_power s vs = (\<Sum>v\<leftarrow>remdups_adj (sort vs). stake_or_zero s v)"
    by (simp add: compute_voting_power_def sum_list_map_filter stake_or_zero_def)
  then show ?thesis
    by (simp add: sum_list_distinct_conv_sum_set remdups_adj_sorted_distinct)
qed

lemma quorum_word: "2 * f < x \<Longrightarrow> \<not> x < 2 * f + 1" for f x :: u128
  by (metis add.commute inc_le leD)

text \<open>The validators whose votes the leader counts.\<close>

definition voters :: "Consensus \<Rightarrow> PrepareVote \<Rightarrow> ValidatorPublicKey set" where
  "voters st vote = vs_validator ` sg_signature ` set (vote # ld_prepare_votes (br_leader st))"

definition confirms :: "Consensus \<Rightarrow> Consensus \<Rightarrow> PrepareQC \<Rightarrow> ConsensusProposalHash \<Rightarrow> bool" where
  "confirms st st' qc h \<longleftrightarrow>
     (\<exists>m. cn_bus st' = cn_bus st @ [Outbound (BroadcastMessage m)] \<and> mw_msg m = Confirm qc h)"

lemma own_and_votes:
  assumes "own_key N \<notin> set vs" and "is_bonded (br_staking st) (own_key N)" and "get_own_voting_power N st = Some own"
  shows "compute_voting_power (br_staking st) (vs @ [own_key N]) = compute_voting_power (br_staking st) vs + own"
  using assms by (simp add: compute_voting_power_sum get_own_voting_power_def is_part_of_consensus_def stake_or_zero_def add.commute)

lemma on_prepare_vote_confirms:
  assumes "on_prepare_vote N vote st = Some (st', Ok ())" and "ld_step (br_leader st) = PrepareVoteStep"
    and "ld_step (br_leader st') = ConfirmAckStep"
  defines "votes \<equiv> hs_insert vote (ld_prepare_votes (br_leader st))"
  obtains own c where "get_own_voting_power N st = Some own"
    and "2 * compute_f (br_staking st) <
      compute_voting_power (br_staking st) (map (\<lambda>v. vs_validator (sg_signature v)) votes) + own"
    and "sign_aggregate (nd_env N) (nd_crypto N) (enc_prepare_vote (nd_borsh N))
      (hashed N (br_current_proposal st), PrepareVoteMarker) votes = Ok c"
    and "confirms st st' (QuorumCertificate (sg_signature c) PrepareVoteMarker) (hashed N (br_current_proposal st))"
proof -
  obtain own where own: "br_state_tag st = Leader" "get_own_voting_power N st = Some own"
      "2 * compute_f (br_staking st) < compute_voting_power (br_staking st) (map (\<lambda>v. vs_validator (sg_signature v)) votes) + own"
    using assms(1-3) unfolding votes_def
    by (auto simp: on_prepare_vote_def step_eval Let_def split: if_splits option.splits)
  with assms(1-3) obtain c where c: "sign_aggregate (nd_env N) (nd_crypto N) (enc_prepare_vote (nd_borsh N))
      (hashed N (br_current_proposal st), PrepareVoteMarker) votes = Ok c"
    unfolding votes_def
    by (auto simp: on_prepare_vote_def step_eval Let_def ok_simps split: if_splits sum.splits)
  have "confirms st st' (QuorumCertificate (sg_signature c) PrepareVoteMarker) (hashed N (br_current_proposal st))"
    using assms(1,2) own c unfolding votes_def
    by (auto simp: on_prepare_vote_def step_eval Let_def confirms_def broadcast_net_message_def sign_net_message_def bus_send_def
        ok_simps split: if_splits sum.splits)
  then show ?thesis by (rule that [OF own(2,3) c])
qed


subsection \<open>Certificates of the two phases\<close>

lemma verify_aggregate_encoding:
  "enc m = enc' m' \<Longrightarrow> verify_aggregate E B enc \<lparr>sg_msg = m, sg_signature = s\<rparr> = verify_aggregate E B enc' \<lparr>sg_msg = m', sg_signature = s\<rparr>"
  by (simp add: verify_aggregate_def cong: if_cong option.case_cong)

text \<open>
  C22. A marker is an empty structure, whose \<open>borsh\<close> encoding has no bytes, so a vote and an
  acknowledgement for a hash are signed as the same bytes. A certificate of the first phase is
  then accepted as one of the second: a follower that gets it in a \<open>Commit\<close> message commits the
  proposal, although nobody has acknowledged it.
\<close>

theorem prepare_certificate_commits:
  assumes "enc_prepare_vote (nd_borsh N) (hashed N cp, PrepareVoteMarker) = enc_confirm_ack (nd_borsh N) (hashed N cp, ConfirmAckMarker)"
    and "verify_quorum_certificate N st (enc_prepare_vote (nd_borsh N)) (hashed N cp, PrepareVoteMarker) (QuorumCertificate s PrepareVoteMarker) = Ok ()"
    and "br_state_tag st = Follower" "br_current_proposal st = cp" "cp_slot cp = br_slot st" "staking_live (br_staking st)"
    and "nd_bus_accepts N (CommitConsensusProposal \<lparr>cc_staking = br_staking st, cc_consensus_proposal = cp, cc_certificate = s\<rparr>)"
  shows "\<exists>st' r. on_commit N (QuorumCertificate s ConfirmAckMarker) (hashed N cp) st = Some (st', r) \<and>
    CommitConsensusProposal \<lparr>cc_staking = br_staking st, cc_consensus_proposal = cp, cc_certificate = s\<rparr> \<in> set (cn_bus st')"
proof -
  let ?c = "CommitConsensusProposal \<lparr>cc_staking = br_staking st, cc_consensus_proposal = cp, cc_certificate = s\<rparr>"
  let ?qc = "QuorumCertificate s ConfirmAckMarker" and ?st1 = "st\<lparr>cn_bus := cn_bus st @ [?c]\<rparr>"
  have "verify_commit_quorum_certificate_against_current_proposal N st ?qc = Ok ()"
    using assms(2,4)
      verify_aggregate_encoding [of "enc_prepare_vote (nd_borsh N)" "(hashed N cp, PrepareVoteMarker)"
        "enc_confirm_ack (nd_borsh N)" "(hashed N cp, ConfirmAckMarker)", OF assms(1)]
    unfolding verify_commit_quorum_certificate_against_current_proposal_def verify_quorum_certificate_Ok by simp
  then have "on_commit N ?qc (hashed N cp) st = advance_round N (Ticket_CommitQC ?qc) ?st1"
    using assms(3-5,7) by (simp add: on_commit_def step_eval emit_commit_event_def bus_send_def)
  moreover obtain st' r where adv: "advance_round N (Ticket_CommitQC ?qc) ?st1 = Some (st', r)"
    using runsE [of "advance_round N (Ticket_CommitQC ?qc)" ?st1] advance_round_runs [of N "Ticket_CommitQC ?qc"] assms(6)
    by (auto simp: lruns_def)
  moreover have "advances N ?st1 st'" by (rule adv.movesD [OF advance_round_moves adv])
  ultimately show ?thesis by (auto simp: advances_def)
qed

subsection \<open>Equivocation\<close>

text \<open>The validators \<open>[2]\<close>, the leader of slot 1, and \<open>[9]\<close>, the node, with two proposals of the leader.\<close>

definition two_bonds :: Staking where
  "two_bonds = Staking_new\<lparr>st_stakes := [(''u'', 100), (''v'', 100)], st_bonded := [[2], [9]],
     st_delegations := [([2], [''u'']), ([9], [''v''])], st_total_bond := 200\<rparr>"

definition second_node :: Node where
  "second_node = sample_node\<lparr>nd_crypto := sample_crypto [9]\<rparr>"

definition second_state :: Consensus where
  "second_state = sample_state\<lparr>br_staking := two_bonds, br_current_proposal := ConsensusProposal_default\<rparr>"

definition rival_proposal :: ConsensusProposal where
  "rival_proposal = sample_proposal\<lparr>cp_timestamp := 501\<rparr>"

definition both_signed :: AggregateSignature where
  "both_signed = \<lparr>ag_signature = [], ag_validators = [[2], [9]]\<rparr>"

definition equivocation :: "(Moment \<times> ConsensusEvent) list" where
  "equivocation = map (\<lambda>m. (sample_moment, NetMessage [2] m))
     [Prepare sample_proposal Ticket_Genesis 0, Confirm (QuorumCertificate both_signed PrepareVoteMarker) (hashed second_node sample_proposal),
      Prepare rival_proposal Ticket_Genesis 0, Confirm (QuorumCertificate both_signed PrepareVoteMarker) (hashed second_node rival_proposal)]"

fun acknowledged :: "Output list \<Rightarrow> ConsensusProposalHash list" where
  "acknowledged [] = []"
| "acknowledged (Outbound (SendMessage to m) # outs) =
     (case mw_msg m of ConfirmAck a \<Rightarrow> fst (sg_msg a) # acknowledged outs | _ \<Rightarrow> acknowledged outs)"
| "acknowledged (_ # outs) = acknowledged outs"

lemma rival_hashes:
  "hashed second_node sample_proposal \<noteq> hashed second_node rival_proposal"
  "hashed second_node sample_proposal \<noteq> []" "hashed second_node rival_proposal \<noteq> []"
  by (simp_all add: ConsensusProposal_hashed_def second_node_def sample_env_def rival_proposal_def sample_proposal_def to_le_bytes_def
     upt_rec)

lemma two_bonds_simps [simp]:
  "st_bonded two_bonds = [[2], [9]]" "compute_f two_bonds = 66" "get_stake two_bonds [9] = Some 100" "get_stake two_bonds [2] = Some 100"
  "is_bonded two_bonds v \<longleftrightarrow> v = [2] \<or> v = [9]" "st_total_bond two_bonds = 200"
  by (auto simp: two_bonds_def compute_f_def get_stake_def is_bonded_def bal_def)

lemma two_bonds_power [simp]: "compute_voting_power two_bonds [[2], [9]] = 200"
  by (simp add: compute_voting_power_sum stake_or_zero_def)

lemma second_leader: "br_staking st = two_bonds \<Longrightarrow> br_slot st = 1 \<Longrightarrow> br_view st = 0 \<Longrightarrow> round_leader st = Some [2]"
  by (simp add: round_leader_def)

lemma second_node_simps [simp]:
  "nd_env second_node = sample_env" "nd_crypto second_node = sample_crypto [9]" "nd_borsh second_node = sample_borsh"
  "bc_aggregate_pks (sample_crypto k) (v # vs) = Some v" "bc_aggregate_sigs (sample_crypto k) (s # ss) = Some s"
  by (simp_all add: second_node_def) (simp_all add: sample_crypto_def)

lemma second_confirm:
  "br_staking st = two_bonds \<Longrightarrow> verify_quorum_certificate (at_moment second_node m) st (enc_prepare_vote sample_borsh)
     (h, PrepareVoteMarker) (QuorumCertificate both_signed PrepareVoteMarker) = Ok ()"
  by (simp add: verify_quorum_certificate_def verify_aggregate_def aggregate_validators_pk_def both_signed_def
      verify_quorum_signers_part_of_consensus_def Let_def)

text \<open>What the node does with a proposal of the leader and with its certificate.\<close>

definition voting :: "Consensus \<Rightarrow> bool" where
  "voting st \<longleftrightarrow> br_staking st = two_bonds \<and> br_slot st = 1 \<and> br_view st = 0 \<and> br_parent_timestamp st = 0 \<and>
     br_parent_cut st = [] \<and> br_state_tag st = Follower \<and> (\<forall>h. h \<noteq> [] \<longrightarrow> map_of (bp_children (buffered st)) h = None)"

lemma second_encodings [simp]:
  "enc_header sample_borsh h = Some []" "bc_sign_bytes (sample_crypto k) d = d" "mo_now sample_moment = 2000"
  by (simp_all add: sample_borsh_def sample_crypto_def sample_moment_def)

lemma prepare_voted:
  assumes "voting st" "cp_slot cp = 1" "cp_cut cp = []" "cp_staking_actions cp = []" "cp_parent_hash cp = []" "hashed second_node cp \<noteq> []"
  shows "\<exists>st' v. on_prepare (at_moment second_node sample_moment) ([2], cp, Ticket_Genesis, 0) st = Some (st', Ok ()) \<and>
    voting st' \<and> br_current_proposal st' = cp \<and> cn_bus st' = cn_bus st @ [Outbound (SendMessage [2] v)] \<and>
    mw_msg v = PrepareVote \<lparr>sg_msg = (hashed second_node cp, PrepareVoteMarker),
      sg_signature = \<lparr>vs_signature = as_bytes (hashed second_node cp), vs_validator = [9]\<rparr>\<rparr>"
proof -
  have "next_prepare (bp_push (at_moment second_node sample_moment) ([2], cp, Ticket_Genesis, 0) (buffered st)) (hashed second_node cp) = None"
    using assms by (simp add: next_prepare_def push_children voting_def)
  moreover have "voting (push_prepare (at_moment second_node sample_moment) ([2], cp, Ticket_Genesis, 0) (st\<lparr>br_current_proposal := cp\<rparr>))"
    using assms by (simp add: voting_def push_children) (simp add: push_prepare_def)
  ultimately show ?thesis
    using assms
    by (simp add: on_prepare.simps on_prepare_once_def step_eval process_ticket_def accept_prepare_def voting_def
        second_leader verify_poda_def verify_staking_actions_def verify_timestamp_def is_part_of_consensus_def sign_def
        send_net_message_def sign_net_message_def bus_send_def)
      (simp add: push_prepare_def)
qed

lemma confirm_acked:
  assumes "voting st" "br_current_proposal st = cp"
  shows "\<exists>st' v. on_confirm (at_moment second_node sample_moment) (QuorumCertificate both_signed PrepareVoteMarker)
      (hashed second_node cp) st = Some (st', Ok ()) \<and>
    voting st' \<and> cn_bus st' = cn_bus st @ [Outbound (SendMessage [2] v)] \<and>
    mw_msg v = ConfirmAck \<lparr>sg_msg = (hashed second_node cp, ConfirmAckMarker),
      sg_signature = \<lparr>vs_signature = as_bytes (hashed second_node cp), vs_validator = [9]\<rparr>\<rparr>"
  using assms
  by (simp add: on_confirm_def step_eval voting_def second_leader second_confirm is_part_of_consensus_def sign_def
      send_net_message_def sign_net_message_def bus_send_def)

lemma run_message:
  assumes "handle_net_message (at_moment N m) sender msg st = Some (st1, r)"
  shows "start N ((m, NetMessage sender msg) # events) st = start N events st1"
  using assms by (simp add: start_def step_eval)

lemma acknowledged_append: "acknowledged (xs @ ys) = acknowledged xs @ acknowledged ys"
  by (induction xs rule: acknowledged.induct) (auto split: ConsensusNetMessage.split)


theorem prepare_certificate_commits_witness:
  "\<exists>st' r. on_commit (at_moment sample_node sample_moment) (QuorumCertificate (qc_signature sample_qc) ConfirmAckMarker)
     (hashed sample_node sample_proposal) sample_state = Some (st', r) \<and>
     CommitConsensusProposal \<lparr>cc_staking = sample_bonds, cc_consensus_proposal = sample_proposal,
       cc_certificate = qc_signature sample_qc\<rparr> \<in> set (cn_bus st')"
proof -
  have "verify_quorum_certificate (at_moment sample_node sample_moment) sample_state (enc_prepare_vote sample_borsh)
      (h, PrepareVoteMarker) (QuorumCertificate (qc_signature sample_qc) PrepareVoteMarker) = Ok ()" for h
    by (simp add: sample_qc_def verify_quorum_certificate_def verify_aggregate_def aggregate_validators_pk_def
        verify_quorum_signers_part_of_consensus_def Let_def)
  then show ?thesis
    using prepare_certificate_commits [of "at_moment sample_node sample_moment" sample_proposal sample_state "qc_signature sample_qc"]
    by (simp add: sample_inv)
qed

definition leading_state :: Consensus where
  "leading_state = sample_state\<lparr>br_staking := two_bonds, br_state_tag := Leader,
     br_leader := LeaderState_default\<lparr>ld_step := PrepareVoteStep\<rparr>\<rparr>"

definition sample_vote :: PrepareVote where
  "sample_vote = \<lparr>sg_msg = (hashed sample_node sample_proposal, PrepareVoteMarker), sg_signature = \<lparr>vs_signature = [], vs_validator = [9]\<rparr>\<rparr>"

lemma leading_run:
  "\<exists>st'. on_prepare_vote (at_moment sample_node sample_moment) sample_vote leading_state = Some (st', Ok ()) \<and>
     ld_step (br_leader st') = ConfirmAckStep"
  by (simp add: on_prepare_vote_def leading_state_def step_eval sample_vote_def LeaderState_default_def hs_insert_def Let_def
      get_own_voting_power_def is_part_of_consensus_def compute_voting_power_sum stake_or_zero_def sign_aggregate_def sign_def
      aggregate_def verify_aggregate_def aggregate_validators_pk_def broadcast_net_message_def sign_net_message_def bus_send_def)


subsection \<open>Votes are justified\<close>

text \<open>What a node has checked of a proposal, in the state in which it votes for it.\<close>

definition justified :: "Node \<Rightarrow> Prepare \<Rightarrow> Consensus \<Rightarrow> bool" where
  "justified N prepare st \<longleftrightarrow>
     (case prepare of (sender, cp, ticket, view) \<Rightarrow>
        cp_slot cp = br_slot st \<and> view = br_view st \<and> round_leader st = Some sender \<and> br_current_proposal st = cp \<and>
        verify_poda N st cp = Ok () \<and> verify_timestamp N st cp = Some (Ok ()) \<and> is_part_of_consensus st (own_key N))"

text \<open>Verifying the staking actions changes the candidates only.\<close>

definition same_round :: "Consensus \<Rightarrow> Consensus \<Rightarrow> bool" where
  "same_round st st' \<longleftrightarrow> br_slot st' = br_slot st \<and> br_view st' = br_view st \<and> br_staking st' = br_staking st \<and>
     br_parent_cut st' = br_parent_cut st \<and> br_parent_timestamp st' = br_parent_timestamp st"

interpretation sr: transition same_round
  by unfold_locales (auto simp: same_round_def)

lemma verify_staking_actions_sr: "sr.moves (verify_staking_actions N cp)"
proof -
  have "sr.moves (verify_new_validators_to_bond N c)" for c
    unfolding verify_new_validators_to_bond_def bus_send_def Let_def
    by (auto intro!: sr.moves_reads sr.moves_bnd sr.moves_thn sr.moves_modify simp: same_round_def split: option.split)
  then have "sr.moves (verify_staking_action N c a)" for c a by (cases a) (simp_all add: sr.moves_attempt)
  then show ?thesis unfolding verify_staking_actions_def by (intro sr.moves_for_each)
qed

lemma same_round_poda: "same_round st st' \<Longrightarrow> verify_poda N st' cp = verify_poda N st cp"
proof -
  assume r: "same_round st st'"
  then have "verify_poda_entry N st' e = verify_poda_entry N st e" for e
    by (simp add: verify_poda_entry_def same_round_def Let_def)
  then have "verify_poda_entries N st' c = verify_poda_entries N st c" for c by (induction c) simp_all
  with r show ?thesis by (simp add: verify_poda_def same_round_def)
qed

lemma same_round_leader: "same_round st st' \<Longrightarrow> round_leader st' = round_leader st"
  by (simp add: round_leader_def same_round_def Let_def)

lemma same_round_timestamp: "same_round st st' \<Longrightarrow> verify_timestamp N st' cp = verify_timestamp N st cp"
proof -
  assume r: "same_round st st'"
  then have "max_round_duration N st' = max_round_duration N st" unfolding max_round_duration_def same_round_def by metis
  with r show ?thesis unfolding verify_timestamp_def same_round_def Let_def by metis
qed

text \<open>A step sends one justified vote at most.\<close>

definition votes_ok :: "Node \<Rightarrow> Prepare \<Rightarrow> (ValidatorPublicKey \<times> PrepareVote) list \<Rightarrow> Consensus \<Rightarrow> bool" where
  "votes_ok N prepare before st' \<longleftrightarrow>
     votes_sent st' = before \<or>
     (\<exists>vote. votes_sent st' = before @ [(fst prepare, vote)] \<and> justified N prepare st' \<and>
        fst (sg_msg vote) = hashed N (fst (snd prepare)) \<and> vs_validator (sg_signature vote) = own_key N)"

definition vt :: "Node \<Rightarrow> Prepare \<Rightarrow> (ValidatorPublicKey \<times> PrepareVote) list \<Rightarrow> Prepare option cstep \<Rightarrow> bool" where
  "vt N p before m \<longleftrightarrow> (\<forall>st. votes_sent st = before \<longrightarrow> wp m (\<lambda>st' r. votes_ok N p before st') st)"

lemma votes_ok_same: "votes_sent st = before \<Longrightarrow> votes_ok N p before st"
  by (simp add: votes_ok_def)

lemma vt_bf: "bf.moves m \<Longrightarrow> vt N p before m"
  unfolding vt_def by (intro allI impI, erule wp_bf) (simp add: votes_ok_def)

lemma vt_reads: "(\<And>st. vt N p before (f st)) \<Longrightarrow> vt N p before (reads f)"
  by (simp add: vt_def wp_simps)

lemma vt_bnd: "bf.moves m \<Longrightarrow> (\<And>x. vt N p before (f x)) \<Longrightarrow> vt N p before (bnd m f)"
  unfolding vt_def wp_bnd by (intro allI impI, erule wp_bf) (simp add: votes_ok_same split: sum.split)

lemma vt_if: "vt N p before m \<Longrightarrow> vt N p before m' \<Longrightarrow> vt N p before (if b then m else m')"
  by simp

lemma vt_thn: "bf.moves m \<Longrightarrow> vt N p before k \<Longrightarrow> vt N p before (thn m k)"
  unfolding thn_def by (rule vt_bnd)

lemma vote_ok:
  assumes "votes_sent st = before" and "justified N (sender, cp, t, v) st"
  shows "wp (bnd (attempt (map_err CryptoFailed (sign (nd_crypto N) (enc_prepare_vote (nd_borsh N)) (hashed N cp, PrepareVoteMarker))))
      (\<lambda>vote. thn (send_net_message N sender (PrepareVote vote)) (ret None))) (\<lambda>st' r. votes_ok N (sender, cp, t, v) before st') st"
proof (cases "sign (nd_crypto N) (enc_prepare_vote (nd_borsh N)) (hashed N cp, PrepareVoteMarker)")
  case (Inl e)
  with assms show ?thesis by (simp add: wp_simps votes_ok_same)
next
  case (Inr vote)
  then have vote: "fst (sg_msg vote) = hashed N cp" "vs_validator (sg_signature vote) = own_key N"
    by (auto simp: sign_def split: option.splits)
  have j: "justified N (sender, cp, t, v) (st\<lparr>cn_bus := b\<rparr>)" for b
    using assms(2) same_round_poda [of st "st\<lparr>cn_bus := b\<rparr>"] same_round_leader [of st "st\<lparr>cn_bus := b\<rparr>"]
      same_round_timestamp [of st "st\<lparr>cn_bus := b\<rparr>"]
    by (simp add: justified_def same_round_def is_part_of_consensus_def)
  have "wp (send_net_message N sender (PrepareVote vote)) (\<lambda>st' r. votes_ok N (sender, cp, t, v) before st') st"
    using assms(1) vote j by (intro wp_mono [OF send_wp]) (auto simp: votes_ok_def)
  then show ?thesis unfolding Inr by (simp add: wp_simps)
qed

text \<open>The rest of \<open>accept_prepare\<close> once the proposal is known to be the leader's.\<close>

definition voting_step :: "Node \<Rightarrow> ValidatorPublicKey \<Rightarrow> ConsensusProposal \<Rightarrow> Ticket \<Rightarrow> View \<Rightarrow> Prepare option cstep" where
  "voting_step N sender cp t v = reads (\<lambda>st. bnd (unwrap (verify_timestamp N st cp)) (\<lambda>timestamp_ok.
      thn (attempt timestamp_ok)
       (thn (modify (\<lambda>st. push_prepare N (sender, cp, t, v) (st\<lparr>br_current_proposal := cp\<rparr>)))
         (reads (\<lambda>st. case next_prepare (buffered st) (hashed N cp) of
             Some p \<Rightarrow> ret (Some p)
           | None \<Rightarrow>
               if is_part_of_consensus st (own_key N) then
                 bnd (attempt (map_err CryptoFailed (sign (nd_crypto N) (enc_prepare_vote (nd_borsh N)) (hashed N cp, PrepareVoteMarker))))
                   (\<lambda>vote. thn (send_net_message N sender (PrepareVote vote)) (ret None))
               else ret None)))))"

lemma voted_ok:
  assumes "votes_sent st = before" and "cp_slot cp = br_slot st" "v = br_view st" "round_leader st = Some sender"
    and "verify_poda N st cp = Ok ()"
  shows "wp (voting_step N sender cp t v) (\<lambda>st' r. votes_ok N (sender, cp, t, v) before st') st"
proof -
  let ?st1 = "push_prepare N (sender, cp, t, v) (st\<lparr>br_current_proposal := cp\<rparr>)"
  note voting_step_def [simp]
  have sr: "same_round st ?st1" by (simp add: same_round_def push_prepare_def)
  have bus: "votes_sent ?st1 = before" using assms(1) by (simp add: push_prepare_def)
  show ?thesis
  proof (cases "verify_timestamp N st cp")
    case None
    then show ?thesis by (simp add: wp_simps)
  next
    case (Some ts)
    show ?thesis
    proof (cases ts)
      case (Inl e)
      with Some assms(1) show ?thesis by (simp add: wp_simps votes_ok_same)
    next
      case (Inr u)
      have "br_current_proposal ?st1 = cp" by (simp add: push_prepare_def)
      then have "justified N (sender, cp, t, v) ?st1" if "is_part_of_consensus ?st1 (own_key N)"
        using that assms(2-5) Some Inr same_round_poda [OF sr] same_round_leader [OF sr] same_round_timestamp [OF sr] sr
        by (simp add: justified_def same_round_def)
      then show ?thesis
        using Some Inr bus vote_ok [OF bus, of N sender cp t v]
        by (auto simp: wp_reads wp_thn wp_modify wp_bnd [of "unwrap v" for v] wp_unwrap wp_attempt votes_ok_same wp_ret
            split: option.split)
    qed
  qed
qed

lemma accept_vt: "vt N p before (accept_prepare N p)"
proof -
  obtain sender cp t v where p: "p = (sender, cp, t, v)" by (cases p)
  show ?thesis
    unfolding vt_def p
  proof (intro allI impI)
    fix st :: Consensus
    assume b: "votes_sent st = before"
    have staking: "wp (verify_staking_actions N cp) (\<lambda>st' r. votes_sent st' = before \<and> same_round st st') st"
    proof (rule wp_conj)
      show "wp (verify_staking_actions N cp) (\<lambda>st' r. votes_sent st' = before) st"
        by (rule wp_bf [OF verify_staking_actions_bf]) (simp add: b)
      show "wp (verify_staking_actions N cp) (\<lambda>st' r. same_round st st') st"
        using verify_staking_actions_sr [of N cp] by (simp add: sr.moves_def)
    qed
    show "wp (accept_prepare N (sender, cp, t, v)) (\<lambda>st' r. votes_ok N (sender, cp, t, v) before st') st"
    proof (cases "cp_slot cp = br_slot st \<and> v = br_view st \<and> round_leader st = Some sender \<and> verify_poda N st cp = Ok ()")
      case True
      let ?Q = "\<lambda>st' r. votes_ok N (sender, cp, t, v) before st'"
      have "wp (verify_staking_actions N cp) (\<lambda>st' r. case r of Inl e \<Rightarrow> ?Q st' (Err e) | Inr x \<Rightarrow> wp (voting_step N sender cp t v) ?Q st') st"
      proof (rule wp_mono [OF staking], elim conjE)
        fix st' and r :: "(unit, ConsensusError) Result"
        assume v: "votes_sent st' = before" and sr: "same_round st st'"
        have "wp (voting_step N sender cp t v) ?Q st'"
          using True v sr same_round_poda [OF sr] same_round_leader [OF sr] by (intro voted_ok) (simp_all add: same_round_def)
        then show "case r of Inl e \<Rightarrow> ?Q st' (Err e) | Inr x \<Rightarrow> wp (voting_step N sender cp t v) ?Q st'"
          using v by (simp add: votes_ok_same split: sum.split)
      qed
      then have "wp (thn (verify_staking_actions N cp) (voting_step N sender cp t v)) ?Q st" by (simp add: wp_thn)
      moreover have "accept_prepare N (sender, cp, t, v) st = thn (verify_staking_actions N cp) (voting_step N sender cp t v) st"
        using True unfolding voting_step_def accept_prepare_def Let_def prod.case
        by (simp add: reads_def [of _ st] thn_def bnd_def [of "attempt r" for r] bnd_def [of "unwrap u" for u] attempt_def unwrap_def)
      ultimately show ?thesis by (simp add: wp_def)
    next
      case False
      then show ?thesis
        using b unfolding accept_prepare_def
        by (auto simp: wp_simps votes_ok_same split: option.split sum.split)
    qed
  qed
qed

lemma push_vt: "bf.moves k \<Longrightarrow> vt N p before (thn (thn (if b then ret () else modify (push_prepare N p)) k) (ret None))"
  unfolding vt_def wp_thn
  by (cases b) (auto simp: wp_simps push_prepare_def votes_ok_same split: sum.split intro!: wp_bf)

lemma buffer_vt: "vt N p before (thn (buffer_prepare_message_and_fetch_missing_parent N p) (ret None))"
proof -
  have "bf.moves (reads (\<lambda>st. bnd (unwrap (a st)) (\<lambda>missing. case missing of None \<Rightarrow> ret ()
      | Some h \<Rightarrow> (case c st of Some n \<Rightarrow> send_net_message N n (SyncRequest h) | None \<Rightarrow> broadcast_net_message N (SyncRequest h)))))" for a c
    by (auto intro!: bf_intros send_bf broadcast_bf split: option.split)
  note vote = push_vt [OF this, where N = N and p = p and before = before]
  have "thn (reads f) k = reads (\<lambda>st. thn (f st) k)" for f :: "Consensus \<Rightarrow> unit cstep" and k :: "Prepare option cstep"
    by (simp add: fun_eq_iff thn_def bnd_def reads_def)
  then show ?thesis
    unfolding buffer_prepare_message_and_fetch_missing_parent_def Let_def case_prod_unfold
    by (auto intro!: vt_reads vote)
qed

lemma on_prepare_once_vt: "vt N p before (on_prepare_once N p)"
proof -
  have push: "vt N p before (thn (modify (push_prepare N p)) (ret None))"
    using push_vt [of "ret ()" N p before False] by (simp add: vt_def wp_simps)
  show ?thesis
    unfolding on_prepare_once_def Let_def case_prod_unfold prod.collapse
    by (intro push vt_reads vt_if buffer_vt accept_vt vt_bnd vt_thn vt_bf [OF bf.moves_ret] process_ticket_bf bf_intros) simp_all
qed

text \<open>
  C10. Handling a proposal makes a node send one vote at most. The vote goes to the sender, names the
  hash of the proposal and is signed with the own key. In the state in which the node votes, the sender leads the
  current slot and view, the proposal is for this slot and view and is the current one, its cut is
  backed by certificates of availability, its timestamp is in the accepted range, and the node is bonded.
\<close>

theorem votes_justified:
  assumes "on_prepare_once N (sender, cp, ticket, view) st = Some (st', r)"
  shows "votes_sent st' = votes_sent st \<or>
    (\<exists>vote. votes_sent st' = votes_sent st @ [(sender, vote)] \<and> justified N (sender, cp, ticket, view) st' \<and>
       fst (sg_msg vote) = hashed N cp \<and> vs_validator (sg_signature vote) = own_key N)"
  using wpD [OF on_prepare_once_vt [unfolded vt_def, rule_format, OF refl] assms] by (simp add: votes_ok_def)

theorem votes_justified_witness:
  "\<exists>st' r vote. on_prepare_once (at_moment second_node sample_moment) ([2], sample_proposal, Ticket_Genesis, 0) second_state = Some (st', r) \<and>
     votes_sent st' = [([2], vote)] \<and> fst (sg_msg vote) = hashed second_node sample_proposal"
proof -
  let ?n = "at_moment second_node sample_moment" and ?p = "([2], sample_proposal, Ticket_Genesis, 0)"
  have v0: "voting second_state" by (simp add: voting_def second_state_def sample_state_def)
  have 0: "cn_bus second_state = []" by (simp add: second_state_def)
  have "next_prepare (bp_push ?n ?p (buffered second_state)) (hashed second_node sample_proposal) = None"
    using rival_hashes by (simp add: next_prepare_def push_children second_state_def sample_state_def sample_proposal_def)
  moreover have "voting (push_prepare ?n ?p (second_state\<lparr>br_current_proposal := sample_proposal\<rparr>))"
    using v0 by (simp add: voting_def push_children sample_proposal_def) (simp add: push_prepare_def)
  moreover have "cp_cut sample_proposal = []" by (simp add: sample_proposal_def)
  ultimately have "\<exists>st' r. on_prepare_once ?n ?p second_state = Some (st', r) \<and> votes_sent st' \<noteq> []"
    using v0 0
    by (simp add: on_prepare_once_def step_eval process_ticket_def accept_prepare_def voting_def
        second_leader verify_poda_def verify_staking_actions_def verify_timestamp_def is_part_of_consensus_def sign_def
        send_net_message_def sign_net_message_def bus_send_def)
  then obtain st' r where run: "on_prepare_once ?n ?p second_state = Some (st', r)" "votes_sent st' \<noteq> []" by blast
  from votes_justified [OF run(1)] run(2) 0 show ?thesis using run(1) by auto
qed

end
