(* ===== verification/Mempool_Storage.thy ===== *)
theory Mempool_Storage
  imports Consensus_Types
begin

text \<open>
  The lanes of data proposals: the trait \<open>Storage\<close> (\<open>src/mempool/storage.rs\<close>), with its two
  implementations, in memory (\<open>storage_memory.rs\<close>) and on the database the node runs on
  (\<open>storage_fjall.rs\<close>). The required methods of the trait are the fields of a record of
  operations on a state \<open>'s\<close>, and the provided methods are functions over such a record. The
  locale \<open>lane_storage\<close> has what the provided methods rely on; both implementations interpret it.
  A stream is a cursor with the function that gives its next item.
\<close>

subsection \<open>Entries of a lane\<close>

type_synonym ValidatorDAG = "(DataProposalHash \<times> LaneBytesSize) SignedByValidator"
type_synonym Car = "LaneId \<times> DataProposalHash \<times> LaneBytesSize \<times> AggregateSignature"

record LaneEntryMetadata =
  le_parent_data_proposal_hash :: "DataProposalHash option"
  le_cumul_size :: LaneBytesSize
  le_signatures :: "ValidatorDAG list"

type_synonym LaneEntry = "LaneEntryMetadata \<times> DataProposal"

datatype CanBePutOnTop = Yes | No | AlreadyOnTop | Fork

datatype EntryOrMissingHash =
    Entry LaneEntryMetadata DataProposal
  | MissingHash DataProposalHash

datatype MetadataOrMissingHash =
    Metadata LaneEntryMetadata DataProposalHash
  | MissingMetadata DataProposalHash

datatype StorageError =
    LaneNotFound LaneId
  | EntryNotFound DataProposalHash
  | DataNotFound DataProposalHash
  | StorageIo
  | AlreadyInLane DataProposalHash
  | ParentUnknown DataProposalHash
  | CreatesFork DataProposalHash
  | SigningFailed CryptoError

type_synonym LanesTip = "(LaneId, DataProposalHash \<times> LaneBytesSize) btreemap"

record 's Storage =
  sto_contains :: "'s \<Rightarrow> LaneId \<Rightarrow> DataProposalHash \<Rightarrow> bool"
  sto_get_metadata_by_hash :: "'s \<Rightarrow> LaneId \<Rightarrow> DataProposalHash \<Rightarrow> (LaneEntryMetadata option, StorageError) Result"
  sto_get_dp_by_hash :: "'s \<Rightarrow> LaneId \<Rightarrow> DataProposalHash \<Rightarrow> (DataProposal option, StorageError) Result"
  sto_pop :: "LaneId \<Rightarrow> 's \<Rightarrow> 's \<times> ((DataProposalHash \<times> LaneEntry) option, StorageError) Result"
  sto_put_no_verification :: "LaneId \<Rightarrow> LaneEntry \<Rightarrow> 's \<Rightarrow> 's \<times> (unit, StorageError) Result"
  sto_add_signatures ::
    "LaneId \<Rightarrow> DataProposalHash \<Rightarrow> ValidatorDAG list \<Rightarrow> 's \<Rightarrow> 's \<times> (ValidatorDAG list, StorageError) Result"
  sto_lanes_tip :: "'s \<Rightarrow> LanesTip"
  sto_update_lane_tip :: "LaneId \<Rightarrow> DataProposalHash \<Rightarrow> LaneBytesSize \<Rightarrow> 's \<Rightarrow> 's"

text \<open>The three readers of \<open>lanes_tip\<close>.\<close>

definition get_lane_ids :: "'s Storage \<Rightarrow> 's \<Rightarrow> LaneId list" where
  "get_lane_ids S s = map fst (sto_lanes_tip S s)"

definition get_lane_hash_tip :: "'s Storage \<Rightarrow> 's \<Rightarrow> LaneId \<Rightarrow> DataProposalHash option" where
  "get_lane_hash_tip S s lane_id = map_option fst (map_of (sto_lanes_tip S s) lane_id)"

definition get_lane_size_tip :: "'s Storage \<Rightarrow> 's \<Rightarrow> LaneId \<Rightarrow> LaneBytesSize option" where
  "get_lane_size_tip S s lane_id = map_option snd (map_of (sto_lanes_tip S s) lane_id)"

subsection \<open>Sizes\<close>

text \<open>
  The sizes of encoded transactions are parameters; an encoding that fails counts as empty.
\<close>

record Sizes =
  sz_blob_tx :: "BlobTransaction \<Rightarrow> nat"
  sz_proof_tx :: "ProofTransaction \<Rightarrow> nat"

definition Transaction_estimate_size :: "Sizes \<Rightarrow> Transaction \<Rightarrow> nat" where
  "Transaction_estimate_size Z tx =
     (case tx_transaction_data tx of
        TD_Blob t \<Rightarrow> sz_blob_tx Z t
      | TD_Proof t \<Rightarrow> sz_proof_tx Z t
      | TD_VerifiedProof t \<Rightarrow> vp_proof_size t)"

definition DataProposal_estimate_size :: "Sizes \<Rightarrow> DataProposal \<Rightarrow> nat" where
  "DataProposal_estimate_size Z dp = sum_list (map (Transaction_estimate_size Z) (dp_txs dp))"

definition LaneBytesSize_add :: "LaneBytesSize \<Rightarrow> nat \<Rightarrow> LaneBytesSize" where
  "LaneBytesSize_add a n = a + of_nat n"

subsection \<open>Votes of an entry\<close>

text \<open>
  The derived order of signatures compares the signature first and then the validator.
  \<open>binary_search_by\<close> finds an equal element or the place of a new one in a sorted vector.
\<close>

definition signature_less :: "ValidatorSignature \<Rightarrow> ValidatorSignature \<Rightarrow> bool" where
  "signature_less a b \<longleftrightarrow>
     vs_signature a < vs_signature b \<or> vs_signature a = vs_signature b \<and> vs_validator a < vs_validator b"

fun insert_vote :: "ValidatorDAG \<Rightarrow> ValidatorDAG list \<Rightarrow> ValidatorDAG list" where
  "insert_vote msg [] = [msg]"
| "insert_vote msg (s # signatures) =
     (if signature_less (sg_signature s) (sg_signature msg) then s # insert_vote msg signatures
      else if sg_signature s = sg_signature msg then s # signatures
      else msg # s # signatures)"

fun add_votes :: "DataProposalHash \<Rightarrow> ValidatorDAG list \<Rightarrow> LaneEntryMetadata \<Rightarrow> LaneEntryMetadata" where
  "add_votes dp_hash [] le = le"
| "add_votes dp_hash (msg # vote_msgs) le =
     (let (dph, cumul_size) = sg_msg msg in
      if le_cumul_size le \<noteq> cumul_size \<or> dp_hash \<noteq> dph then add_votes dp_hash vote_msgs le
      else add_votes dp_hash vote_msgs (le\<lparr>le_signatures := insert_vote msg (le_signatures le)\<rparr>))"

subsection \<open>Provided methods\<close>

definition bonded_votes :: "Staking \<Rightarrow> LaneEntryMetadata \<Rightarrow> ValidatorDAG list" where
  "bonded_votes st le = filter (\<lambda>s. vs_validator (sg_signature s) \<in> set (st_bonded st)) (le_signatures le)"

text \<open>From the tip back to the first proposal with enough signatures; a cyclic lane is walked forever.\<close>

partial_function (option) latest_car_from ::
    "Env \<Rightarrow> BlstCrypto \<Rightarrow> Borsh \<Rightarrow> 's Storage \<Rightarrow> 's \<Rightarrow> LaneId \<Rightarrow> Staking \<Rightarrow> Car option \<Rightarrow> DataProposalHash \<Rightarrow>
     ((DataProposalHash \<times> LaneBytesSize \<times> AggregateSignature) option, StorageError) Result option" where
  "latest_car_from E B X S s lane_id staking previous_committed_car dp_hash =
     (case sto_get_metadata_by_hash S s lane_id dp_hash of
        Inl e \<Rightarrow> Some (Err e)
      | Inr None \<Rightarrow> Some (Ok None)
      | Inr (Some le) \<Rightarrow>
          if (case previous_committed_car of Some (_, hash, _, _) \<Rightarrow> dp_hash = hash | None \<Rightarrow> False) then
            Some (Ok (map_option (\<lambda>(_, hash, _, poda). (hash, le_cumul_size le, poda)) previous_committed_car))
          else if compute_voting_power staking (map (\<lambda>s. vs_validator (sg_signature s)) (bonded_votes staking le))
                    < compute_f staking + 1 then
            (case le_parent_data_proposal_hash le of
               Some parent_dp_hash \<Rightarrow> latest_car_from E B X S s lane_id staking previous_committed_car parent_dp_hash
             | None \<Rightarrow> Some (Ok None))
          else
            (case aggregate E B (enc_poda X) (dp_hash, le_cumul_size le) (bonded_votes staking le) of
               Inl e \<Rightarrow> Some (Ok None)
             | Inr poda \<Rightarrow> Some (Ok (Some (dp_hash, le_cumul_size le, sg_signature poda)))))"

definition get_latest_car ::
    "Env \<Rightarrow> BlstCrypto \<Rightarrow> Borsh \<Rightarrow> 's Storage \<Rightarrow> 's \<Rightarrow> LaneId \<Rightarrow> Staking \<Rightarrow> Car option \<Rightarrow>
     ((DataProposalHash \<times> LaneBytesSize \<times> AggregateSignature) option, StorageError) Result option" where
  "get_latest_car E B X S s lane_id staking previous_committed_car =
     (case get_lane_hash_tip S s lane_id of
        None \<Rightarrow> Some (Ok None)
      | Some tip \<Rightarrow> latest_car_from E B X S s lane_id staking previous_committed_car tip)"

definition can_be_put_on_top ::
    "'s Storage \<Rightarrow> 's \<Rightarrow> LaneId \<Rightarrow> DataProposalHash \<Rightarrow> DataProposalHash option \<Rightarrow> CanBePutOnTop" where
  "can_be_put_on_top S s lane_id data_proposal_hash parent_data_proposal_hash =
     (if parent_data_proposal_hash = get_lane_hash_tip S s lane_id then Yes
      else if Some data_proposal_hash = get_lane_hash_tip S s lane_id then AlreadyOnTop
      else case parent_data_proposal_hash of
             Some dp_parent_hash \<Rightarrow> if \<not> sto_contains S s lane_id dp_parent_hash then No else Fork
           | None \<Rightarrow> Fork)"

text \<open>The new entry is signed by the node itself before it is put in the lane.\<close>

definition put_signed ::
    "Env \<Rightarrow> BlstCrypto \<Rightarrow> Borsh \<Rightarrow> 's Storage \<Rightarrow> LaneId \<Rightarrow> DataProposal \<Rightarrow> LaneBytesSize \<Rightarrow> 's \<Rightarrow> 's \<times> (unit, StorageError) Result" where
  "put_signed E B X S lane_id data_proposal cumul_size s =
     (case sign B (enc_poda X) (DataProposal_hashed E data_proposal, cumul_size) of
        Inl e \<Rightarrow> (s, Err (SigningFailed e))
      | Inr self_signed \<Rightarrow>
          sto_put_no_verification S lane_id
            (\<lparr>le_parent_data_proposal_hash = dp_parent_data_proposal_hash data_proposal,
              le_cumul_size = cumul_size,
              le_signatures = [self_signed]\<rparr>, data_proposal) s)"

definition store_data_proposal ::
    "Env \<Rightarrow> BlstCrypto \<Rightarrow> Borsh \<Rightarrow> Sizes \<Rightarrow> 's Storage \<Rightarrow> LaneId \<Rightarrow> DataProposal \<Rightarrow> 's \<Rightarrow>
     's \<times> (DataProposalHash \<times> LaneBytesSize, StorageError) Result" where
  "store_data_proposal E B X Z S lane_id data_proposal s =
     (let data_proposal_hash = DataProposal_hashed E data_proposal;
          lane_size = (case get_lane_size_tip S s lane_id of None \<Rightarrow> 0 | Some sz \<Rightarrow> sz)
      in
      if sto_contains S s lane_id data_proposal_hash then (s, Err (AlreadyInLane data_proposal_hash))
      else case can_be_put_on_top S s lane_id data_proposal_hash (dp_parent_data_proposal_hash data_proposal) of
        No \<Rightarrow> (s, Err (ParentUnknown data_proposal_hash))
      | Fork \<Rightarrow> (s, Err (CreatesFork data_proposal_hash))
      | Yes \<Rightarrow>
          (let cumul_size = LaneBytesSize_add lane_size (DataProposal_estimate_size Z data_proposal) in
           case put_signed E B X S lane_id data_proposal cumul_size s of
             (s', Inl e) \<Rightarrow> (s', Err e)
           | (s', Inr _) \<Rightarrow> (sto_update_lane_tip S lane_id data_proposal_hash cumul_size s', Ok (data_proposal_hash, cumul_size)))
      | AlreadyOnTop \<Rightarrow>
          (case put_signed E B X S lane_id data_proposal lane_size s of
             (s', Inl e) \<Rightarrow> (s', Err e)
           | (s', Inr _) \<Rightarrow> (s', Ok (data_proposal_hash, lane_size))))"

text \<open>
  \<open>get_entries_metadata_between_hashes\<close>: the cursor is the next hash to read, \<open>None\<close> at the end of
  the stream. An error ends the stream after it has been yielded.
\<close>

type_synonym cursor = "DataProposalHash option"

definition metadata_stream :: "'s Storage \<Rightarrow> 's \<Rightarrow> LaneId \<Rightarrow> DataProposalHash option \<Rightarrow> cursor" where
  "metadata_stream S s lane_id to_data_proposal_hash =
     (case to_data_proposal_hash of Some h \<Rightarrow> Some h | None \<Rightarrow> get_lane_hash_tip S s lane_id)"

definition metadata_next ::
    "'s Storage \<Rightarrow> 's \<Rightarrow> LaneId \<Rightarrow> DataProposalHash option \<Rightarrow> cursor \<Rightarrow>
     ((MetadataOrMissingHash, StorageError) Result \<times> cursor) option" where
  "metadata_next S s lane_id from_data_proposal_hash cur =
     (case cur of
        None \<Rightarrow> None
      | Some some_dp_hash \<Rightarrow>
          if Some some_dp_hash = from_data_proposal_hash then None
          else case sto_get_metadata_by_hash S s lane_id some_dp_hash of
                 Inl e \<Rightarrow> Some (Err e, None)
               | Inr (Some lane_entry) \<Rightarrow> Some (Ok (Metadata lane_entry some_dp_hash), le_parent_data_proposal_hash lane_entry)
               | Inr None \<Rightarrow> Some (Ok (MissingMetadata some_dp_hash), None))"

text \<open>\<open>get_entries_between_hashes\<close> adds the data to the items of the metadata stream.\<close>

definition entries_next ::
    "'s Storage \<Rightarrow> 's \<Rightarrow> LaneId \<Rightarrow> DataProposalHash option \<Rightarrow> cursor \<Rightarrow>
     ((EntryOrMissingHash, StorageError) Result \<times> cursor) option" where
  "entries_next S s lane_id from_data_proposal_hash cur =
     (case metadata_next S s lane_id from_data_proposal_hash cur of
        None \<Rightarrow> None
      | Some (Inl e, cur') \<Rightarrow> Some (Err e, None)
      | Some (Inr (Metadata metadata dp_hash), cur') \<Rightarrow>
          (case sto_get_dp_by_hash S s lane_id dp_hash of
             Inl e \<Rightarrow> Some (Err e, None)
           | Inr (Some data_proposal) \<Rightarrow> Some (Ok (Entry metadata data_proposal), cur')
           | Inr None \<Rightarrow> Some (Ok (MissingHash dp_hash), None))
      | Some (Inr (MissingMetadata dp_hash), cur') \<Rightarrow> Some (Ok (MissingHash dp_hash), None))"

definition get_lane_size_at :: "'s Storage \<Rightarrow> 's \<Rightarrow> LaneId \<Rightarrow> DataProposalHash \<Rightarrow> (LaneBytesSize, StorageError) Result" where
  "get_lane_size_at S s lane_id dp_hash =
     and_then (sto_get_metadata_by_hash S s lane_id dp_hash) (\<lambda>m.
       Ok (case m of None \<Rightarrow> 0 | Some entry \<Rightarrow> le_cumul_size entry))"

definition last_committed_dp_hash :: "LaneId \<Rightarrow> Cut option \<Rightarrow> DataProposalHash option" where
  "last_committed_dp_hash lane_id last_cut =
     (case last_cut of
        Some the_cut \<Rightarrow> map_option (\<lambda>(_, dp, _, _). dp) (List.find (\<lambda>(v, _, _, _). v = lane_id) the_cut)
      | None \<Rightarrow> None)"

definition pending_next ::
    "'s Storage \<Rightarrow> 's \<Rightarrow> LaneId \<Rightarrow> Cut option \<Rightarrow> cursor \<Rightarrow> ((MetadataOrMissingHash, StorageError) Result \<times> cursor) option" where
  "pending_next S s lane_id last_cut = metadata_next S s lane_id (last_committed_dp_hash lane_id last_cut)"

definition get_pending_entries_in_lane :: "'s Storage \<Rightarrow> 's \<Rightarrow> LaneId \<Rightarrow> cursor" where
  "get_pending_entries_in_lane S s lane_id = metadata_stream S s lane_id (get_lane_hash_tip S s lane_id)"

partial_function (option) oldest_pending_from ::
    "'s Storage \<Rightarrow> 's \<Rightarrow> LaneId \<Rightarrow> Cut option \<Rightarrow> cursor \<Rightarrow> (LaneEntryMetadata \<times> DataProposalHash) option \<Rightarrow>
     ((LaneEntryMetadata \<times> DataProposalHash) option, StorageError) Result option" where
  "oldest_pending_from S s lane_id last_cut cur last_entry =
     (case pending_next S s lane_id last_cut cur of
        None \<Rightarrow> Some (Ok last_entry)
      | Some (Inl e, cur') \<Rightarrow> Some (Err e)
      | Some (Inr (Metadata metadata dp_hash), cur') \<Rightarrow>
          oldest_pending_from S s lane_id last_cut cur' (Some (metadata, dp_hash))
      | Some (Inr (MissingMetadata _), cur') \<Rightarrow> Some (Ok None))"

definition get_oldest_pending_entry ::
    "'s Storage \<Rightarrow> 's \<Rightarrow> LaneId \<Rightarrow> Cut option \<Rightarrow> ((LaneEntryMetadata \<times> DataProposalHash) option, StorageError) Result option" where
  "get_oldest_pending_entry S s lane_id last_cut =
     oldest_pending_from S s lane_id last_cut (get_pending_entries_in_lane S s lane_id) None"

partial_function (option) pop_until ::
    "'s Storage \<Rightarrow> LaneId \<Rightarrow> DataProposalHash option \<Rightarrow> 's \<Rightarrow> ('s \<times> (unit, StorageError) Result) option" where
  "pop_until S lane_id previous_committed_dp_hash s =
     (case sto_pop S lane_id s of
        (s', Inl e) \<Rightarrow> Some (s', Err e)
      | (s', Inr None) \<Rightarrow> Some (s', Ok ())
      | (s', Inr (Some (dp_hash, le))) \<Rightarrow>
          if Some dp_hash = previous_committed_dp_hash then Some (sto_put_no_verification S lane_id le s')
          else pop_until S lane_id previous_committed_dp_hash s')"

definition clean_and_update_lane ::
    "'s Storage \<Rightarrow> LaneId \<Rightarrow> DataProposalHash option \<Rightarrow> DataProposalHash \<Rightarrow> LaneBytesSize \<Rightarrow> ('s, StorageError, unit) step" where
  "clean_and_update_lane S lane_id previous_committed_dp_hash new_committed_dp_hash new_committed_size =
     reads (\<lambda>s. let tip_lane = get_lane_hash_tip S s lane_id in
       thn (if tip_lane \<noteq> previous_committed_dp_hash \<and> tip_lane \<noteq> Some new_committed_dp_hash
            then pop_until S lane_id previous_committed_dp_hash else ret ())
         (modify (sto_update_lane_tip S lane_id new_committed_dp_hash new_committed_size)))"

subsection \<open>The contract of a storage\<close>

text \<open>
  Entries are kept under keys: \<open>meta\<close> and \<open>data\<close> give the two parts of an entry, and \<open>readable\<close> the
  keys that can be read. Storing is the only way to get an entry, votes change its signatures
  only, \<open>pop\<close> takes the entry at the tip away and leaves the hash of the tip, and the tips change
  nothing else.
\<close>

definition keyed :: "Env \<Rightarrow> (LaneId \<Rightarrow> DataProposalHash \<Rightarrow> 'k) \<Rightarrow> ('k \<rightharpoonup> DataProposal) \<Rightarrow> bool" where
  "keyed E key d \<longleftrightarrow> (\<forall>k dp. d k = Some dp \<longrightarrow> (\<exists>l. k = key l (DataProposal_hashed E dp)))"

lemma keyed_put: "keyed E key d \<Longrightarrow> keyed E key (d(key l (DataProposal_hashed E dp) \<mapsto> dp))"
  by (auto simp: keyed_def)

lemma keyed_remove: "keyed E key d \<Longrightarrow> keyed E key (d(k := None))"
  by (auto simp: keyed_def)

text \<open>The vote for \<open>h\<close> and \<open>sz\<close> speaks of an entry of the lane with that cumulated size.\<close>

definition entry_backed :: "'s Storage \<Rightarrow> 's \<Rightarrow> LaneId \<Rightarrow> DataProposalHash \<Rightarrow> LaneBytesSize \<Rightarrow> bool" where
  "entry_backed S s l h sz \<longleftrightarrow> (\<exists>md. sto_get_metadata_by_hash S s l h = Ok (Some md) \<and> le_cumul_size md = sz)"

lemma add_votes_frame [simp]:
  "le_cumul_size (add_votes h vs md) = le_cumul_size md"
  "le_parent_data_proposal_hash (add_votes h vs md) = le_parent_data_proposal_hash md"
  by (induction h vs md rule: add_votes.induct) (auto simp: Let_def split: prod.split)

locale lane_storage =
  fixes S :: "'s Storage" and E :: Env
    and key :: "LaneId \<Rightarrow> DataProposalHash \<Rightarrow> 'k"
    and meta :: "'s \<Rightarrow> 'k \<Rightarrow> LaneEntryMetadata option"
    and data :: "'s \<Rightarrow> 'k \<Rightarrow> DataProposal option"
    and readable :: "'s \<Rightarrow> 'k \<Rightarrow> bool"
  assumes contains_iff: "sto_contains S s l h \<longleftrightarrow> readable s (key l h) \<and> meta s (key l h) \<noteq> None"
    and get_metadata: "sto_get_metadata_by_hash S s l h = Ok m \<Longrightarrow> readable s (key l h) \<and> meta s (key l h) = m"
    and get_metadata_readable:
      "readable s (key l h) \<Longrightarrow> meta s (key l h) = Some md \<Longrightarrow> sto_get_metadata_by_hash S s l h = Ok (Some md)"
    and get_dp: "sto_get_dp_by_hash S s l h = Ok d \<Longrightarrow> data s (key l h) = d"
    and put_meta:
      "sto_put_no_verification S l (md, dp) s = (s', r) \<Longrightarrow>
         meta s' = meta s \<or>
         readable s (key l (DataProposal_hashed E dp)) \<and> meta s' = (meta s)(key l (DataProposal_hashed E dp) \<mapsto> md)"
    and put_data:
      "sto_put_no_verification S l (md, dp) s = (s', r) \<Longrightarrow>
         data s' = data s \<or> data s' = (data s)(key l (DataProposal_hashed E dp) \<mapsto> dp)"
    and put_Ok:
      "sto_put_no_verification S l (md, dp) s = (s', Ok ()) \<Longrightarrow>
         meta s' = (meta s)(key l (DataProposal_hashed E dp) \<mapsto> md) \<and>
         data s' = (data s)(key l (DataProposal_hashed E dp) \<mapsto> dp) \<and> readable s' (key l (DataProposal_hashed E dp))"
    and put_frame:
      "sto_put_no_verification S l entry s = (s', r) \<Longrightarrow> readable s' = readable s \<and> sto_lanes_tip S s' = sto_lanes_tip S s"
    and add_Ok:
      "sto_add_signatures S l h vs s = (s', Ok sigs) \<Longrightarrow>
         \<exists>md. meta s (key l h) = Some md \<and> meta s' = (meta s)(key l h \<mapsto> add_votes h vs md) \<and>
              sigs = le_signatures (add_votes h vs md) \<and> data s' = data s \<and> readable s' = readable s \<and>
              sto_lanes_tip S s' = sto_lanes_tip S s"
    and add_Err: "sto_add_signatures S l h vs s = (s', Err e) \<Longrightarrow> s' = s"
    and add_readable: "readable s (key l h) \<Longrightarrow> meta s (key l h) \<noteq> None \<Longrightarrow> is_ok (snd (sto_add_signatures S l h vs s))"
    and pop_Some:
      "sto_pop S l s = (s', Ok (Some (h, md, dp))) \<Longrightarrow>
         get_lane_hash_tip S s l = Some h \<and> meta s (key l h) = Some md \<and> data s (key l h) = Some dp \<and>
         meta s' = (meta s)(key l h := None) \<and> data s' = (data s)(key l h := None) \<and> readable s' = readable s \<and>
         sto_lanes_tip S s' = bt_insert l (h, le_cumul_size md) (sto_lanes_tip S s)"
    and pop_None: "sto_pop S l s = (s', Ok None) \<Longrightarrow> s' = s"
    and pop_Err:
      "sto_pop S l s = (s', Err e) \<Longrightarrow>
         meta s' \<subseteq>\<^sub>m meta s \<and> data s' = data s \<and> readable s' = readable s \<and> sto_lanes_tip S s' = sto_lanes_tip S s"
    and pop_absent: "get_lane_hash_tip S s l = Some h \<Longrightarrow> meta s (key l h) = None \<Longrightarrow> snd (sto_pop S l s) \<noteq> Ok (Some x)"
    and tip_frame:
      "meta (sto_update_lane_tip S l h sz s) = meta s" "data (sto_update_lane_tip S l h sz s) = data s"
      "readable (sto_update_lane_tip S l h sz s) = readable s"
      "sto_lanes_tip S (sto_update_lane_tip S l h sz s) = bt_insert l (h, sz) (sto_lanes_tip S s)"
begin

lemma hash_tip_update [simp]:
  "get_lane_hash_tip S (sto_update_lane_tip S l h sz s) l' = (if l' = l then Some h else get_lane_hash_tip S s l')"
  by (simp add: get_lane_hash_tip_def tip_frame hm_simps)

lemma hash_tip_pop:
  "sto_pop S l s = (s', Ok (Some (h, md, dp))) \<Longrightarrow> get_lane_hash_tip S s' = get_lane_hash_tip S s"
  by (drule pop_Some) (auto simp: get_lane_hash_tip_def hm_simps fun_eq_iff)

text \<open>The loop that takes entries off a lane ends: after one entry the tip has none.\<close>

lemma pop_until_ends: "\<exists>s' r. pop_until S l prev s = Some (s', r)"
proof -
  have again: "\<exists>s'' r. pop_until S l prev s' = Some (s'', r)"
    if pop: "sto_pop S l s = (s', Ok (Some (h, md, dp)))" for s s' h md dp
  proof -
    have tip: "get_lane_hash_tip S s' l = Some h" "meta s' (key l h) = None"
      using pop_Some [OF pop] hash_tip_pop [OF pop] by simp_all
    have "sto_pop S l s' \<noteq> (s'', Ok (Some x))" for s'' x
      using pop_absent [OF tip, of x] by (metis snd_conv)
    then show ?thesis by (subst pop_until.simps) (auto split: prod.split sum.split option.split simp del: split_paired_All)
  qed
  show ?thesis
  proof (cases "sto_pop S l s")
    case (Pair s' r)
    then show ?thesis using again [of s s']
      by (subst pop_until.simps) (cases r, auto split: option.split prod.split simp: prod_eq_iff)
  qed
qed

lemma clean_and_update_lane_runs: "runs (clean_and_update_lane S l prev h sz) s"
proof -
  have "runs (pop_until S l prev) s" using pop_until_ends [of l prev s] by (auto simp: runs_def)
  then show ?thesis unfolding clean_and_update_lane_def Let_def
    by (auto intro!: runs_thn wpI)
qed

lemma store_Ok:
  assumes "store_data_proposal E B X Z S l dp s = (s', Ok (h, sz))"
  shows "h = DataProposal_hashed E dp \<and> readable s' (key l h) \<and> data s' (key l h) = Some dp \<and>
    (\<exists>md. meta s' (key l h) = Some md \<and> le_cumul_size md = sz \<and>
      le_parent_data_proposal_hash md = dp_parent_data_proposal_hash dp)"
proof -
  have put: "sto_put_no_verification S l (md, dp) s = (s1, Ok ()) \<Longrightarrow>
      readable s1 (key l (DataProposal_hashed E dp)) \<and> data s1 (key l (DataProposal_hashed E dp)) = Some dp \<and>
      meta s1 (key l (DataProposal_hashed E dp)) = Some md" for md s1
    by (drule put_Ok) auto
  show ?thesis using assms
    by (auto simp: store_data_proposal_def put_signed_def Let_def tip_frame dest!: put
        split: if_splits CanBePutOnTop.splits sum.splits prod.splits)
qed

subsection \<open>Data under its hash\<close>

lemma put_keyed: "sto_put_no_verification S l entry s = (s', r) \<Longrightarrow> keyed E key (data s) \<Longrightarrow> keyed E key (data s')"
  by (cases entry) (auto dest!: put_data intro: keyed_put)

lemma add_keyed: "sto_add_signatures S l h vs s = (s', r) \<Longrightarrow> keyed E key (data s) \<Longrightarrow> keyed E key (data s')"
  by (cases r) (auto dest: add_Err add_Ok)

lemma pop_keyed: "sto_pop S l s = (s', r) \<Longrightarrow> keyed E key (data s) \<Longrightarrow> keyed E key (data s')"
proof (cases r)
  case (Inr x)
  then show "sto_pop S l s = (s', r) \<Longrightarrow> keyed E key (data s) \<Longrightarrow> keyed E key (data s')"
    by (cases x) (auto dest: pop_None dest!: pop_Some intro: keyed_remove)
qed (auto dest: pop_Err)

lemma store_keyed:
  "store_data_proposal E B X Z S l dp s = (s', r) \<Longrightarrow> keyed E key (data s) \<Longrightarrow> keyed E key (data s')"
  by (auto simp: store_data_proposal_def put_signed_def Let_def tip_frame dest: put_keyed
      split: if_splits CanBePutOnTop.splits sum.splits prod.splits)

lemma pop_until_keyed: "pop_until S l prev s = Some y \<Longrightarrow> keyed E key (data s) \<longrightarrow> keyed E key (data (fst y))"
proof (erule pop_until.raw_induct [where P = "\<lambda>S' l prev s y. S' = S \<longrightarrow> keyed E key (data s) \<longrightarrow> keyed E key (data (fst y))",
      rotated, THEN mp], goal_cases)
  case (1 f S' l prev s y)
  show ?case
  proof (intro impI)
    assume S: "S' = S" and k: "keyed E key (data s)"
    obtain s1 r where pop: "sto_pop S l s = (s1, r)" by force
    have k1: "keyed E key (data s1)" by (rule pop_keyed [OF pop k])
    have k2: "keyed E key (data (fst (sto_put_no_verification S l le s1)))" for le
      using put_keyed [of l le s1] k1 by (metis prod.collapse)
    show "keyed E key (data (fst y))"
      using 1(2) 1(1) [of S l prev s1 y] S pop k1 k2
      by (auto split: sum.splits option.splits prod.splits if_splits)
  qed
qed simp

lemma clean_keyed:
  "clean_and_update_lane S l prev h sz s = Some (s', r) \<Longrightarrow> keyed E key (data s) \<Longrightarrow> keyed E key (data s')"
  by (auto simp: clean_and_update_lane_def reads_def thn_def bnd_def ret_def modify_def Let_def tip_frame
      dest!: pop_until_keyed split: if_splits option.splits prod.splits sum.splits)

subsection \<open>Entries behind votes\<close>

lemma backed_iff: "entry_backed S s l h sz \<longleftrightarrow> readable s (key l h) \<and> (\<exists>md. meta s (key l h) = Some md \<and> le_cumul_size md = sz)"
  unfolding entry_backed_def by (auto dest: get_metadata intro: get_metadata_readable)

lemma add_backed: "sto_add_signatures S l h vs s = (s', r) \<Longrightarrow> entry_backed S s l' h' sz \<Longrightarrow> entry_backed S s' l' h' sz"
  unfolding backed_iff by (cases r) (auto dest: add_Err dest!: add_Ok)

lemma put_backed:
  assumes "sto_put_no_verification S l (md, dp) s = (s', r)" and "\<not> sto_contains S s l (DataProposal_hashed E dp)"
    and "entry_backed S s l' h' sz"
  shows "entry_backed S s' l' h' sz"
  using assms put_meta [OF assms(1)] put_frame [OF assms(1)] unfolding backed_iff contains_iff by auto

lemma tip_backed [simp]: "entry_backed S (sto_update_lane_tip S l h sz s) = entry_backed S s"
  by (simp add: fun_eq_iff backed_iff tip_frame)

lemma store_backed:
  "store_data_proposal E B X Z S l dp s = (s', r) \<Longrightarrow> entry_backed S s l' h' sz \<Longrightarrow> entry_backed S s' l' h' sz"
  by (auto simp: store_data_proposal_def put_signed_def Let_def dest: put_backed
      split: if_splits CanBePutOnTop.splits sum.splits prod.splits)

lemma store_backs: "store_data_proposal E B X Z S l dp s = (s', Ok (h, sz)) \<Longrightarrow> entry_backed S s' l h sz"
  by (drule store_Ok) (auto simp: backed_iff)

lemma size_at_backed: "sto_contains S s l h \<Longrightarrow> get_lane_size_at S s l h = Ok sz \<Longrightarrow> entry_backed S s l h sz"
  by (auto simp: contains_iff get_lane_size_at_def entry_backed_def ok_simps dest!: get_metadata split: option.splits)

end

end
