(* ===== verification/Mempool.thy ===== *)
theory Mempool
  imports Mempool_Storage
begin

text \<open>
  The mempool of a node (\<open>src/mempool.rs\<close> and the modules under \<open>src/mempool\<close>): the own lane and its
  transactions (\<open>own_lane.rs\<close>), the proposals of the other lanes (\<open>verify_tx.rs\<close>), the blocks that
  are built from committed cuts (\<open>block_construction.rs\<close>) and the event loop (\<open>module.rs\<close>). A
  spawned task is kept as a value until it is joined, in the order of \<open>OrderedJoinSet\<close>; the
  contracts it saw while it ran come with the event that joins it. A method that does not return is
  \<open>None\<close>, as a panic is.
\<close>

subsection \<open>Messages and state\<close>

datatype MempoolNetMessage =
    NM_DataProposal DataProposalHash DataProposal
  | NM_DataVote ValidatorDAG
  | NM_PoDAUpdate DataProposalHash "ValidatorDAG list"
  | NM_SyncRequest "DataProposalHash option" "DataProposalHash option"
  | NM_SyncReply LaneEntryMetadata DataProposal

datatype DataProposalVerdict = V_Process | V_Empty | V_Wait | V_Vote | V_Refuse | V_Ignore

datatype ProcessedDPEvent =
    OnHashedDataProposal LaneId DataProposal
  | OnProcessedDataProposal LaneId DataProposalVerdict DataProposal

record TransactionMetadata =
  tm_version :: u32
  tm_transaction_kind :: nat
  tm_id :: TxId

datatype MempoolStatusEvent =
    WaitingDissemination DataProposalHash Transaction
  | DataProposalCreated DataProposalHash DataProposalHash "TransactionMetadata list"

datatype MempoolBlockEvent =
    BuiltSignedBlock SignedBlock
  | StartedBuildingBlocks BlockHeight

record SyncRequest =
  sq_from :: "DataProposalHash option"
  sq_to :: DataProposalHash
  sq_validator :: ValidatorPublicKey

datatype MempoolError =
    StorageFailed StorageError
  | MempoolCrypto CryptoError
  | MempoolChannelFull
  | WrongProposalHash
  | MissingOperatorSignature
  | PendingNotRetrieved
  | ProposalNotFound DataProposalHash
  | BlockDataMissing DataProposalHash
  | TooManyBlobs nat
  | NotAProofTx
  | ContractUnknown
  | ProofRejected

datatype MempoolOutput =
    SendNet ValidatorPublicKey "MempoolNetMessage MsgWithHeader"
  | BroadcastNet "MempoolNetMessage MsgWithHeader"
  | BroadcastNetOnlyFor "ValidatorPublicKey list" "MempoolNetMessage MsgWithHeader"
  | StatusEvent MempoolStatusEvent
  | BlockEvent MempoolBlockEvent
  | ToSync SyncRequest
  | NewCut "(Cut, MempoolError) Result"

type_synonym KnownContracts = "(ContractName, Verifier \<times> ProgramId) hashmap"

text \<open>The spawned tasks: hashing and processing of a proposal, hashing and proving of a transaction.\<close>

datatype DpTask =
    HashDp LaneId DataProposalHash DataProposal
  | ProcessDp LaneId DataProposal

datatype TxTask =
    HashTx Transaction
  | ProofTx Transaction

record BlockUnderConstruction =
  bu_from :: "Cut option"
  bu_ccp :: CommittedConsensusProposal

record MempoolStore =
  mp_processing_txs :: "TxTask list"
  mp_waiting_dissemination_txs :: "(TxHash \<times> Transaction) list"
  mp_own_data_proposal_in_preparation :: "DataProposal list"
  mp_buffered_proposals :: "(LaneId, DataProposal list) btreemap"
  mp_buffered_podas :: "(LaneId, (DataProposalHash, ValidatorDAG list list) btreemap) btreemap"
  mp_processing_dps :: "DpTask list"
  mp_cached_dp_votes :: "(LaneId \<times> DataProposalHash, DataProposalVerdict) hashmap"
  mp_blocks_under_contruction :: "BlockUnderConstruction list"
  mp_buc_build_start_height :: "u64 option"
  mp_last_ccp :: "CommittedConsensusProposal option"
  mp_staking :: Staking
  mp_known_contracts :: KnownContracts

record 's Mempool = MempoolStore +
  mp_lanes :: 's
  mp_bus :: "MempoolOutput list"

text \<open>
  The node: external functions, keys, encoders and sizes, the lane storage it runs on, the clock as
  read during one event, which messages the channels still accept, and the proof verifiers. The
  recursive verifier is absent when its feature is disabled.
\<close>

record 's MempoolNode =
  mn_env :: Env
  mn_crypto :: BlstCrypto
  mn_borsh :: Borsh
  mn_enc_votes :: "ValidatorDAG list \<Rightarrow> bytes option"
  mn_enc_metadata :: "LaneEntryMetadata \<Rightarrow> bytes option"
  mn_sizes :: Sizes
  mn_storage :: "'s Storage"
  mn_now :: u128
  mn_bus_accepts :: "MempoolOutput \<Rightarrow> bool"
  mn_test_proof :: "ProofData \<Rightarrow> HyleOutput list option"
  mn_verify :: "Verifier \<Rightarrow> ProofData \<Rightarrow> ProgramId \<Rightarrow> HyleOutput list option"
  mn_verify_recursive :: "(ProofData \<Rightarrow> ProgramId \<Rightarrow> (ProgramId list \<times> HyleOutput list) option) option"
  mn_lane_manager :: bool

type_synonym ('s, 'a) mstep = "('s Mempool, MempoolError, 'a) step"

definition dp_hashed :: "'s MempoolNode \<Rightarrow> DataProposal \<Rightarrow> DataProposalHash" where
  "dp_hashed N dp = DataProposal_hashed (mn_env N) dp"

definition tx_hashed :: "'s MempoolNode \<Rightarrow> Transaction \<Rightarrow> TxHash" where
  "tx_hashed N tx = Transaction_hashed (mn_env N) tx"

text \<open>A method of the storage that changes it, and one that only reads and may not return.\<close>

definition on_lanes :: "('s \<Rightarrow> 's \<times> ('a, StorageError) Result) \<Rightarrow> ('s, 'a) mstep" where
  "on_lanes f m = (case f (mp_lanes m) of (s, r) \<Rightarrow> Some (m\<lparr>mp_lanes := s\<rparr>, map_err StorageFailed r))"

definition in_lanes :: "('s, StorageError, 'a) step \<Rightarrow> ('s, 'a) mstep" where
  "in_lanes f m = map_option (\<lambda>(s, r). (m\<lparr>mp_lanes := s\<rparr>, map_err StorageFailed r)) (f (mp_lanes m))"

definition awaits :: "('a, StorageError) Result option \<Rightarrow> ('s, 'a) mstep" where
  "awaits v m = map_option (\<lambda>r. (m, map_err StorageFailed r)) v"

text \<open>A result that is only logged and inspected.\<close>

definition caught :: "('s, 'a) mstep \<Rightarrow> ('s, ('a, MempoolError) Result) mstep" where
  "caught f m = (case f m of None \<Rightarrow> None | Some (m', r) \<Rightarrow> Some (m', Ok r))"

lemma wp_caught [wp_simps]: "wp (caught f) Q m = wp f (\<lambda>m' r. Q m' (Ok r)) m"
  by (simp add: wp_def caught_def split: option.split prod.split)

subsection \<open>Sending\<close>

fun mempool_signable_data :: "'s MempoolNode \<Rightarrow> MempoolNetMessage \<Rightarrow> bytes" where
  "mempool_signable_data N (NM_DataProposal hash _) = as_bytes hash"
| "mempool_signable_data N (NM_DataVote vdag) = unwrap_or_default (enc_poda (mn_borsh N) (sg_msg vdag))"
| "mempool_signable_data N (NM_PoDAUpdate _ vdags) = unwrap_or_default (mn_enc_votes N vdags)"
| "mempool_signable_data N (NM_SyncRequest from to) =
     concat (map (\<lambda>h. as_bytes (case h of Some x \<Rightarrow> x | None \<Rightarrow> [])) [from, to])"
| "mempool_signable_data N (NM_SyncReply metadata data_proposal) =
     unwrap_or_default (mn_enc_metadata N metadata) @ as_bytes (dp_hashed N data_proposal)"

definition mempool_sign :: "'s MempoolNode \<Rightarrow> MempoolNetMessage \<Rightarrow> (MempoolNetMessage MsgWithHeader, CryptoError) Result" where
  "mempool_sign N msg =
     and_then
       (sign (mn_crypto N) (enc_header (mn_borsh N)) \<lparr>mh_timestamp = mn_now N, mh_hash = mempool_signable_data N msg\<rparr>)
       (\<lambda>header. Ok \<lparr>mw_header = header, mw_msg = msg\<rparr>)"

definition put_on_bus :: "'s MempoolNode \<Rightarrow> MempoolOutput \<Rightarrow> ('s, unit) mstep" where
  "put_on_bus N out =
     (if mn_bus_accepts N out then modify (\<lambda>m. m\<lparr>mp_bus := mp_bus m @ [out]\<rparr>) else bail MempoolChannelFull)"

definition mempool_broadcast :: "'s MempoolNode \<Rightarrow> MempoolNetMessage \<Rightarrow> ('s, unit) mstep" where
  "mempool_broadcast N net_message =
     bnd (attempt (map_err MempoolCrypto (mempool_sign N net_message))) (\<lambda>signed_msg. put_on_bus N (BroadcastNet signed_msg))"

definition broadcast_only_for_net_message ::
    "'s MempoolNode \<Rightarrow> ValidatorPublicKey list \<Rightarrow> MempoolNetMessage \<Rightarrow> ('s, unit) mstep" where
  "broadcast_only_for_net_message N only_for net_message =
     bnd (attempt (map_err MempoolCrypto (mempool_sign N net_message))) (\<lambda>signed_msg.
       put_on_bus N (BroadcastNetOnlyFor only_for signed_msg))"

definition mempool_send :: "'s MempoolNode \<Rightarrow> ValidatorPublicKey \<Rightarrow> MempoolNetMessage \<Rightarrow> ('s, unit) mstep" where
  "mempool_send N to net_message =
     bnd (attempt (map_err MempoolCrypto (mempool_sign N net_message))) (\<lambda>signed_msg. put_on_bus N (SendNet to signed_msg))"

definition own_lane_id :: "'s MempoolNode \<Rightarrow> LaneId" where
  "own_lane_id N = bc_validator_pubkey (mn_crypto N)"

definition get_lane :: "ValidatorPublicKey \<Rightarrow> LaneId" where
  "get_lane validator = validator"

definition get_lane_operator :: "LaneId \<Rightarrow> ValidatorPublicKey" where
  "get_lane_operator lane_id = lane_id"

definition send_sync_request ::
    "'s MempoolNode \<Rightarrow> LaneId \<Rightarrow> DataProposalHash option \<Rightarrow> DataProposalHash option \<Rightarrow> ('s, unit) mstep" where
  "send_sync_request N lane_id from_data_proposal_hash to_data_proposal_hash =
     mempool_send N lane_id (NM_SyncRequest from_data_proposal_hash to_data_proposal_hash)"

definition send_vote :: "'s MempoolNode \<Rightarrow> ValidatorPublicKey \<Rightarrow> DataProposalHash \<Rightarrow> LaneBytesSize \<Rightarrow> ('s, unit) mstep" where
  "send_vote N validator data_proposal_hash lane_size =
     bnd (attempt (map_err MempoolCrypto (sign (mn_crypto N) (enc_poda (mn_borsh N)) (data_proposal_hash, lane_size))))
       (\<lambda>vote. mempool_send N validator (NM_DataVote vote))"

subsection \<open>Known contracts\<close>

definition register_contract :: "ContractName \<Rightarrow> Verifier \<Rightarrow> ProgramId \<Rightarrow> KnownContracts \<Rightarrow> KnownContracts" where
  "register_contract contract_name verifier program_id kc = hm_insert contract_name (verifier, program_id) kc"

definition handle_contract_registration :: "RegisterContractEffect \<Rightarrow> 's Mempool \<Rightarrow> 's Mempool" where
  "handle_contract_registration effect m =
     m\<lparr>mp_known_contracts :=
         register_contract (re_contract_name effect) (re_verifier effect) (re_program_id effect) (mp_known_contracts m)\<rparr>"

definition handle_contract_update :: "ContractName \<Rightarrow> ProgramId \<Rightarrow> 's Mempool \<Rightarrow> 's Mempool" where
  "handle_contract_update contract_name program_id m =
     (case map_of (mp_known_contracts m) contract_name of
        Some (verifier, _) \<Rightarrow> m\<lparr>mp_known_contracts := hm_insert contract_name (verifier, program_id) (mp_known_contracts m)\<rparr>
      | None \<Rightarrow> m)"

text \<open>Hyli blobs of submitted transactions register their contracts at once.\<close>

definition register_from_blob :: "'s MempoolNode \<Rightarrow> Blob \<Rightarrow> KnownContracts \<Rightarrow> KnownContracts" where
  "register_from_blob N blob kc =
     (if b_contract_name blob \<noteq> ''hyle'' then kc
      else case dec_register (mn_env N) (b_data blob) of
             Some tx \<Rightarrow>
               register_contract (ra_contract_name (sd_parameters tx)) (ra_verifier (sd_parameters tx))
                 (ra_program_id (sd_parameters tx)) kc
           | None \<Rightarrow> kc)"

definition handle_hyle_contract_registration :: "'s MempoolNode \<Rightarrow> BlobTransaction \<Rightarrow> 's Mempool \<Rightarrow> 's Mempool" where
  "handle_hyle_contract_registration N blob_tx m =
     m\<lparr>mp_known_contracts := fold (register_from_blob N) (btx_blobs blob_tx) (mp_known_contracts m)\<rparr>"

subsection \<open>Verification of proofs\<close>

definition verify_proof :: "'s MempoolNode \<Rightarrow> ProofData \<Rightarrow> Verifier \<Rightarrow> ProgramId \<Rightarrow> HyleOutput list option" where
  "verify_proof N proof verifier program_id =
     (if verifier = ''test'' then mn_test_proof N proof else mn_verify N verifier proof program_id)"

definition verify_recursive_proof ::
    "'s MempoolNode \<Rightarrow> ProofData \<Rightarrow> Verifier \<Rightarrow> ProgramId \<Rightarrow> (ProgramId list \<times> HyleOutput list) option" where
  "verify_recursive_proof N proof verifier program_id =
     (case mn_verify_recursive N of
        Some v \<Rightarrow> if verifier = ''risc0-1'' then v proof program_id else None
      | None \<Rightarrow> None)"

text \<open>\<open>Iterator::find_map\<close>.\<close>

fun find_map :: "('a \<Rightarrow> 'b option) \<Rightarrow> 'a list \<Rightarrow> 'b option" where
  "find_map f [] = None"
| "find_map f (x # xs) = (case f x of Some y \<Rightarrow> Some y | None \<Rightarrow> find_map f xs)"

definition find_contract :: "'s MempoolNode \<Rightarrow> Transaction list \<Rightarrow> ContractName \<Rightarrow> (Verifier \<times> ProgramId) option" where
  "find_contract N earlier_txs contract_name =
     find_map (\<lambda>tx.
       case tx_transaction_data tx of
         TD_Blob tx \<Rightarrow>
           find_map (\<lambda>blob.
             if b_contract_name blob = ''hyle'' then
               (case dec_register (mn_env N) (b_data blob) of
                  Some tx \<Rightarrow>
                    if ra_contract_name (sd_parameters tx) = contract_name
                    then Some (ra_verifier (sd_parameters tx), ra_program_id (sd_parameters tx)) else None
                | None \<Rightarrow> None)
             else None) (btx_blobs tx)
       | _ \<Rightarrow> None) earlier_txs"

text \<open>One transaction of a proposal, with those before it; \<open>False\<close> refuses the proposal.\<close>

definition accept_proof_tx :: "'s MempoolNode \<Rightarrow> KnownContracts \<Rightarrow> Transaction list \<Rightarrow> VerifiedProofTransaction \<Rightarrow> bool" where
  "accept_proof_tx N kc earlier_txs proof_tx =
     (case vp_proof proof_tx of
        None \<Rightarrow> False
      | Some proof \<Rightarrow>
          (case (case map_of kc (vp_contract_name proof_tx) of
                   Some c \<Rightarrow> Some c
                 | None \<Rightarrow> find_contract N earlier_txs (vp_contract_name proof_tx)) of
             None \<Rightarrow> False
           | Some (verifier, program_id) \<Rightarrow>
               if vp_contract_name proof_tx = ''risc0-recursion'' then
                 (case verify_recursive_proof N proof verifier program_id of
                    Some (local_program_ids, local_hyle_outputs) \<Rightarrow>
                      \<not> (length local_program_ids \<noteq> length (vp_proven_blobs proof_tx) \<or>
                         \<not> list_all (\<lambda>((local_program_id, local_hyle_output), b).
                                local_hyle_output = bp_hyle_output b \<and> local_program_id = bp_program_id b)
                              (zip (zip local_program_ids local_hyle_outputs) (vp_proven_blobs proof_tx)))
                  | None \<Rightarrow> False)
               else
                 (case verify_proof N proof verifier program_id of
                    Some outputs \<Rightarrow>
                      \<not> (length outputs \<noteq> length (vp_proven_blobs proof_tx) \<and>
                         list_ex (\<lambda>(output, b). output \<noteq> bp_hyle_output b) (zip outputs (vp_proven_blobs proof_tx)))
                  | None \<Rightarrow> False)))"

fun accept_txs :: "'s MempoolNode \<Rightarrow> KnownContracts \<Rightarrow> Transaction list \<Rightarrow> Transaction list \<Rightarrow> bool" where
  "accept_txs N kc earlier_txs [] = True"
| "accept_txs N kc earlier_txs (tx # txs) =
     (case tx_transaction_data tx of
        TD_Blob _ \<Rightarrow> accept_txs N kc (earlier_txs @ [tx]) txs
      | TD_Proof _ \<Rightarrow> False
      | TD_VerifiedProof proof_tx \<Rightarrow> accept_proof_tx N kc earlier_txs proof_tx \<and> accept_txs N kc (earlier_txs @ [tx]) txs)"

definition process_data_proposal ::
    "'s MempoolNode \<Rightarrow> DataProposal \<Rightarrow> KnownContracts \<Rightarrow> (DataProposalVerdict \<times> DataProposal) option" where
  "process_data_proposal N data_proposal known_contracts =
     (if accept_txs N known_contracts [] (dp_txs data_proposal)
      then map_option (\<lambda>dp. (V_Vote, dp)) (remove_proofs data_proposal)
      else Some (V_Refuse, data_proposal))"

subsection \<open>Proposals of a lane\<close>

definition get_verdict :: "'s MempoolNode \<Rightarrow> 's \<Rightarrow> LaneId \<Rightarrow> DataProposal \<Rightarrow>
    (DataProposalVerdict \<times> LaneBytesSize option, StorageError) Result" where
  "get_verdict N s lane_id data_proposal =
     (let S = mn_storage N; dp_hash = dp_hashed N data_proposal in
      if dp_txs data_proposal = [] then Ok (V_Empty, None)
      else if sto_contains S s lane_id dp_hash then
        and_then (get_lane_size_at S s lane_id dp_hash) (\<lambda>lane_size. Ok (V_Vote, Some lane_size))
      else case can_be_put_on_top S s lane_id dp_hash (dp_parent_data_proposal_hash data_proposal) of
             No \<Rightarrow> Ok (V_Wait, None)
           | Yes \<Rightarrow> Ok (V_Process, None)
           | Fork \<Rightarrow> Ok (V_Refuse, None)
           | AlreadyOnTop \<Rightarrow> Ok (V_Ignore, None))"

definition cache_verdict :: "LaneId \<Rightarrow> DataProposalHash \<Rightarrow> DataProposalVerdict \<Rightarrow> 's Mempool \<Rightarrow> 's Mempool" where
  "cache_verdict lane_id dp_hash verdict m =
     m\<lparr>mp_cached_dp_votes := hm_insert (lane_id, dp_hash) verdict (mp_cached_dp_votes m)\<rparr>"

definition spawn_dp :: "DpTask \<Rightarrow> 's Mempool \<Rightarrow> 's Mempool" where
  "spawn_dp task m = m\<lparr>mp_processing_dps := mp_processing_dps m @ [task]\<rparr>"

text \<open>The set of buffered proposals compares them by their hashes.\<close>

definition index_set_insert :: "'s MempoolNode \<Rightarrow> DataProposal \<Rightarrow> DataProposal list \<Rightarrow> DataProposal list" where
  "index_set_insert N dp xs = (if list_ex (\<lambda>x. dp_hashed N x = dp_hashed N dp) xs then xs else xs @ [dp])"

definition buffer_proposal :: "'s MempoolNode \<Rightarrow> LaneId \<Rightarrow> DataProposal \<Rightarrow> 's Mempool \<Rightarrow> 's Mempool" where
  "buffer_proposal N lane_id dp m =
     m\<lparr>mp_buffered_proposals :=
         bt_insert lane_id
           (index_set_insert N dp (case map_of (mp_buffered_proposals m) lane_id of Some xs \<Rightarrow> xs | None \<Rightarrow> []))
           (mp_buffered_proposals m)\<rparr>"

definition on_data_proposal :: "'s MempoolNode \<Rightarrow> LaneId \<Rightarrow> DataProposalHash \<Rightarrow> DataProposal \<Rightarrow> ('s, unit) mstep" where
  "on_data_proposal N lane_id received_hash data_proposal =
     reads (\<lambda>m. let spawn = modify (spawn_dp (HashDp lane_id received_hash data_proposal)) in
       case map_of (mp_cached_dp_votes m) (lane_id, received_hash) of
         Some V_Empty \<Rightarrow> ret ()
       | Some V_Refuse \<Rightarrow> ret ()
       | Some V_Process \<Rightarrow> ret ()
       | Some V_Ignore \<Rightarrow> ret ()
       | Some V_Vote \<Rightarrow>
           (case get_lane_size_at (mn_storage N) (mp_lanes m) lane_id received_hash of
              Inr lane_size \<Rightarrow> send_vote N (get_lane_operator lane_id) received_hash lane_size
            | Inl _ \<Rightarrow> spawn)
       | Some V_Wait \<Rightarrow> spawn
       | None \<Rightarrow> spawn)"

definition on_hashed_data_proposal :: "'s MempoolNode \<Rightarrow> LaneId \<Rightarrow> DataProposal \<Rightarrow> ('s, unit) mstep" where
  "on_hashed_data_proposal N lane_id data_proposal =
     reads (\<lambda>m. let data_proposal_hash = dp_hashed N data_proposal in
       bnd (attempt (map_err StorageFailed (get_verdict N (mp_lanes m) lane_id data_proposal))) (\<lambda>(verdict, lane_size).
         thn (modify (cache_verdict lane_id data_proposal_hash verdict))
           (case verdict of
              V_Empty \<Rightarrow> ret ()
            | V_Vote \<Rightarrow>
                bnd (unwrap lane_size) (\<lambda>lane_size. send_vote N (get_lane_operator lane_id) data_proposal_hash lane_size)
            | V_Process \<Rightarrow> modify (spawn_dp (ProcessDp lane_id data_proposal))
            | V_Wait \<Rightarrow> modify (buffer_proposal N lane_id data_proposal)
            | V_Refuse \<Rightarrow> ret ()
            | V_Ignore \<Rightarrow> ret ())))"

text \<open>Signatures for a proposal that is not there yet are kept.\<close>

definition buffer_poda :: "LaneId \<Rightarrow> DataProposalHash \<Rightarrow> ValidatorDAG list \<Rightarrow> 's Mempool \<Rightarrow> 's Mempool" where
  "buffer_poda lane_id dp_hash podas m =
     m\<lparr>mp_buffered_podas :=
         bt_insert lane_id
           (bt_push dp_hash podas (case map_of (mp_buffered_podas m) lane_id of Some lane \<Rightarrow> lane | None \<Rightarrow> []))
           (mp_buffered_podas m)\<rparr>"

definition on_poda_update :: "'s MempoolNode \<Rightarrow> LaneId \<Rightarrow> DataProposalHash \<Rightarrow> ValidatorDAG list \<Rightarrow> ('s, unit) mstep" where
  "on_poda_update N lane_id data_proposal_hash podas =
     bnd (caught (on_lanes (sto_add_signatures (mn_storage N) lane_id data_proposal_hash podas))) (\<lambda>r.
       if is_ok r then ret () else modify (buffer_poda lane_id data_proposal_hash podas))"

definition pop_poda :: "LaneId \<Rightarrow> DataProposalHash \<Rightarrow> 's Mempool \<Rightarrow> (ValidatorDAG list \<times> 's Mempool) option" where
  "pop_poda lane_id dp_hash m =
     (case map_of (mp_buffered_podas m) lane_id of
        None \<Rightarrow> None
      | Some lane \<Rightarrow>
          (case map_of lane dp_hash of
             None \<Rightarrow> None
           | Some podas_list \<Rightarrow>
               if podas_list = [] then None
               else Some (last podas_list,
                      m\<lparr>mp_buffered_podas := bt_insert lane_id (bt_insert dp_hash (butlast podas_list) lane) (mp_buffered_podas m)\<rparr>)))"

partial_function (option) drain_podas ::
    "'s MempoolNode \<Rightarrow> LaneId \<Rightarrow> DataProposalHash \<Rightarrow> 's Mempool \<Rightarrow> ('s Mempool \<times> (unit, MempoolError) Result) option" where
  "drain_podas N lane_id dp_hash m =
     (case pop_poda lane_id dp_hash m of
        None \<Rightarrow> Some (m, Ok ())
      | Some (poda_signatures, m') \<Rightarrow>
          (case on_poda_update N lane_id dp_hash poda_signatures m' of
             None \<Rightarrow> None
           | Some (m'', Inl e) \<Rightarrow> Some (m'', Err e)
           | Some (m'', Inr _) \<Rightarrow> drain_podas N lane_id dp_hash m''))"

text \<open>\<open>swap_remove_index\<close>: the last element takes the place of the removed one.\<close>

definition swap_remove :: "nat \<Rightarrow> 'a list \<Rightarrow> 'a list" where
  "swap_remove i xs = butlast (xs[i := last xs])"

definition take_child :: "LaneId \<Rightarrow> DataProposalHash \<Rightarrow> 's Mempool \<Rightarrow> DataProposal option \<times> 's Mempool" where
  "take_child lane_id hash m =
     (case map_of (mp_buffered_proposals m) lane_id of
        None \<Rightarrow> (None, m)
      | Some buffered_proposals \<Rightarrow>
          (case position (\<lambda>dp. dp_parent_data_proposal_hash dp = Some hash) buffered_proposals of
             None \<Rightarrow> (None, m)
           | Some child_idx \<Rightarrow>
               (Some (buffered_proposals ! child_idx),
                m\<lparr>mp_buffered_proposals :=
                    bt_insert lane_id (swap_remove child_idx buffered_proposals) (mp_buffered_proposals m)\<rparr>)))"

definition on_processed_data_proposal ::
    "'s MempoolNode \<Rightarrow> LaneId \<Rightarrow> DataProposalVerdict \<Rightarrow> DataProposal \<Rightarrow> ('s, unit) mstep" where
  "on_processed_data_proposal N lane_id verdict data_proposal =
     thn (modify (cache_verdict lane_id (dp_hashed N data_proposal) verdict))
       (case verdict of
          V_Empty \<Rightarrow> panic
        | V_Process \<Rightarrow> panic
        | V_Wait \<Rightarrow> panic
        | V_Vote \<Rightarrow>
            bnd (on_lanes (store_data_proposal (mn_env N) (mn_crypto N) (mn_borsh N) (mn_sizes N) (mn_storage N) lane_id data_proposal))
              (\<lambda>(hash, lane_size).
                 thn (send_vote N (get_lane_operator lane_id) hash lane_size)
                   (thn (drain_podas N lane_id hash)
                     (reads (\<lambda>m.
                        case take_child lane_id hash m of
                          (None, m') \<Rightarrow> modify (\<lambda>_. m')
                        | (Some dp, m') \<Rightarrow> thn (modify (\<lambda>_. m')) (on_hashed_data_proposal N lane_id dp)))))
        | V_Refuse \<Rightarrow> ret ()
        | V_Ignore \<Rightarrow> ret ())"

fun handle_internal_event :: "'s MempoolNode \<Rightarrow> ProcessedDPEvent \<Rightarrow> ('s, unit) mstep" where
  "handle_internal_event N (OnHashedDataProposal lane_id data_proposal) = on_hashed_data_proposal N lane_id data_proposal"
| "handle_internal_event N (OnProcessedDataProposal lane_id verdict data_proposal) =
     on_processed_data_proposal N lane_id verdict data_proposal"

text \<open>The result of a joined task; \<open>None\<close> is a panic of the task, which its join reports.\<close>

fun run_dp_task :: "'s MempoolNode \<Rightarrow> KnownContracts \<Rightarrow> DpTask \<Rightarrow> (ProcessedDPEvent, MempoolError) Result option" where
  "run_dp_task N kc (HashDp lane_id received_hash data_proposal) =
     Some (if dp_hashed N data_proposal \<noteq> received_hash then Err WrongProposalHash
           else Ok (OnHashedDataProposal lane_id data_proposal))"
| "run_dp_task N kc (ProcessDp lane_id data_proposal) =
     map_option (\<lambda>(decision, dp). Ok (OnProcessedDataProposal lane_id decision dp)) (process_data_proposal N data_proposal kc)"

subsection \<open>The own lane\<close>

definition get_last_data_prop_hash_in_own_lane :: "'s MempoolNode \<Rightarrow> 's \<Rightarrow> DataProposalHash option" where
  "get_last_data_prop_hash_in_own_lane N s = get_lane_hash_tip (mn_storage N) s (own_lane_id N)"

definition on_data_vote :: "'s MempoolNode \<Rightarrow> ValidatorDAG \<Rightarrow> ('s, unit) mstep" where
  "on_data_vote N vdag =
     (let validator = vs_validator (sg_signature vdag); data_proposal_hash = fst (sg_msg vdag) in
      bnd (on_lanes (sto_add_signatures (mn_storage N) (own_lane_id N) data_proposal_hash [vdag])) (\<lambda>signatures.
        reads (\<lambda>m. let validators = map (\<lambda>s. vs_validator (sg_signature s)) signatures;
                       old_voting_power = compute_voting_power (mp_staking m) (filter (\<lambda>v. v \<noteq> validator) validators);
                       new_voting_power = compute_voting_power (mp_staking m) validators;
                       f = compute_f (mp_staking m)
          in if old_voting_power < f \<and> f \<le> new_voting_power \<or>
                old_voting_power < 2 * f \<and> 2 * f \<le> new_voting_power \<or>
                3 * f < new_voting_power
             then mempool_broadcast N (NM_PoDAUpdate data_proposal_hash signatures)
             else ret ())))"

text \<open>How many of the waiting transactions go into the next proposal.\<close>

fun collect_count :: "'s MempoolNode \<Rightarrow> nat \<Rightarrow> Transaction list \<Rightarrow> nat" where
  "collect_count N cumulative_size [] = 0"
| "collect_count N cumulative_size (tx # txs) =
     (if cumulative_size < 40000000
      then Suc (collect_count N (cumulative_size + Transaction_estimate_size (mn_sizes N) tx) txs) else 0)"

definition init_dp_preparation_if_pending :: "'s MempoolNode \<Rightarrow> ('s, DataProposal option) mstep" where
  "init_dp_preparation_if_pending N =
     reads (\<lambda>m.
       if mp_waiting_dissemination_txs m = [] \<or> mp_own_data_proposal_in_preparation m \<noteq> [] then ret None
       else
         (let current_idx = collect_count N 0 (map snd (mp_waiting_dissemination_txs m));
              collected_txs = map snd (take current_idx (mp_waiting_dissemination_txs m))
          in thn (modify (\<lambda>m. m\<lparr>mp_waiting_dissemination_txs := drop current_idx (mp_waiting_dissemination_txs m)\<rparr>))
               (ret (Some \<lparr>dp_parent_data_proposal_hash = get_last_data_prop_hash_in_own_lane N (mp_lanes m),
                           dp_txs = collected_txs\<rparr>))))"

definition prepare_new_data_proposal :: "'s MempoolNode \<Rightarrow> ('s, bool) mstep" where
  "prepare_new_data_proposal N =
     bnd (init_dp_preparation_if_pending N) (\<lambda>pending.
       case pending of
         None \<Rightarrow> ret False
       | Some dp \<Rightarrow>
           thn (modify (\<lambda>m. m\<lparr>mp_own_data_proposal_in_preparation := mp_own_data_proposal_in_preparation m @ [dp]\<rparr>))
             (ret True))"

definition rebroadcast_data_proposal :: "'s MempoolNode \<Rightarrow> LaneEntryMetadata \<Rightarrow> DataProposalHash \<Rightarrow> ('s, bool) mstep" where
  "rebroadcast_data_proposal N entry_metadata dp_hash =
     reads (\<lambda>m.
       let bonded = st_bonded (mp_staking m);
           there_are_other_validators = (\<not> is_bonded (mp_staking m) (bc_validator_pubkey (mn_crypto N)) \<or> 2 \<le> length bonded);
           the_dp = attempt (and_then (map_err StorageFailed (sto_get_dp_by_hash (mn_storage N) (mp_lanes m) (own_lane_id N) dp_hash))
                      (\<lambda>d. case d of Some dp \<Rightarrow> Ok dp | None \<Rightarrow> Err (ProposalNotFound dp_hash)));
           only_for = remdups (filter (\<lambda>v. v \<notin> (\<lambda>s. vs_validator (sg_signature s)) ` set (le_signatures entry_metadata)) bonded)
       in
       if length (le_signatures entry_metadata) = 1 \<and> there_are_other_validators then
         bnd the_dp (\<lambda>data_proposal.
           thn (mempool_broadcast N (NM_DataProposal (dp_hashed N data_proposal) data_proposal)) (ret True))
       else if only_for = [] then ret False
       else
         bnd the_dp (\<lambda>data_proposal.
           thn (broadcast_only_for_net_message N only_for (NM_DataProposal (dp_hashed N data_proposal) data_proposal)) (ret True)))"

text \<open>The first pending entry that is to be disseminated.\<close>

partial_function (option) find_pending ::
    "'s MempoolNode \<Rightarrow> 's \<Rightarrow> Cut option \<Rightarrow> DataProposalHash option \<Rightarrow> cursor \<Rightarrow>
     ((LaneEntryMetadata \<times> DataProposalHash) option, MempoolError) Result option" where
  "find_pending N s last_cut only_dp_with_hash cur =
     (case pending_next (mn_storage N) s (own_lane_id N) last_cut cur of
        None \<Rightarrow> Some (Ok None)
      | Some (Inl e, cur') \<Rightarrow> Some (Err (StorageFailed e))
      | Some (Inr (MissingMetadata _), cur') \<Rightarrow> Some (Err PendingNotRetrieved)
      | Some (Inr (Metadata entry_metadata dp_hash), cur') \<Rightarrow>
          if (case only_dp_with_hash of Some h \<Rightarrow> dp_hash \<noteq> h | None \<Rightarrow> False)
          then find_pending N s last_cut only_dp_with_hash cur'
          else Some (Ok (Some (entry_metadata, dp_hash))))"

definition last_cut :: "'s Mempool \<Rightarrow> Cut option" where
  "last_cut m = map_option (\<lambda>ccp. cp_cut (cc_consensus_proposal ccp)) (mp_last_ccp m)"

definition disseminate_data_proposals :: "'s MempoolNode \<Rightarrow> DataProposalHash option \<Rightarrow> ('s, bool) mstep" where
  "disseminate_data_proposals N only_dp_with_hash =
     reads (\<lambda>m.
       bnd (unwrap (find_pending N (mp_lanes m) (last_cut m) only_dp_with_hash
              (get_pending_entries_in_lane (mn_storage N) (mp_lanes m) (own_lane_id N)))) (\<lambda>found.
         bnd (attempt found) (\<lambda>entry.
           case entry of
             None \<Rightarrow> ret False
           | Some (entry_metadata, dp_hash) \<Rightarrow> bnd (rebroadcast_data_proposal N entry_metadata dp_hash) (\<lambda>_. ret True))))"

definition redisseminate_oldest_data_proposal :: "'s MempoolNode \<Rightarrow> ('s, bool) mstep" where
  "redisseminate_oldest_data_proposal N =
     reads (\<lambda>m.
       bnd (awaits (get_oldest_pending_entry (mn_storage N) (mp_lanes m) (own_lane_id N) (last_cut m))) (\<lambda>entry.
         case entry of
           None \<Rightarrow> ret True
         | Some (metadata, dp_hash) \<Rightarrow> rebroadcast_data_proposal N metadata dp_hash))"

definition Transaction_metadata :: "'s MempoolNode \<Rightarrow> DataProposalHash \<Rightarrow> Transaction \<Rightarrow> TransactionMetadata" where
  "Transaction_metadata N parent_data_proposal_hash tx =
     \<lparr>tm_version = tx_version tx,
      tm_transaction_kind = (case tx_transaction_data tx of TD_Blob _ \<Rightarrow> 0 | TD_Proof _ \<Rightarrow> 1 | TD_VerifiedProof _ \<Rightarrow> 2),
      tm_id = (parent_data_proposal_hash, tx_hashed N tx)\<rparr>"

definition register_new_data_proposal :: "'s MempoolNode \<Rightarrow> DataProposal \<Rightarrow> ('s, unit) mstep" where
  "register_new_data_proposal N data_proposal =
     (let parent_data_proposal_hash =
            (case dp_parent_data_proposal_hash data_proposal of
               Some h \<Rightarrow> h
             | None \<Rightarrow> ValidatorPublicKey_display (mn_env N) (bc_validator_pubkey (mn_crypto N)));
          txs_metadatas = map (Transaction_metadata N parent_data_proposal_hash) (dp_txs data_proposal)
      in thn (put_on_bus N (StatusEvent (DataProposalCreated parent_data_proposal_hash (dp_hashed N data_proposal) txs_metadatas)))
           (bnd (on_lanes (store_data_proposal (mn_env N) (mn_crypto N) (mn_borsh N) (mn_sizes N) (mn_storage N)
                   (own_lane_id N) data_proposal)) (\<lambda>_. ret ())))"

definition resume_new_data_proposal :: "'s MempoolNode \<Rightarrow> DataProposal \<Rightarrow> DataProposalHash \<Rightarrow> ('s, bool) mstep" where
  "resume_new_data_proposal N data_proposal data_proposal_hash =
     thn (register_new_data_proposal N data_proposal) (disseminate_data_proposals N (Some data_proposal_hash))"

definition spawn_tx :: "TxTask \<Rightarrow> 's Mempool \<Rightarrow> 's Mempool" where
  "spawn_tx task m = m\<lparr>mp_processing_txs := mp_processing_txs m @ [task]\<rparr>"

definition on_new_api_tx :: "Transaction \<Rightarrow> ('s, unit) mstep" where
  "on_new_api_tx tx = modify (spawn_tx (HashTx tx))"

definition enqueue_tx :: "'s MempoolNode \<Rightarrow> Transaction \<Rightarrow> ('s, unit) mstep" where
  "enqueue_tx N tx =
     reads (\<lambda>m. let tx_hash = tx_hashed N tx in
       if hm_contains (mp_waiting_dissemination_txs m) tx_hash then ret ()
       else
         thn (modify (\<lambda>m. m\<lparr>mp_waiting_dissemination_txs := mp_waiting_dissemination_txs m @ [(tx_hash, tx)]\<rparr>))
           (put_on_bus N (StatusEvent (WaitingDissemination
              (case get_last_data_prop_hash_in_own_lane N (mp_lanes m) of
                 Some h \<Rightarrow> h
               | None \<Rightarrow> ValidatorPublicKey_display (mn_env N) (bc_validator_pubkey (mn_crypto N))) tx))))"

definition on_new_tx :: "'s MempoolNode \<Rightarrow> Transaction \<Rightarrow> ('s, unit) mstep" where
  "on_new_tx N tx =
     (case tx_transaction_data tx of
        TD_Blob blob_tx \<Rightarrow>
          if 20 < length (btx_blobs blob_tx) then bail (TooManyBlobs (length (btx_blobs blob_tx)))
          else thn (modify (handle_hyle_contract_registration N blob_tx)) (enqueue_tx N tx)
      | TD_Proof _ \<Rightarrow> modify (spawn_tx (ProofTx tx))
      | TD_VerifiedProof _ \<Rightarrow> enqueue_tx N tx)"

definition process_proof_tx :: "'s MempoolNode \<Rightarrow> KnownContracts \<Rightarrow> Transaction \<Rightarrow> (Transaction, MempoolError) Result" where
  "process_proof_tx N known_contracts tx =
     (case tx_transaction_data tx of
        TD_Proof proof_transaction \<Rightarrow>
          (case map_of known_contracts (pt_contract_name proof_transaction) of
             None \<Rightarrow> Err ContractUnknown
           | Some (verifier, program_id) \<Rightarrow>
               (let is_recursive = (pt_contract_name proof_transaction = ''risc0-recursion'');
                    verified =
                      (if is_recursive then
                         map_option (\<lambda>(program_ids, hyle_outputs). (hyle_outputs, program_ids))
                           (verify_recursive_proof N (pt_proof proof_transaction) verifier program_id)
                       else
                         map_option (\<lambda>hyle_outputs. (hyle_outputs, replicate (length hyle_outputs) program_id))
                           (verify_proof N (pt_proof proof_transaction) verifier program_id))
                in case verified of
                     None \<Rightarrow> Err ProofRejected
                   | Some (hyle_outputs, program_ids) \<Rightarrow>
                       Ok (tx\<lparr>tx_transaction_data := TD_VerifiedProof
                         \<lparr>vp_contract_name = pt_contract_name proof_transaction,
                          vp_proof = Some (pt_proof proof_transaction),
                          vp_proof_hash = ProofData_hashed (mn_env N) (pt_proof proof_transaction),
                          vp_proof_size = sz_proof_tx (mn_sizes N) proof_transaction,
                          vp_proven_blobs =
                            map (\<lambda>(blob_tx_hash, hyle_output, program_id).
                                   \<lparr>bp_blob_tx_hash = blob_tx_hash,
                                    bp_original_proof_hash = ''todo?'',
                                    bp_hyle_output = hyle_output,
                                    bp_program_id = program_id\<rparr>)
                              (zip (map ho_tx_hash hyle_outputs) (zip hyle_outputs program_ids)),
                          vp_is_recursive = is_recursive\<rparr>\<rparr>)))
      | _ \<Rightarrow> Err NotAProofTx)"

fun run_tx_task :: "'s MempoolNode \<Rightarrow> KnownContracts \<Rightarrow> TxTask \<Rightarrow> (Transaction, MempoolError) Result" where
  "run_tx_task N kc (HashTx tx) = Ok tx"
| "run_tx_task N kc (ProofTx tx) = process_proof_tx N kc tx"

subsection \<open>Blocks under construction\<close>

text \<open>The data of a lane between two cuts, and the first hash that is missing.\<close>

partial_function (option) collect_entries ::
    "'s Storage \<Rightarrow> 's \<Rightarrow> LaneId \<Rightarrow> DataProposalHash option \<Rightarrow> cursor \<Rightarrow> DataProposal list \<Rightarrow>
     (DataProposal list \<times> DataProposalHash option, StorageError) Result option" where
  "collect_entries S s lane_id from_hash cur dps =
     (case entries_next S s lane_id from_hash cur of
        None \<Rightarrow> Some (Ok (dps, None))
      | Some (Inl e, cur') \<Rightarrow> Some (Err e)
      | Some (Inr (Entry _ dp), cur') \<Rightarrow> collect_entries S s lane_id from_hash cur' (dp # dps)
      | Some (Inr (MissingHash hash), cur') \<Rightarrow> Some (Ok (dps, Some hash)))"

definition from_hash_of :: "BlockUnderConstruction \<Rightarrow> LaneId \<Rightarrow> DataProposalHash option" where
  "from_hash_of buc lane_id =
     (case bu_from buc of
        None \<Rightarrow> None
      | Some f \<Rightarrow> map_option (\<lambda>(_, h, _, _). h) (List.find (\<lambda>(l, _, _, _). l = lane_id) f))"

fun full_data_of_lanes :: "'s MempoolNode \<Rightarrow> BlockUnderConstruction \<Rightarrow> Cut \<Rightarrow> ('s, (LaneId \<times> DataProposal list) list) mstep" where
  "full_data_of_lanes N buc [] = ret []"
| "full_data_of_lanes N buc ((lane_id, to_hash, _, _) # the_cut) =
     reads (\<lambda>m. let from_hash = from_hash_of buc lane_id in
       bnd (awaits (collect_entries (mn_storage N) (mp_lanes m) lane_id from_hash
              (metadata_stream (mn_storage N) (mp_lanes m) lane_id (Some to_hash)) [])) (\<lambda>(dps, missing_hash).
         case missing_hash of
           Some missing \<Rightarrow>
             thn (send_sync_request N lane_id from_hash (Some missing)) (bail (BlockDataMissing missing))
         | None \<Rightarrow>
             bnd (full_data_of_lanes N buc the_cut) (\<lambda>result. ret ((lane_id, dps) # result))))"

definition try_get_full_data_for_signed_block ::
    "'s MempoolNode \<Rightarrow> BlockUnderConstruction \<Rightarrow> ('s, (LaneId \<times> DataProposal list) list) mstep" where
  "try_get_full_data_for_signed_block N buc =
     full_data_of_lanes N buc (cp_cut (cc_consensus_proposal (bu_ccp buc)))"

definition build_signed_block_and_emit :: "'s MempoolNode \<Rightarrow> BlockUnderConstruction \<Rightarrow> ('s, unit) mstep" where
  "build_signed_block_and_emit N buc =
     bnd (try_get_full_data_for_signed_block N buc) (\<lambda>block_data.
       put_on_bus N (BlockEvent (BuiltSignedBlock
         \<lparr>sk_data_proposals = block_data,
          sk_consensus_proposal = cc_consensus_proposal (bu_ccp buc),
          sk_certificate = cc_certificate (bu_ccp buc)\<rparr>)))"

definition try_next_block :: "'s MempoolNode \<Rightarrow> ('s, unit) mstep" where
  "try_next_block N =
     reads (\<lambda>m.
       case mp_blocks_under_contruction m of
         [] \<Rightarrow> ret ()
       | buc # rest \<Rightarrow>
           thn (modify (\<lambda>m. m\<lparr>mp_blocks_under_contruction := rest\<rparr>))
             (bnd (caught (build_signed_block_and_emit N buc)) (\<lambda>r.
                if is_ok r then ret ()
                else modify (\<lambda>m. m\<lparr>mp_blocks_under_contruction := mp_blocks_under_contruction m @ [buc]\<rparr>))))"

definition try_to_send_full_signed_blocks :: "'s MempoolNode \<Rightarrow> ('s, unit) mstep" where
  "try_to_send_full_signed_blocks N =
     reads (\<lambda>m. for_each (\<lambda>_. try_next_block N) [0..<length (mp_blocks_under_contruction m)])"

definition set_ccp_build_start_height :: "'s MempoolNode \<Rightarrow> Slot \<Rightarrow> ('s, unit) mstep" where
  "set_ccp_build_start_height N slot =
     reads (\<lambda>m.
       if mp_buc_build_start_height m = None then
         bnd (caught (put_on_bus N (BlockEvent (StartedBuildingBlocks slot)))) (\<lambda>r.
           if is_ok r then modify (\<lambda>m. m\<lparr>mp_buc_build_start_height := Some slot\<rparr>) else ret ())
       else ret ())"

definition push_buc :: "Cut option \<Rightarrow> CommittedConsensusProposal \<Rightarrow> 's Mempool \<Rightarrow> 's Mempool" where
  "push_buc from ccp m =
     m\<lparr>mp_blocks_under_contruction := mp_blocks_under_contruction m @ [\<lparr>bu_from = from, bu_ccp = ccp\<rparr>]\<rparr>"

definition try_create_block_under_construction :: "'s MempoolNode \<Rightarrow> CommittedConsensusProposal \<Rightarrow> ('s, unit) mstep" where
  "try_create_block_under_construction N ccp =
     reads (\<lambda>m. let slot = cp_slot (cc_consensus_proposal ccp) in
       case mp_last_ccp m of
         Some last_buc \<Rightarrow>
           if slot \<le> cp_slot (cc_consensus_proposal last_buc) then ret ()
           else
             thn (modify (\<lambda>m. m\<lparr>mp_last_ccp := Some ccp\<rparr>))
               (if cp_slot (cc_consensus_proposal last_buc) = slot - 1 then
                  thn (set_ccp_build_start_height N slot)
                    (modify (push_buc (Some (cp_cut (cc_consensus_proposal last_buc))) ccp))
                else ret ())
       | None \<Rightarrow>
           thn (modify (\<lambda>m. m\<lparr>mp_last_ccp := Some ccp\<rparr>))
             (if slot = 1 then
                thn (set_ccp_build_start_height N slot) (modify (push_buc None ccp))
              else ret ()))"

definition clean_lane_of_cut :: "'s MempoolNode \<Rightarrow> Cut option \<Rightarrow> Car \<Rightarrow> ('s, unit) mstep" where
  "clean_lane_of_cut N previous_cut car =
     (case car of (lane_id, data_proposal_hash, cumul_size, _) \<Rightarrow>
        reads (\<lambda>m.
          if \<not> sto_contains (mn_storage N) (mp_lanes m) lane_id data_proposal_hash then
            (let previous_committed_dp_hash = last_committed_dp_hash lane_id previous_cut in
             if previous_committed_dp_hash = Some data_proposal_hash then ret ()
             else
               thn (in_lanes (clean_and_update_lane (mn_storage N) lane_id previous_committed_dp_hash data_proposal_hash cumul_size))
                 (send_sync_request N lane_id previous_committed_dp_hash (Some data_proposal_hash)))
          else ret ()))"

definition clean_and_update_lanes :: "'s MempoolNode \<Rightarrow> Cut \<Rightarrow> Cut option \<Rightarrow> ('s, unit) mstep" where
  "clean_and_update_lanes N the_cut previous_cut = for_each (clean_lane_of_cut N previous_cut) the_cut"

subsection \<open>Handlers\<close>

fun new_cut_of_lanes :: "'s MempoolNode \<Rightarrow> 's \<Rightarrow> Staking \<Rightarrow> Cut \<Rightarrow> LaneId list \<Rightarrow> (Cut, StorageError) Result option" where
  "new_cut_of_lanes N s staking previous_cut [] = Some (Ok [])"
| "new_cut_of_lanes N s staking previous_cut (lane_id # lane_ids) =
     (let previous_entry = List.find (\<lambda>(l, _, _, _). l = lane_id) previous_cut in
      case get_latest_car (mn_env N) (mn_crypto N) (mn_borsh N) (mn_storage N) s lane_id staking previous_entry of
        None \<Rightarrow> None
      | Some (Inl e) \<Rightarrow> Some (Err e)
      | Some (Inr car) \<Rightarrow>
          map_option (\<lambda>r. and_then r (\<lambda>the_cut.
            Ok ((case car of
                   Some (dp_hash, cumul_size, poda) \<Rightarrow> [(lane_id, dp_hash, cumul_size, poda)]
                 | None \<Rightarrow> (case previous_entry of Some lane \<Rightarrow> [lane] | None \<Rightarrow> [])) @ the_cut)))
            (new_cut_of_lanes N s staking previous_cut lane_ids))"

definition handle_querynewcut :: "'s MempoolNode \<Rightarrow> Staking \<Rightarrow> 's Mempool \<Rightarrow> (Cut, StorageError) Result option" where
  "handle_querynewcut N staking m =
     new_cut_of_lanes N (mp_lanes m) staking (case last_cut m of Some c \<Rightarrow> c | None \<Rightarrow> [])
       (get_lane_ids (mn_storage N) (mp_lanes m))"

definition handle_consensus_event :: "'s MempoolNode \<Rightarrow> CommittedConsensusProposal \<Rightarrow> ('s, unit) mstep" where
  "handle_consensus_event N cpp =
     thn (modify (\<lambda>m. m\<lparr>mp_staking := cc_staking cpp\<rparr>))
       (reads (\<lambda>m. let the_cut = cp_cut (cc_consensus_proposal cpp); previous_cut = last_cut m in
          thn (try_create_block_under_construction N cpp)
            (thn (try_to_send_full_signed_blocks N)
              (clean_and_update_lanes N the_cut previous_cut))))"

definition on_mempool_sync_request ::
    "'s MempoolNode \<Rightarrow> DataProposalHash option \<Rightarrow> DataProposalHash option \<Rightarrow> ValidatorPublicKey \<Rightarrow> ('s, unit) mstep" where
  "on_mempool_sync_request N from to validator =
     reads (\<lambda>m.
       case (case to of Some h \<Rightarrow> Some h | None \<Rightarrow> get_lane_hash_tip (mn_storage N) (mp_lanes m) (own_lane_id N)) of
         None \<Rightarrow> ret ()
       | Some to \<Rightarrow> put_on_bus N (ToSync \<lparr>sq_from = from, sq_to = to, sq_validator = validator\<rparr>))"

definition take_buffered_proposals :: "LaneId \<Rightarrow> 's Mempool \<Rightarrow> DataProposal list \<times> 's Mempool" where
  "take_buffered_proposals lane_id m =
     (case map_of (mp_buffered_proposals m) lane_id of
        Some waiting_proposals \<Rightarrow>
          (waiting_proposals, m\<lparr>mp_buffered_proposals := bt_insert lane_id [] (mp_buffered_proposals m)\<rparr>)
      | None \<Rightarrow> ([], m))"

definition retry_proposal :: "'s MempoolNode \<Rightarrow> LaneId \<Rightarrow> DataProposal \<Rightarrow> ('s, unit) mstep" where
  "retry_proposal N lane_id waiting =
     reads (\<lambda>m. if sto_contains (mn_storage N) (mp_lanes m) lane_id (dp_hashed N waiting) then ret ()
       else on_data_proposal N lane_id (dp_hashed N waiting) waiting)"

definition on_mempool_sync_reply ::
    "'s MempoolNode \<Rightarrow> ValidatorPublicKey \<Rightarrow> LaneEntryMetadata \<Rightarrow> DataProposal \<Rightarrow> ('s, unit) mstep" where
  "on_mempool_sync_reply N sender_validator metadata data_proposal =
     (let lane_id = sender_validator;
          lane_operator = get_lane_operator lane_id;
          expected_message = (dp_hashed N data_proposal, le_cumul_size metadata)
      in
      if \<not> list_ex (\<lambda>s. vs_validator (sg_signature s) = lane_operator \<and> sg_msg s = expected_message) (le_signatures metadata)
      then bail MissingOperatorSignature
      else
        thn (on_lanes (sto_put_no_verification (mn_storage N) lane_id (metadata, data_proposal)))
          (reads (\<lambda>m.
             case take_buffered_proposals lane_id m of (waiting_proposals, m') \<Rightarrow>
               thn (modify (\<lambda>_. m'))
                 (thn (for_each (retry_proposal N lane_id) waiting_proposals)
                   (try_to_send_full_signed_blocks N)))))"

definition mempool_handle_net_message :: "'s MempoolNode \<Rightarrow> MempoolNetMessage MsgWithHeader \<Rightarrow> ('s, unit) mstep" where
  "mempool_handle_net_message N msg =
     (let validator = vs_validator (sg_signature (mw_header msg)) in
      case mw_msg msg of
        NM_DataProposal data_proposal_hash data_proposal \<Rightarrow>
          on_data_proposal N (get_lane validator) data_proposal_hash data_proposal
      | NM_DataVote vdag \<Rightarrow> on_data_vote N vdag
      | NM_PoDAUpdate data_proposal_hash signatures \<Rightarrow> on_poda_update N (get_lane validator) data_proposal_hash signatures
      | NM_SyncRequest from to \<Rightarrow> on_mempool_sync_request N from to validator
      | NM_SyncReply metadata data_proposal \<Rightarrow> on_mempool_sync_reply N validator metadata data_proposal)"

subsection \<open>The event loop\<close>

text \<open>
  One turn of the loop. An error of a handler is logged; a joined task that panicked or failed is
  logged as well. The own proposals in preparation are joined in any order, so the event says
  which.
\<close>

datatype MempoolEvent =
    NetEvent "MempoolNetMessage MsgWithHeader"
  | ApiTx Transaction
  | TcpTx Transaction
  | CommitEvent CommittedConsensusProposal
  | NewBlockEvent Block
  | QueryNewCut Staking
  | DpJoined KnownContracts
  | TxJoined KnownContracts
  | OwnDpJoined nat
  | NewDpTick
  | DisseminateTick

definition logged :: "('s, 'a) mstep \<Rightarrow> ('s, unit) mstep" where
  "logged f = bnd (caught f) (\<lambda>_. ret ())"

definition on_new_block :: "'s MempoolNode \<Rightarrow> Block \<Rightarrow> ('s, unit) mstep" where
  "on_new_block N block =
     thn (if mn_lane_manager N then
            reads (\<lambda>m. bnd (unwrap (process_block (mp_staking m) block)) (\<lambda>(staking, _). modify (\<lambda>m. m\<lparr>mp_staking := staking\<rparr>)))
          else ret ())
       (modify (\<lambda>m.
          fold (\<lambda>(contract_name, program_id). handle_contract_update contract_name program_id) (bk_updated_program_ids block)
            (fold (\<lambda>(_, _, contract, _). handle_contract_registration contract) (bk_registered_contracts block) m)))"

definition on_dp_joined :: "'s MempoolNode \<Rightarrow> KnownContracts \<Rightarrow> ('s, unit) mstep" where
  "on_dp_joined N kc =
     reads (\<lambda>m.
       case mp_processing_dps m of
         [] \<Rightarrow> ret ()
       | task # tasks \<Rightarrow>
           thn (modify (\<lambda>m. m\<lparr>mp_processing_dps := tasks\<rparr>))
             (case run_dp_task N kc task of
                Some (Inr event) \<Rightarrow> logged (handle_internal_event N event)
              | _ \<Rightarrow> ret ()))"

definition on_tx_joined :: "'s MempoolNode \<Rightarrow> KnownContracts \<Rightarrow> ('s, unit) mstep" where
  "on_tx_joined N kc =
     reads (\<lambda>m.
       case mp_processing_txs m of
         [] \<Rightarrow> ret ()
       | task # tasks \<Rightarrow>
           thn (modify (\<lambda>m. m\<lparr>mp_processing_txs := tasks\<rparr>))
             (case run_tx_task N kc task of
                Inr tx \<Rightarrow> logged (on_new_tx N tx)
              | Inl _ \<Rightarrow> ret ()))"

definition on_own_dp_joined :: "'s MempoolNode \<Rightarrow> nat \<Rightarrow> ('s, unit) mstep" where
  "on_own_dp_joined N i =
     reads (\<lambda>m.
       if i < length (mp_own_data_proposal_in_preparation m) then
         (let own_dp = mp_own_data_proposal_in_preparation m ! i in
          thn (modify (\<lambda>m. m\<lparr>mp_own_data_proposal_in_preparation :=
                 take i (mp_own_data_proposal_in_preparation m) @ drop (Suc i) (mp_own_data_proposal_in_preparation m)\<rparr>))
            (logged (resume_new_data_proposal N own_dp (dp_hashed N own_dp))))
       else ret ())"

fun mempool_event :: "'s MempoolNode \<Rightarrow> MempoolEvent \<Rightarrow> ('s, unit) mstep" where
  "mempool_event N (NetEvent msg) = logged (mempool_handle_net_message N msg)"
| "mempool_event N (ApiTx tx) = logged (on_new_api_tx tx)"
| "mempool_event N (TcpTx tx) = logged (on_new_api_tx tx)"
| "mempool_event N (CommitEvent cpp) = logged (handle_consensus_event N cpp)"
| "mempool_event N (NewBlockEvent block) = on_new_block N block"
| "mempool_event N (QueryNewCut staking) =
     reads (\<lambda>m. bnd (unwrap (handle_querynewcut N staking m)) (\<lambda>r.
       modify (\<lambda>m. m\<lparr>mp_bus := mp_bus m @ [NewCut (map_err StorageFailed r)]\<rparr>)))"
| "mempool_event N (DpJoined kc) = on_dp_joined N kc"
| "mempool_event N (TxJoined kc) = on_tx_joined N kc"
| "mempool_event N (OwnDpJoined i) = on_own_dp_joined N i"
| "mempool_event N NewDpTick = logged (prepare_new_data_proposal N)"
| "mempool_event N DisseminateTick = logged (redisseminate_oldest_data_proposal N)"

text \<open>The clock and the room left in the channels differ from event to event.\<close>

type_synonym moment = "u128 \<times> (MempoolOutput \<Rightarrow> bool)"

definition mempool_at :: "'s MempoolNode \<Rightarrow> moment \<Rightarrow> 's MempoolNode" where
  "mempool_at N mo = N\<lparr>mn_now := fst mo, mn_bus_accepts := snd mo\<rparr>"

fun run_mempool :: "'s MempoolNode \<Rightarrow> (moment \<times> MempoolEvent) list \<Rightarrow> ('s, unit) mstep" where
  "run_mempool N [] = ret ()"
| "run_mempool N ((mo, ev) # evs) = thn (mempool_event (mempool_at N mo) ev) (run_mempool N evs)"

end
