(* ===== verification/Mempool_Lanes.thy ===== *)
theory Mempool_Lanes
  imports Mempool_Storage
begin

text \<open>
  The two implementations of the lane storage, in memory (\<open>src/mempool/storage_memory.rs\<close>) and on
  the key-value store (\<open>storage_fjall.rs\<close>), and their interpretations of \<open>lane_storage\<close>. A partition
  of the store maps the text key of an entry to the value that was encoded under it; the accesses
  that fail are given by a predicate on the keys of each partition.
\<close>

subsection \<open>In memory\<close>

record MemoryStorage =
  ms_lanes_tip :: LanesTip
  ms_by_hash :: "(LaneId, (DataProposalHash, LaneEntry) hashmap) hashmap"

definition ms_contains :: "MemoryStorage \<Rightarrow> LaneId \<Rightarrow> DataProposalHash \<Rightarrow> bool" where
  "ms_contains s lane_id dp_hash =
     (case map_of (ms_by_hash s) lane_id of Some lane \<Rightarrow> hm_contains lane dp_hash | None \<Rightarrow> False)"

definition ms_get_metadata_by_hash ::
    "MemoryStorage \<Rightarrow> LaneId \<Rightarrow> DataProposalHash \<Rightarrow> (LaneEntryMetadata option, StorageError) Result" where
  "ms_get_metadata_by_hash s lane_id dp_hash =
     (case map_of (ms_by_hash s) lane_id of
        Some lane \<Rightarrow> Ok (map_option fst (map_of lane dp_hash))
      | None \<Rightarrow> Err (LaneNotFound lane_id))"

definition ms_get_dp_by_hash ::
    "MemoryStorage \<Rightarrow> LaneId \<Rightarrow> DataProposalHash \<Rightarrow> (DataProposal option, StorageError) Result" where
  "ms_get_dp_by_hash s lane_id dp_hash =
     (case map_of (ms_by_hash s) lane_id of
        Some lane \<Rightarrow> Ok (map_option snd (map_of lane dp_hash))
      | None \<Rightarrow> Err (LaneNotFound lane_id))"

definition ms_update_lane_tip :: "LaneId \<Rightarrow> DataProposalHash \<Rightarrow> LaneBytesSize \<Rightarrow> MemoryStorage \<Rightarrow> MemoryStorage" where
  "ms_update_lane_tip lane_id dp_hash lane_size s = s\<lparr>ms_lanes_tip := bt_insert lane_id (dp_hash, lane_size) (ms_lanes_tip s)\<rparr>"

definition ms_pop :: "LaneId \<Rightarrow> MemoryStorage \<Rightarrow> MemoryStorage \<times> ((DataProposalHash \<times> LaneEntry) option, StorageError) Result" where
  "ms_pop validator s =
     (case map_of (ms_lanes_tip s) validator of
        None \<Rightarrow> (s, Ok None)
      | Some (lane_tip, _) \<Rightarrow>
          (case map_of (ms_by_hash s) validator of
             None \<Rightarrow> (s, Ok None)
           | Some lane \<Rightarrow>
               (case map_of lane lane_tip of
                  None \<Rightarrow> (s, Ok None)
                | Some entry \<Rightarrow>
                    (ms_update_lane_tip validator lane_tip (le_cumul_size (fst entry))
                       (s\<lparr>ms_by_hash := hm_insert validator (hm_remove lane_tip lane) (ms_by_hash s)\<rparr>),
                     Ok (Some (lane_tip, entry))))))"

definition ms_put_no_verification :: "Env \<Rightarrow> LaneId \<Rightarrow> LaneEntry \<Rightarrow> MemoryStorage \<Rightarrow> MemoryStorage \<times> (unit, StorageError) Result" where
  "ms_put_no_verification E lane_id entry s =
     (let dp_hash = DataProposal_hashed E (snd entry);
          lane = (case map_of (ms_by_hash s) lane_id of Some lane \<Rightarrow> lane | None \<Rightarrow> [])
      in (s\<lparr>ms_by_hash := hm_insert lane_id (hm_insert dp_hash entry lane) (ms_by_hash s)\<rparr>, Ok ()))"

definition ms_add_signatures ::
    "LaneId \<Rightarrow> DataProposalHash \<Rightarrow> ValidatorDAG list \<Rightarrow> MemoryStorage \<Rightarrow> MemoryStorage \<times> (ValidatorDAG list, StorageError) Result" where
  "ms_add_signatures lane_id dp_hash vote_msgs s =
     (case map_of (ms_by_hash s) lane_id of
        None \<Rightarrow> (s, Err (LaneNotFound lane_id))
      | Some lane \<Rightarrow>
          (case map_of lane dp_hash of
             None \<Rightarrow> (s, Err (EntryNotFound dp_hash))
           | Some (metadata, data_proposal) \<Rightarrow>
               (let metadata' = add_votes dp_hash vote_msgs metadata in
                (s\<lparr>ms_by_hash := hm_insert lane_id (hm_insert dp_hash (metadata', data_proposal) lane) (ms_by_hash s)\<rparr>,
                 Ok (le_signatures metadata')))))"

definition memory_storage :: "Env \<Rightarrow> MemoryStorage Storage" where
  "memory_storage E =
     \<lparr>sto_contains = ms_contains,
      sto_get_metadata_by_hash = ms_get_metadata_by_hash,
      sto_get_dp_by_hash = ms_get_dp_by_hash,
      sto_pop = ms_pop,
      sto_put_no_verification = ms_put_no_verification E,
      sto_add_signatures = ms_add_signatures,
      sto_lanes_tip = ms_lanes_tip,
      sto_update_lane_tip = ms_update_lane_tip\<rparr>"

subsection \<open>On the key-value store\<close>

record FjallStorage =
  fj_lanes_tip :: LanesTip
  fj_by_hash_metadata :: "(string, LaneEntryMetadata) hashmap"
  fj_by_hash_data :: "(string, DataProposal) hashmap"
  fj_metadata_io :: "string \<Rightarrow> bool"
  fj_data_io :: "string \<Rightarrow> bool"

text \<open>\<open>format!("{lane_id}:{dp_hash}")\<close>; a lane is displayed as its key is, by its first bytes.\<close>

definition fj_key :: "Env \<Rightarrow> LaneId \<Rightarrow> DataProposalHash \<Rightarrow> string" where
  "fj_key E lane_id dp_hash = ValidatorPublicKey_display E lane_id @ '':'' @ dp_hash"

definition fj_contains :: "Env \<Rightarrow> FjallStorage \<Rightarrow> LaneId \<Rightarrow> DataProposalHash \<Rightarrow> bool" where
  "fj_contains E s lane_id dp_hash =
     (let key = fj_key E lane_id dp_hash in
      if fj_metadata_io s key then hm_contains (fj_by_hash_metadata s) key else False)"

definition fj_get_metadata_by_hash ::
    "Env \<Rightarrow> FjallStorage \<Rightarrow> LaneId \<Rightarrow> DataProposalHash \<Rightarrow> (LaneEntryMetadata option, StorageError) Result" where
  "fj_get_metadata_by_hash E s lane_id dp_hash =
     (let key = fj_key E lane_id dp_hash in
      if fj_metadata_io s key then Ok (map_of (fj_by_hash_metadata s) key) else Err StorageIo)"

definition fj_get_dp_by_hash ::
    "Env \<Rightarrow> FjallStorage \<Rightarrow> LaneId \<Rightarrow> DataProposalHash \<Rightarrow> (DataProposal option, StorageError) Result" where
  "fj_get_dp_by_hash E s lane_id dp_hash =
     (let key = fj_key E lane_id dp_hash in
      if fj_data_io s key then Ok (map_of (fj_by_hash_data s) key) else Err StorageIo)"

definition fj_update_lane_tip :: "LaneId \<Rightarrow> DataProposalHash \<Rightarrow> LaneBytesSize \<Rightarrow> FjallStorage \<Rightarrow> FjallStorage" where
  "fj_update_lane_tip lane_id dp_hash lane_size s = s\<lparr>fj_lanes_tip := bt_insert lane_id (dp_hash, lane_size) (fj_lanes_tip s)\<rparr>"

definition fj_pop :: "Env \<Rightarrow> LaneId \<Rightarrow> FjallStorage \<Rightarrow> FjallStorage \<times> ((DataProposalHash \<times> LaneEntry) option, StorageError) Result" where
  "fj_pop E lane_id s =
     (case map_of (fj_lanes_tip s) lane_id of
        None \<Rightarrow> (s, Ok None)
      | Some (lane_hash_tip, _) \<Rightarrow>
          (case fj_get_metadata_by_hash E s lane_id lane_hash_tip of
             Inl e \<Rightarrow> (s, Err e)
           | Inr None \<Rightarrow> (s, Ok None)
           | Inr (Some lane_entry) \<Rightarrow>
               (let key = fj_key E lane_id lane_hash_tip;
                    s' = s\<lparr>fj_by_hash_metadata := hm_remove key (fj_by_hash_metadata s)\<rparr>
                in case fj_get_dp_by_hash E s' lane_id lane_hash_tip of
                     Inl e \<Rightarrow> (s', Err e)
                   | Inr None \<Rightarrow> (s', Err (DataNotFound lane_hash_tip))
                   | Inr (Some dp) \<Rightarrow>
                       (fj_update_lane_tip lane_id lane_hash_tip (le_cumul_size lane_entry)
                          (s'\<lparr>fj_by_hash_data := hm_remove key (fj_by_hash_data s')\<rparr>),
                        Ok (Some (lane_hash_tip, lane_entry, dp))))))"

definition fj_put_no_verification :: "Env \<Rightarrow> LaneId \<Rightarrow> LaneEntry \<Rightarrow> FjallStorage \<Rightarrow> FjallStorage \<times> (unit, StorageError) Result" where
  "fj_put_no_verification E lane_id entry s =
     (let (lane_entry, data_proposal) = entry;
          key = fj_key E lane_id (DataProposal_hashed E data_proposal)
      in
      if \<not> fj_metadata_io s key then (s, Err StorageIo)
      else
        (let s' = s\<lparr>fj_by_hash_metadata := hm_insert key lane_entry (fj_by_hash_metadata s)\<rparr> in
         if \<not> fj_data_io s key then (s', Err StorageIo)
         else (s'\<lparr>fj_by_hash_data := hm_insert key data_proposal (fj_by_hash_data s')\<rparr>, Ok ())))"

definition fj_add_signatures ::
    "Env \<Rightarrow> LaneId \<Rightarrow> DataProposalHash \<Rightarrow> ValidatorDAG list \<Rightarrow> FjallStorage \<Rightarrow>
     FjallStorage \<times> (ValidatorDAG list, StorageError) Result" where
  "fj_add_signatures E lane_id dp_hash vote_msgs s =
     (let key = fj_key E lane_id dp_hash in
      if \<not> fj_metadata_io s key then (s, Err StorageIo)
      else case map_of (fj_by_hash_metadata s) key of
             None \<Rightarrow> (s, Err (EntryNotFound dp_hash))
           | Some lem \<Rightarrow>
               (let lem' = add_votes dp_hash vote_msgs lem in
                (s\<lparr>fj_by_hash_metadata := hm_insert key lem' (fj_by_hash_metadata s)\<rparr>, Ok (le_signatures lem'))))"

definition fjall_storage :: "Env \<Rightarrow> FjallStorage Storage" where
  "fjall_storage E =
     \<lparr>sto_contains = fj_contains E,
      sto_get_metadata_by_hash = fj_get_metadata_by_hash E,
      sto_get_dp_by_hash = fj_get_dp_by_hash E,
      sto_pop = fj_pop E,
      sto_put_no_verification = fj_put_no_verification E,
      sto_add_signatures = fj_add_signatures E,
      sto_lanes_tip = fj_lanes_tip,
      sto_update_lane_tip = fj_update_lane_tip\<rparr>"

text \<open>The handle of the sync submodule has its own, empty \<open>lanes_tip\<close>.\<close>

definition new_handle :: "FjallStorage \<Rightarrow> FjallStorage" where
  "new_handle s = s\<lparr>fj_lanes_tip := []\<rparr>"

subsection \<open>Both meet the contract\<close>

definition ms_entry :: "MemoryStorage \<Rightarrow> LaneId \<times> DataProposalHash \<Rightarrow> LaneEntry option" where
  "ms_entry s k = (case map_of (ms_by_hash s) (fst k) of None \<Rightarrow> None | Some lane \<Rightarrow> map_of lane (snd k))"

definition ms_meta :: "MemoryStorage \<Rightarrow> LaneId \<times> DataProposalHash \<Rightarrow> LaneEntryMetadata option" where
  "ms_meta s k = map_option fst (ms_entry s k)"

definition ms_data :: "MemoryStorage \<Rightarrow> LaneId \<times> DataProposalHash \<Rightarrow> DataProposal option" where
  "ms_data s k = map_option snd (ms_entry s k)"

definition ms_readable :: "MemoryStorage \<Rightarrow> LaneId \<times> DataProposalHash \<Rightarrow> bool" where
  "ms_readable s k \<longleftrightarrow> True"

lemmas ms_view = ms_entry_def ms_meta_def ms_data_def ms_readable_def memory_storage_def get_lane_hash_tip_def hm_simps
  hm_contains_def ms_contains_def ms_get_metadata_by_hash_def ms_get_dp_by_hash_def

lemmas ms_ops = ms_update_lane_tip_def ms_pop_def ms_put_no_verification_def ms_add_signatures_def

interpretation mem: lane_storage "memory_storage E" E Pair ms_meta ms_data ms_readable for E
  by unfold_locales
    (auto simp: ms_view ms_ops fun_eq_iff Let_def split: option.splits prod.splits if_splits)

definition fj_meta :: "FjallStorage \<Rightarrow> string \<Rightarrow> LaneEntryMetadata option" where
  "fj_meta s k = map_of (fj_by_hash_metadata s) k"

definition fj_data :: "FjallStorage \<Rightarrow> string \<Rightarrow> DataProposal option" where
  "fj_data s k = map_of (fj_by_hash_data s) k"

lemmas fj_view = fj_meta_def fj_data_def fjall_storage_def get_lane_hash_tip_def hm_simps
  hm_contains_def fj_contains_def fj_get_metadata_by_hash_def fj_get_dp_by_hash_def

lemmas fj_ops = fj_update_lane_tip_def fj_pop_def fj_put_no_verification_def fj_add_signatures_def

interpretation fj: lane_storage "fjall_storage E" E "fj_key E" fj_meta fj_data fj_metadata_io for E
  by unfold_locales
    (auto simp: fj_view fj_ops fun_eq_iff map_le_def Let_def split: option.splits prod.splits if_splits)

end
