(* ===== verification/Mempool_Sample.thy ===== *)
theory Mempool_Sample
  imports Mempool Mempool_Lanes Consensus_Safety Contract_Sdk
begin

text \<open>
  A small mempool at which the theorems with hypotheses are applied: the node \<open>[2]\<close> on the key-value
  store, with a lane of the bonded validator \<open>[9]\<close> and a lane of \<open>[7]\<close>, which has no stake, each
  with one proposal that \<open>[9]\<close> has voted for.
\<close>

lemma hex_digit_colon: "d < 16 \<Longrightarrow> hex_digit d \<noteq> CHR '':''"
proof
  assume "d < 16" "hex_digit d = CHR '':''"
  then have "unat d < 16" "(of_char (hex_digit d) :: nat) = 58" by (simp_all add: word_less_nat_alt)
  then show False by (auto simp: hex_digit_def split: if_splits)
qed

lemma hex_text_colon: "CHR '':'' \<notin> set (hex_text bs)"
proof -
  have "CHR '':'' \<noteq> hex_digit (drop_bit 4 b)" "CHR '':'' \<noteq> hex_digit (and b 15)" for b :: u8
    using hex_digit_colon nibbles_less [of b] and_15 [of b] by metis+
  then show ?thesis by (simp add: hex_text_def)
qed

definition sample_hex_env :: Env where
  "sample_hex_env = sample_env\<lparr>hex_encode := hex_text\<rparr>"

lemma sample_hex_blst [simp]:
  "blst_pk_ok sample_hex_env k" "blst_sig_ok sample_hex_env sig" "blst_sig_verify sample_hex_env d sig k"
  by (simp_all add: sample_hex_env_def sample_env_def)

lemma sample_hex_laws: "blst_laws sample_hex_env (sample_crypto key)"
  by (simp add: blst_laws_def sample_crypto_def)

lemma sample_display: "CHR '':'' \<notin> set (ValidatorPublicKey_display sample_hex_env l)"
  by (simp add: ValidatorPublicKey_display_def sample_hex_env_def hex_text_colon)

definition sample_mempool_node :: "FjallStorage MempoolNode" where
  "sample_mempool_node =
     \<lparr>mn_env = sample_hex_env, mn_crypto = sample_crypto [2], mn_borsh = sample_borsh, mn_enc_votes = (\<lambda>_. Some []),
      mn_enc_metadata = (\<lambda>_. Some []), mn_sizes = \<lparr>sz_blob_tx = (\<lambda>_. 10), sz_proof_tx = (\<lambda>_. 10)\<rparr>,
      mn_storage = fjall_storage sample_hex_env, mn_now = 1000, mn_bus_accepts = (\<lambda>_. True),
      mn_test_proof = (\<lambda>_. Some [sample_output]), mn_verify = (\<lambda>_ _ _. None), mn_verify_recursive = None, mn_lane_manager = False\<rparr>"

definition sample_dp :: DataProposal where
  "sample_dp = \<lparr>dp_parent_data_proposal_hash = None, dp_txs = [Transaction_wrap (TD_Blob sample_tx)]\<rparr>"

definition sample_hash :: DataProposalHash where
  "sample_hash = DataProposal_hashed sample_hex_env sample_dp"

definition sample_dag :: "ValidatorPublicKey \<Rightarrow> ValidatorDAG" where
  "sample_dag v = \<lparr>sg_msg = (sample_hash, 10), sg_signature = \<lparr>vs_signature = as_bytes sample_hash, vs_validator = v\<rparr>\<rparr>"

definition sample_metadata :: LaneEntryMetadata where
  "sample_metadata = \<lparr>le_parent_data_proposal_hash = None, le_cumul_size = 10, le_signatures = [sample_dag [9]]\<rparr>"

definition sample_lanes :: "LaneId \<Rightarrow> FjallStorage" where
  "sample_lanes l =
     \<lparr>fj_lanes_tip = [(l, sample_hash, 10)],
      fj_by_hash_metadata = [(fj_key sample_hex_env l sample_hash, sample_metadata)],
      fj_by_hash_data = [(fj_key sample_hex_env l sample_hash, sample_dp)],
      fj_metadata_io = (\<lambda>_. True), fj_data_io = (\<lambda>_. True)\<rparr>"

definition sample_mempool :: "LaneId \<Rightarrow> FjallStorage Mempool" where
  "sample_mempool l =
     \<lparr>mp_processing_txs = [], mp_waiting_dissemination_txs = [], mp_own_data_proposal_in_preparation = [],
      mp_buffered_proposals = [], mp_buffered_podas = [], mp_processing_dps = [], mp_cached_dp_votes = [],
      mp_blocks_under_contruction = [], mp_buc_build_start_height = None, mp_last_ccp = None, mp_staking = sample_bonds,
      mp_known_contracts = [], mp_lanes = sample_lanes l, mp_bus = []\<rparr>"

lemma sample_mempool_simps [simp]:
  "mn_env sample_mempool_node = sample_hex_env" "mn_crypto sample_mempool_node = sample_crypto [2]"
  "mn_borsh sample_mempool_node = sample_borsh" "mn_storage sample_mempool_node = fjall_storage sample_hex_env"
  "mn_bus_accepts sample_mempool_node out" "dp_hashed sample_mempool_node sample_dp = sample_hash"
  "mp_lanes (sample_mempool l) = sample_lanes l" "mp_bus (sample_mempool l) = []" "mp_staking (sample_mempool l) = sample_bonds"
  "mp_last_ccp (sample_mempool l) = None" "mp_blocks_under_contruction (sample_mempool l) = []"
  "enc_poda sample_borsh (h, sz) = Some (as_bytes h)" "enc_header sample_borsh x = Some []"
  by (simp_all add: sample_mempool_node_def sample_mempool_def dp_hashed_def sample_hash_def sample_borsh_def)

lemma sample_lanes_simps [simp]:
  "fj_get_metadata_by_hash sample_hex_env (sample_lanes l) l h = Ok (if h = sample_hash then Some sample_metadata else None)"
  "fj_get_dp_by_hash sample_hex_env (sample_lanes l) l h = Ok (if h = sample_hash then Some sample_dp else None)"
  "fj_contains sample_hex_env (sample_lanes l) l h = (h = sample_hash)"
  "fj_lanes_tip (sample_lanes l) = [(l, sample_hash, 10)]"
  by (auto simp: fj_get_metadata_by_hash_def fj_get_dp_by_hash_def fj_contains_def sample_lanes_def fj_key_def hm_contains_def Let_def)

lemma fjall_storage_simps:
  "sto_contains (fjall_storage E) = fj_contains E" "sto_get_metadata_by_hash (fjall_storage E) = fj_get_metadata_by_hash E"
  "sto_get_dp_by_hash (fjall_storage E) = fj_get_dp_by_hash E" "sto_put_no_verification (fjall_storage E) = fj_put_no_verification E"
  "sto_lanes_tip (fjall_storage E) = fj_lanes_tip"
  by (simp_all add: fjall_storage_def)

lemma sample_sign:
  "enc msg = Some bs \<Longrightarrow> sign (sample_crypto k) enc msg = Ok \<lparr>sg_msg = msg, sg_signature = \<lparr>vs_signature = bs, vs_validator = k\<rparr>\<rparr>"
  by (simp add: sign_def sample_crypto_def)

definition sample_cut :: "LaneId \<Rightarrow> Cut" where
  "sample_cut l = [(l, sample_hash, 10, \<lparr>ag_signature = [], ag_validators = [[9]]\<rparr>)]"

definition sample_ccp :: "LaneId \<Rightarrow> CommittedConsensusProposal" where
  "sample_ccp l =
     \<lparr>cc_staking = sample_bonds,
      cc_consensus_proposal = sample_proposal\<lparr>cp_cut := sample_cut l\<rparr>,
      cc_certificate = \<lparr>ag_signature = [], ag_validators = [[9]]\<rparr>\<rparr>"

lemma sample_ccp_simps [simp]:
  "cp_cut (cc_consensus_proposal (sample_ccp l)) = sample_cut l" "cp_slot (cc_consensus_proposal (sample_ccp l)) = 1"
  "cc_staking (sample_ccp l) = sample_bonds"
  by (simp_all add: sample_ccp_def)

lemma sample_metadata_simps [simp]:
  "le_parent_data_proposal_hash sample_metadata = None" "le_cumul_size sample_metadata = 10"
  "le_signatures sample_metadata = [sample_dag [9]]" "dp_parent_data_proposal_hash sample_dp = None" "dp_txs sample_dp \<noteq> []"
  by (simp_all add: sample_metadata_def sample_dp_def)

text \<open>The commit of the sample cut builds its block.\<close>

definition sample_buc :: "LaneId \<Rightarrow> BlockUnderConstruction" where
  "sample_buc l = \<lparr>bu_from = None, bu_ccp = sample_ccp l\<rparr>"

definition sample_built :: "LaneId \<Rightarrow> SignedBlock" where
  "sample_built l =
     \<lparr>sk_data_proposals = [(l, [sample_dp])], sk_consensus_proposal = cc_consensus_proposal (sample_ccp l),
      sk_certificate = cc_certificate (sample_ccp l)\<rparr>"

lemma sample_collect:
  "collect_entries (fjall_storage sample_hex_env) (sample_lanes l) l None (Some sample_hash) [] = Some (Ok ([sample_dp], None))"
  by (simp add: collect_entries.simps entries_next_def metadata_next_def fjall_storage_simps)

lemma sample_build:
  assumes "mn_storage N = fjall_storage sample_hex_env" and "\<And>out. mn_bus_accepts N out" and "mp_lanes m = sample_lanes l"
  shows "build_signed_block_and_emit N (sample_buc l) m =
    Some (m\<lparr>mp_bus := mp_bus m @ [BlockEvent (BuiltSignedBlock (sample_built l))]\<rparr>, Ok ())"
  using assms by (simp add: build_signed_block_and_emit_def try_get_full_data_for_signed_block_def sample_buc_def sample_cut_def
      step_eval awaits_def metadata_stream_def from_hash_of_def sample_collect put_on_bus_def sample_built_def Let_def)

definition sample_commit :: "(moment \<times> MempoolEvent) list" where
  "sample_commit = [((1000, \<lambda>_. True), CommitEvent (sample_ccp [9]))]"

lemma sample_run:
  "\<exists>m'. run_mempool sample_mempool_node sample_commit (sample_mempool [9]) = Some (m', Ok ()) \<and> mp_lanes m' = sample_lanes [9] \<and>
     mp_bus m' = [BlockEvent (StartedBuildingBlocks 1), BlockEvent (BuiltSignedBlock (sample_built [9]))]"
proof -
  let ?N = "mempool_at sample_mempool_node (1000, \<lambda>_. True)"
  let ?m = "(sample_mempool [9])\<lparr>mp_staking := sample_bonds, mp_last_ccp := Some (sample_ccp [9]), mp_buc_build_start_height := Some 1,
    mp_bus := [BlockEvent (StartedBuildingBlocks 1)], mp_blocks_under_contruction := [sample_buc [9]]\<rparr>"
  have N: "mn_storage ?N = fjall_storage sample_hex_env" "mn_bus_accepts ?N out" for out
    by (simp_all add: mempool_at_def)
  have create: "try_create_block_under_construction ?N (sample_ccp [9]) ((sample_mempool [9])\<lparr>mp_staking := sample_bonds\<rparr>) = Some (?m, Ok ())"
    by (simp add: try_create_block_under_construction_def set_ccp_build_start_height_def step_eval caught_def put_on_bus_def N
        push_buc_def sample_buc_def sample_mempool_def)
  show ?thesis
    by (simp add: sample_commit_def logged_def caught_def handle_consensus_event_def step_eval create Let_def
        try_to_send_full_signed_blocks_def try_next_block_def sample_build N clean_and_update_lanes_def clean_lane_of_cut_def fjall_storage_simps
        sample_cut_def)
qed

end
