(* ===== verification/Mempool_Blocks.thy ===== *)
theory Mempool_Blocks
  imports Mempool_Sample
begin

text \<open>
  The blocks the mempool builds: a built block has the complete segment of every lane between the
  two cuts, and a run builds at most one block for every committed proposal. The locale
  \<open>mempool_transition\<close> lifts a relation between states from the primitive updates to the handlers of
  the event loop.
\<close>

subsection \<open>Segments of a lane\<close>

primrec linked_chain :: "Env \<Rightarrow> DataProposalHash option \<Rightarrow> DataProposal list \<Rightarrow> bool" where
  "linked_chain E p [] = True"
| "linked_chain E p (dp # dps) = (dp_parent_data_proposal_hash dp = p \<and> linked_chain E (Some (DataProposal_hashed E dp)) dps)"

definition chain_end :: "Env \<Rightarrow> DataProposalHash option \<Rightarrow> DataProposal list \<Rightarrow> DataProposalHash option" where
  "chain_end E p dps = (if dps = [] then p else Some (DataProposal_hashed E (last dps)))"

lemma chain_end_Nil [simp]: "chain_end E p [] = p"
  by (simp add: chain_end_def)

lemma chain_end_snoc [simp]: "chain_end E p (dps @ [dp]) = Some (DataProposal_hashed E dp)"
  by (simp add: chain_end_def)

lemma chain_end_Cons: "chain_end E p (dp # dps) = chain_end E (Some (DataProposal_hashed E dp)) dps"
  by (simp add: chain_end_def)

lemma linked_chain_snoc:
  "linked_chain E p (dps @ [dp]) \<longleftrightarrow> linked_chain E p dps \<and> dp_parent_data_proposal_hash dp = chain_end E p dps"
  by (induction dps arbitrary: p) (auto simp: chain_end_Cons)

text \<open>The proposals, oldest first, that lead from a committed hash, or from the start of the lane, to \<open>to\<close>.\<close>

definition lane_segment :: "Env \<Rightarrow> DataProposalHash option \<Rightarrow> DataProposalHash \<Rightarrow> DataProposal list \<Rightarrow> bool" where
  "lane_segment E from to dps \<longleftrightarrow>
     (\<exists>base. (base = from \<or> base = None) \<and> linked_chain E base dps \<and> chain_end E base dps = Some to)"

text \<open>Entries are stored under their hash and name the parent of their proposal.\<close>

definition lane_linked :: "Env \<Rightarrow> 's Storage \<Rightarrow> 's \<Rightarrow> LaneId \<Rightarrow> bool" where
  "lane_linked E S s l \<longleftrightarrow>
     (\<forall>h md dp. sto_get_metadata_by_hash S s l h = Ok (Some md) \<longrightarrow> sto_get_dp_by_hash S s l h = Ok (Some dp) \<longrightarrow>
        DataProposal_hashed E dp = h \<and> le_parent_data_proposal_hash md = dp_parent_data_proposal_hash dp)"

lemma entries_next_Entry:
  assumes "lane_linked E S s l" and "entries_next S s l from cur = Some (Ok (Entry md dp), cur')"
  shows "cur = Some (DataProposal_hashed E dp) \<and> cur' = dp_parent_data_proposal_hash dp"
  using assms by (auto simp: lane_linked_def entries_next_def metadata_next_def
      split: option.splits sum.splits prod.splits MetadataOrMissingHash.splits if_splits)

lemma entries_next_None: "entries_next S s l from cur = None \<Longrightarrow> cur = None \<or> cur = from"
  by (auto simp: entries_next_def metadata_next_def
      split: option.splits sum.splits prod.splits MetadataOrMissingHash.splits if_splits)

definition leads_to :: "Env \<Rightarrow> DataProposalHash option \<Rightarrow> cursor \<Rightarrow> DataProposal list \<Rightarrow> bool" where
  "leads_to E from cur pre \<longleftrightarrow>
     (\<exists>base. (base = from \<or> base = None) \<and> linked_chain E base pre \<and> chain_end E base pre = cur)"

lemma leads_to_snoc:
  "leads_to E from (dp_parent_data_proposal_hash dp) pre \<Longrightarrow> leads_to E from (Some (DataProposal_hashed E dp)) (pre @ [dp])"
  by (auto simp: leads_to_def linked_chain_snoc)

lemma collect_entries_leads:
  "collect_entries S s l from cur dps = Some r \<Longrightarrow> lane_linked E S s l \<Longrightarrow> r = Ok (res, None) \<Longrightarrow>
     \<exists>pre. res = pre @ dps \<and> leads_to E from cur pre"
proof (induction arbitrary: res rule: collect_entries.raw_induct [rotated 1, consumes 1, case_names step])
  case (step f S s l fro cur dps r)
  show ?case
  proof (cases "entries_next S s l fro cur")
    case None
    with step.hyps step.prems entries_next_None [OF None] show ?thesis by (auto simp: leads_to_def)
  next
    case (Some item)
    then obtain md dp cur' where item: "entries_next S s l fro cur = Some (Ok (Entry md dp), cur')"
        and rec: "f S s l fro cur' (dp # dps) = Some r"
      using step.hyps step.prems(2)
      by (cases item; cases "fst item") (auto split: EntryOrMissingHash.splits)
    obtain pre where "res = pre @ dp # dps" "leads_to E fro cur' pre"
      using step.IH [OF rec step.prems] by blast
    then show ?thesis using entries_next_Entry [OF step.prems(1) item] leads_to_snoc
      by (intro exI [of _ "pre @ [dp]"]) auto
  qed
qed

lemma collect_entries_segment:
  "collect_entries S s l from (metadata_stream S s l (Some to)) [] = Some (Ok (res, None)) \<Longrightarrow>
     lane_linked E S s l \<Longrightarrow> lane_segment E from to res"
  by (drule collect_entries_leads) (auto simp: leads_to_def lane_segment_def metadata_stream_def)

text \<open>The data of the lanes of a cut; nothing changes while it is collected.\<close>

definition block_data :: "Env \<Rightarrow> BlockUnderConstruction \<Rightarrow> Cut \<Rightarrow> (LaneId \<times> DataProposal list) list \<Rightarrow> bool" where
  "block_data E buc the_cut lanes \<longleftrightarrow>
     list_all2 (\<lambda>(l, to, _, _) (l', dps). l' = l \<and> lane_segment E (from_hash_of buc l) to dps) the_cut lanes"

lemma full_data_of_lanes_complete:
  assumes "full_data_of_lanes N buc the_cut m = Some (m', Ok res)"
    and "\<And>l. l \<in> fst ` set the_cut \<Longrightarrow> lane_linked (mn_env N) (mn_storage N) (mp_lanes m) l"
  shows "m' = m \<and> block_data (mn_env N) buc the_cut res"
  using assms
proof (induction the_cut arbitrary: res)
  case (Cons car the_cut)
  obtain l to sz poda where car: "car = (l, to, sz, poda)" by (cases car)
  from Cons.prems(1) obtain dps where
      dps: "collect_entries (mn_storage N) (mp_lanes m) l (from_hash_of buc l)
              (metadata_stream (mn_storage N) (mp_lanes m) l (Some to)) [] = Some (Ok (dps, None))" and
      rest: "bnd (full_data_of_lanes N buc the_cut) (\<lambda>result. ret ((l, dps) # result)) m = Some (m', Ok res)"
    by (auto simp: car reads_def bnd_def awaits_def thn_def bail_def Let_def ok_simps split: option.splits sum.splits prod.splits)
  from rest obtain res' where "full_data_of_lanes N buc the_cut m = Some (m', Ok res')" "res = (l, dps) # res'"
    by (auto simp: bnd_def ret_def split: option.splits sum.splits)
  moreover have "lane_segment (mn_env N) (from_hash_of buc l) to dps"
    by (rule collect_entries_segment [OF dps]) (simp add: Cons.prems(2) car)
  ultimately show ?case using Cons.IH [of res'] Cons.prems(2) by (simp add: block_data_def car)
qed (auto simp: ret_def block_data_def)

lemma put_on_bus_Ok:
  "put_on_bus N out m = Some (m', Ok x) \<Longrightarrow> m' = m\<lparr>mp_bus := mp_bus m @ [out]\<rparr>"
  by (auto simp: put_on_bus_def modify_def bail_def split: if_splits)



subsection \<open>Relations kept by the event loop\<close>

text \<open>The parts of the state the blocks and the lanes depend on.\<close>

definition same_core :: "'s Mempool \<Rightarrow> 's Mempool \<Rightarrow> bool" where
  "same_core m m' \<longleftrightarrow>
     mp_lanes m' = mp_lanes m \<and> mp_bus m' = mp_bus m \<and>
     mp_blocks_under_contruction m' = mp_blocks_under_contruction m \<and> mp_last_ccp m' = mp_last_ccp m"

lemma same_core_trans: "same_core m m' \<Longrightarrow> same_core m' m'' \<Longrightarrow> same_core m m''"
  by (simp add: same_core_def)

definition is_block :: "MempoolOutput \<Rightarrow> bool" where
  "is_block out = (case out of BlockEvent (BuiltSignedBlock _) \<Rightarrow> True | _ \<Rightarrow> False)"

lemma is_block_simps [simp]:
  "is_block (BlockEvent (BuiltSignedBlock sb))" "\<not> is_block (BlockEvent (StartedBuildingBlocks h))"
  "\<not> is_block (SendNet to msg)" "\<not> is_block (BroadcastNet msg)" "\<not> is_block (BroadcastNetOnlyFor vs msg)"
  "\<not> is_block (StatusEvent ev)" "\<not> is_block (ToSync rq)" "\<not> is_block (NewCut r)"
  by (simp_all add: is_block_def)

locale mempool_core = transition R
  for R :: "'s Mempool \<Rightarrow> 's Mempool \<Rightarrow> bool" +
  fixes N :: "'s MempoolNode"
  assumes core: "same_core m m' \<Longrightarrow> R m m'"
begin

lemma core_modify: "(\<And>m. same_core m (f m)) \<Longrightarrow> moves (modify f)"
  by (intro moves_modify core)

lemma core_reset: "same_core m m' \<Longrightarrow> goes m (modify (\<lambda>_. m'))"
  by (intro goes_modify core)

lemma outcome_moves [intro]: "moves f \<Longrightarrow> moves (caught f)"
  by (auto simp: moves_def wp_def caught_def split: option.splits prod.splits)

lemma logged_moves [intro]: "moves f \<Longrightarrow> moves (logged f)"
  unfolding logged_def by (intro moves_bnd outcome_moves moves_ret)

lemma awaits_moves [intro, simp]: "moves (awaits v)"
  by (auto simp: moves_def wp_def awaits_def refl split: option.splits)

end

locale mempool_outputs = mempool_core R N
  for R :: "'s Mempool \<Rightarrow> 's Mempool \<Rightarrow> bool" and N :: "'s MempoolNode" +
  assumes outp: "\<not> is_block out \<Longrightarrow> R m (m\<lparr>mp_bus := mp_bus m @ [out]\<rparr>)"
begin

lemma bus_moves: "\<not> is_block out \<Longrightarrow> moves (put_on_bus N out)"
  unfolding put_on_bus_def by (intro moves_if moves_modify moves_bail outp)

lemma net_broadcast_moves: "moves (mempool_broadcast N msg)"
  unfolding mempool_broadcast_def by (intro moves_bnd moves_attempt bus_moves) simp

lemma only_for_moves: "moves (broadcast_only_for_net_message N vs msg)"
  unfolding broadcast_only_for_net_message_def by (intro moves_bnd moves_attempt bus_moves) simp

lemma net_send_moves: "moves (mempool_send N to msg)"
  unfolding mempool_send_def by (intro moves_bnd moves_attempt bus_moves) simp

lemma sync_request_moves: "moves (send_sync_request N l from_h to_h)"
  unfolding send_sync_request_def by (rule net_send_moves)

lemma vote_moves: "moves (send_vote N v h sz)"
  unfolding send_vote_def by (intro moves_bnd moves_attempt net_send_moves)

lemma on_data_proposal_moves: "moves (on_data_proposal N l h dp)"
  unfolding on_data_proposal_def Let_def
  by (intro moves_reads) (auto intro!: vote_moves core_modify simp: same_core_def spawn_dp_def
      split: option.split DataProposalVerdict.split sum.split)

lemma full_data_moves: "moves (full_data_of_lanes N buc the_cut)"
  by (induction the_cut) (auto simp: Let_def split: option.split
      intro!: moves_reads moves_bnd awaits_moves moves_thn sync_request_moves)

end

text \<open>Votes that were buffered are added to a stored proposal.\<close>

locale mempool_podas = mempool_core R N
  for R :: "'s Mempool \<Rightarrow> 's Mempool \<Rightarrow> bool" and N :: "'s MempoolNode" +
  assumes add: "moves (on_lanes (sto_add_signatures (mn_storage N) l h votes))"
begin

lemma on_poda_update_moves: "moves (on_poda_update N l h votes)"
  unfolding on_poda_update_def
  by (intro moves_bnd outcome_moves add moves_if moves_ret core_modify) (simp add: same_core_def buffer_poda_def)

lemma pop_poda_core: "pop_poda l h m = Some (sigs, m') \<Longrightarrow> same_core m m'"
  by (auto simp: pop_poda_def same_core_def split: option.splits if_splits)

lemma drain_podas_R: "drain_podas N l h m = Some y \<Longrightarrow> R m (fst y)"
proof (erule drain_podas.raw_induct [where P = "\<lambda>N' l h m y. N' = N \<longrightarrow> R m (fst y)", rotated, THEN mp])
  fix f N' l h m y
  assume IH: "\<And>N' l h m y. f N' l h m = Some y \<Longrightarrow> N' = N \<longrightarrow> R m (fst y)"
    and body: "(case pop_poda l h m of None \<Rightarrow> Some (m, Ok ())
      | Some (poda_signatures, m') \<Rightarrow>
          (case on_poda_update N' l h poda_signatures m' of None \<Rightarrow> None
           | Some (m'', Inl e) \<Rightarrow> Some (m'', Err e) | Some (m'', Inr _) \<Rightarrow> f N' l h m'')) = Some y"
  show "N' = N \<longrightarrow> R m (fst y)"
  proof
    assume N: "N' = N"
    show "R m (fst y)"
    proof (cases "pop_poda l h m")
      case None
      with body show ?thesis by (auto simp: refl)
    next
      case (Some p)
      obtain sigs m1 where pop: "pop_poda l h m = Some (sigs, m1)" using Some by (cases p) simp
      obtain m2 r where upd: "on_poda_update N l h sigs m1 = Some (m2, r)"
        using body pop N by (auto split: option.splits)
      have "R m m1" using pop_poda_core [OF pop] by (rule core)
      moreover have "R m1 m2" using movesD [OF on_poda_update_moves upd] .
      ultimately have R: "R m m2" by (rule trans)
      show ?thesis using body pop upd N R IH [of N l h m2 y] by (auto split: sum.splits intro: trans)
    qed
  qed
qed simp

lemma drain_podas_moves: "moves (drain_podas N l h)"
  unfolding moves_def by (auto intro!: wpI dest: drain_podas_R)

end

locale mempool_transition = mempool_outputs R N + mempool_podas R N
  for R :: "'s Mempool \<Rightarrow> 's Mempool \<Rightarrow> bool" and N :: "'s MempoolNode" +
  assumes put: "moves (on_lanes (sto_put_no_verification (mn_storage N) l entry))"
    and store: "moves (on_lanes (store_data_proposal (mn_env N) (mn_crypto N) (mn_borsh N) (mn_sizes N) (mn_storage N) l dp))"
    and clean: "moves (in_lanes (clean_and_update_lane (mn_storage N) l prev h sz))"
    and block: "moves (try_next_block N)"
begin

lemma on_hashed_moves: "moves (on_hashed_data_proposal N l dp)"
  unfolding on_hashed_data_proposal_def Let_def
  by (intro moves_reads moves_bnd moves_attempt)
    (auto intro!: moves_thn moves_bnd vote_moves core_modify simp: same_core_def spawn_dp_def cache_verdict_def buffer_proposal_def
      split: DataProposalVerdict.split)

lemma take_child_core: "take_child l h m = (c, m') \<Longrightarrow> same_core m m'"
  by (auto simp: take_child_def same_core_def split: option.splits)

lemma on_processed_moves: "moves (on_processed_data_proposal N l v dp)"
proof -
  have "goes m (case take_child l h m of (None, m') \<Rightarrow> modify (\<lambda>_. m')
      | (Some dp, m') \<Rightarrow> thn (modify (\<lambda>_. m')) (on_hashed_data_proposal N l dp))" for h m
    by (auto split: prod.split option.split intro!: core_reset goes_thn goes_moves [OF on_hashed_moves] dest: take_child_core)
  then have "moves (reads (\<lambda>m. case take_child l h m of (None, m') \<Rightarrow> modify (\<lambda>_. m')
      | (Some dp, m') \<Rightarrow> thn (modify (\<lambda>_. m')) (on_hashed_data_proposal N l dp)))" for h
    by (rule moves_readsI)
  then show ?thesis unfolding on_processed_data_proposal_def
    by (intro moves_thn) (auto intro!: core_modify moves_bnd store moves_thn vote_moves drain_podas_moves
        simp: same_core_def cache_verdict_def split: DataProposalVerdict.split)
qed

lemma internal_event_moves: "moves (handle_internal_event N ev)"
  by (cases ev) (simp_all add: on_hashed_moves on_processed_moves)

lemma on_data_vote_moves: "moves (on_data_vote N v)"
  unfolding on_data_vote_def Let_def by (intro moves_bnd add moves_reads moves_if net_broadcast_moves moves_ret)

lemma prepare_moves: "moves (prepare_new_data_proposal N)"
proof -
  have "moves (init_dp_preparation_if_pending N)"
    unfolding init_dp_preparation_if_pending_def Let_def
    by (intro moves_reads moves_if moves_ret moves_thn core_modify) (simp add: same_core_def)
  then show ?thesis unfolding prepare_new_data_proposal_def
    by (rule moves_bnd) (auto intro!: moves_thn core_modify simp: same_core_def split: option.split)
qed

lemma rebroadcast_moves: "moves (rebroadcast_data_proposal N md h)"
  unfolding rebroadcast_data_proposal_def Let_def
  by (intro moves_reads moves_if moves_bnd moves_attempt moves_thn moves_ret net_broadcast_moves only_for_moves)

lemma disseminate_moves: "moves (disseminate_data_proposals N h)"
  unfolding disseminate_data_proposals_def
  by (intro moves_reads moves_bnd moves_unwrap moves_attempt)
    (auto split: option.split intro!: moves_bnd rebroadcast_moves)

lemma redisseminate_moves: "moves (redisseminate_oldest_data_proposal N)"
  unfolding redisseminate_oldest_data_proposal_def
  by (intro moves_reads moves_bnd awaits_moves) (auto split: option.split intro!: rebroadcast_moves)

lemma resume_moves: "moves (resume_new_data_proposal N dp h)"
  unfolding resume_new_data_proposal_def register_new_data_proposal_def Let_def
  by (intro moves_thn moves_bnd moves_ret bus_moves store disseminate_moves) simp

lemma on_new_tx_moves: "moves (on_new_tx N tx)"
proof -
  have "moves (enqueue_tx N tx)" unfolding enqueue_tx_def Let_def
    by (intro moves_reads moves_if moves_ret moves_thn core_modify bus_moves) (simp_all add: same_core_def)
  then show ?thesis unfolding on_new_tx_def
    by (auto intro!: moves_thn core_modify simp: same_core_def handle_hyle_contract_registration_def spawn_tx_def
        split: TransactionData.split)
qed

lemma send_blocks_moves: "moves (try_to_send_full_signed_blocks N)"
  unfolding try_to_send_full_signed_blocks_def by (intro moves_reads moves_for_each block)

lemma clean_lanes_moves: "moves (clean_and_update_lanes N the_cut prev)"
  unfolding clean_and_update_lanes_def
proof (intro moves_for_each)
  fix car
  show "moves (clean_lane_of_cut N prev car)"
    by (cases car) (auto simp: clean_lane_of_cut_def Let_def
        intro!: moves_reads moves_if moves_thn clean sync_request_moves)
qed

lemma on_sync_reply_moves: "moves (on_mempool_sync_reply N v md dp)"
proof -
  have "moves (retry_proposal N l d)" for l d
    unfolding retry_proposal_def by (intro moves_reads moves_if moves_ret on_data_proposal_moves)
  then have rest: "moves (thn (for_each (retry_proposal N v) w) (try_to_send_full_signed_blocks N))" for w
    by (intro moves_thn moves_for_each send_blocks_moves)
  have taken: "take_buffered_proposals v m = (w, m') \<Longrightarrow> same_core m m'" for m :: "'s Mempool" and w m'
    by (auto simp: take_buffered_proposals_def same_core_def split: option.splits)
  have "goes m (case take_buffered_proposals v m of (w, m') \<Rightarrow>
      thn (modify (\<lambda>_. m')) (thn (for_each (retry_proposal N v) w) (try_to_send_full_signed_blocks N)))" for m
    by (cases "take_buffered_proposals v m")
      (simp, rule goes_thn_modify, rule core, erule taken, rule goes_moves, rule rest)
  then show ?thesis unfolding on_mempool_sync_reply_def Let_def
    by (intro moves_if moves_bail moves_thn put moves_readsI)
qed

lemma net_message_moves: "moves (mempool_handle_net_message N msg)"
proof -
  have "moves (on_mempool_sync_request N a b c)" for a b c unfolding on_mempool_sync_request_def
    by (intro moves_reads) (auto split: option.split intro!: bus_moves)
  then show ?thesis unfolding mempool_handle_net_message_def Let_def
    by (auto intro: on_data_proposal_moves on_data_vote_moves on_poda_update_moves on_sync_reply_moves
        split: MempoolNetMessage.split)
qed

lemma same_core_registrations:
  fixes m :: "'s Mempool"
  shows "same_core m (fold (\<lambda>(n, p). handle_contract_update n p) us (fold (\<lambda>(_, _, c, _). handle_contract_registration c) rs m))"
proof -
  have "same_core m (fold (\<lambda>(_, _, c, _). handle_contract_registration c) rs m)" for m :: "'s Mempool"
    by (induction rs arbitrary: m) (auto simp: same_core_def handle_contract_registration_def)
  moreover have "same_core m (fold (\<lambda>(n, p). handle_contract_update n p) us m)" for m :: "'s Mempool"
    by (induction us arbitrary: m) (auto simp: same_core_def handle_contract_update_def split: option.split)
  ultimately show ?thesis by (rule same_core_trans)
qed

lemma new_block_moves: "moves (on_new_block N b)"
  unfolding on_new_block_def
proof (rule moves_thn)
  show "moves (if mn_lane_manager N then reads (\<lambda>m. bnd (unwrap (process_block (mp_staking m) b))
      (\<lambda>(staking, _). modify (\<lambda>m. m\<lparr>mp_staking := staking\<rparr>))) else ret ())"
    by (auto intro!: moves_reads moves_bnd core_modify simp: same_core_def)
qed (rule core_modify, rule same_core_registrations)

lemma tasks_moves: "moves (on_dp_joined N kc)" "moves (on_tx_joined N kc)" "moves (on_own_dp_joined N i)"
  unfolding on_dp_joined_def on_tx_joined_def on_own_dp_joined_def Let_def
  by (intro moves_reads; auto intro!: moves_thn moves_if core_modify logged_moves internal_event_moves on_new_tx_moves resume_moves
      simp: same_core_def split: list.split option.split sum.split)+

lemma commit_moves: "moves (try_create_block_under_construction N cpp) \<Longrightarrow> moves (handle_consensus_event N cpp)"
  unfolding handle_consensus_event_def Let_def
  by (intro moves_thn moves_reads core_modify send_blocks_moves clean_lanes_moves) (simp_all add: same_core_def)

lemma query_moves:
  "moves (reads (\<lambda>m. bnd (unwrap (handle_querynewcut N st m)) (\<lambda>r. modify (\<lambda>m. m\<lparr>mp_bus := mp_bus m @ [NewCut (g r)]\<rparr>))))"
  by (intro moves_reads moves_bnd moves_unwrap moves_modify outp) simp

lemma event_moves:
  assumes "\<And>cpp. ev = CommitEvent cpp \<Longrightarrow> moves (try_create_block_under_construction N cpp)"
  shows "moves (mempool_event N ev)"
  using assms
  by (cases ev) (auto intro!: logged_moves net_message_moves commit_moves new_block_moves tasks_moves prepare_moves
      redisseminate_moves query_moves core_modify simp: on_new_api_tx_def spawn_tx_def same_core_def)

end

end
