(* ===== verification/Mempool_Runs.thy ===== *)
theory Mempool_Runs
  imports Mempool_Blocks
begin

text \<open>
  Runs of the mempool's event loop: the blocks it has built and those under construction are the
  committed proposals, each once.
\<close>

subsection \<open>Blocks built and under construction\<close>

definition built_blocks :: "MempoolOutput list \<Rightarrow> SignedBlock list" where
  "built_blocks outs =
     List.map_filter (\<lambda>out. case out of BlockEvent (BuiltSignedBlock sb) \<Rightarrow> Some sb | _ \<Rightarrow> None) outs"

lemma built_blocks_append [simp]: "built_blocks (xs @ ys) = built_blocks xs @ built_blocks ys"
  by (simp add: built_blocks_def map_filter_def)

lemma built_blocks_one:
  "built_blocks [] = []"
  "built_blocks [out] = (case out of BlockEvent (BuiltSignedBlock sb) \<Rightarrow> [sb] | _ \<Rightarrow> [])"
  by (auto simp: built_blocks_def map_filter_def split: MempoolOutput.split MempoolBlockEvent.split)

lemma built_blocks_other [simp]: "\<not> is_block out \<Longrightarrow> built_blocks [out] = []"
  by (auto simp: built_blocks_one is_block_def split: MempoolOutput.split MempoolBlockEvent.split)

type_synonym block_id = "ConsensusProposal \<times> AggregateSignature"

definition block_ids :: "'s Mempool \<Rightarrow> block_id list" where
  "block_ids m =
     map (\<lambda>sb. (sk_consensus_proposal sb, sk_certificate sb)) (built_blocks (mp_bus m)) @
     map (\<lambda>b. (cc_consensus_proposal (bu_ccp b), cc_certificate (bu_ccp b))) (mp_blocks_under_contruction m)"

definition blocks_kept :: "'s Mempool \<Rightarrow> 's Mempool \<Rightarrow> bool" where
  "blocks_kept m m' \<longleftrightarrow>
     mset (block_ids m') = mset (block_ids m) \<and> mp_last_ccp m' = mp_last_ccp m \<and>
     set (mp_blocks_under_contruction m') \<subseteq> set (mp_blocks_under_contruction m)"

lemma blocks_kept_core: "same_core m m' \<Longrightarrow> blocks_kept m m'"
  by (simp add: blocks_kept_def block_ids_def same_core_def)

interpretation blo: mempool_outputs blocks_kept N for N
  by unfold_locales (auto simp: blocks_kept_core, auto simp: blocks_kept_def block_ids_def)

lemma lanes_kept: "blo.moves (on_lanes f)" "blo.moves (in_lanes g)"
  by (auto simp: blo.moves_def wp_def on_lanes_def in_lanes_def blocks_kept_def block_ids_def
      split: option.split prod.split)

text \<open>While the data of a block is collected the queue of blocks stays as it is.\<close>

definition queue_kept :: "'s Mempool \<Rightarrow> 's Mempool \<Rightarrow> bool" where
  "queue_kept m m' \<longleftrightarrow>
     mp_blocks_under_contruction m' = mp_blocks_under_contruction m \<and> mp_last_ccp m' = mp_last_ccp m \<and>
     built_blocks (mp_bus m') = built_blocks (mp_bus m)"

interpretation qk: mempool_outputs queue_kept N for N
  by unfold_locales (auto simp: queue_kept_def same_core_def)

lemma build_kept:
  assumes "build_signed_block_and_emit N buc m = Some (m', r)"
  shows "mp_blocks_under_contruction m' = mp_blocks_under_contruction m \<and> mp_last_ccp m' = mp_last_ccp m \<and>
    map (\<lambda>sb. (sk_consensus_proposal sb, sk_certificate sb)) (built_blocks (mp_bus m')) =
    map (\<lambda>sb. (sk_consensus_proposal sb, sk_certificate sb)) (built_blocks (mp_bus m)) @
      (if is_ok r then [(cc_consensus_proposal (bu_ccp buc), cc_certificate (bu_ccp buc))] else [])"
proof -
  obtain m1 q where data: "try_get_full_data_for_signed_block N buc m = Some (m1, q)"
    using assms by (auto simp: build_signed_block_and_emit_def bnd_def split: option.splits)
  then have "queue_kept m m1"
    unfolding try_get_full_data_for_signed_block_def by (rule qk.movesD [OF qk.full_data_moves])
  then show ?thesis using assms data
    by (auto simp: build_signed_block_and_emit_def bnd_def queue_kept_def put_on_bus_def modify_def bail_def built_blocks_one
        split: sum.splits if_splits)
qed

lemma try_next_block_kept: "blo.moves (try_next_block N)"
proof (rule blo.movesI)
  fix m :: "'a Mempool"
  show "blo.goes m (try_next_block N)"
  proof (cases "mp_blocks_under_contruction m")
    case (Cons buc rest)
    then show ?thesis unfolding blo.goes_def try_next_block_def
      by (auto simp: wp_simps blocks_kept_def block_ids_def simp del: mset_map intro!: wpI dest!: build_kept)
  qed (simp add: try_next_block_def blo.goes_def wp_simps blo.refl)
qed

subsection \<open>Each committed proposal once\<close>

text \<open>
  \<open>H\<close> are the proposals committed so far. A block under construction starts from the cut of the
  slot before it, or from no cut at the first slot.
\<close>

definition good_buc :: "CommittedConsensusProposal set \<Rightarrow> BlockUnderConstruction \<Rightarrow> bool" where
  "good_buc H b \<longleftrightarrow>
     bu_from b = None \<and> cp_slot (cc_consensus_proposal (bu_ccp b)) = 1 \<or>
     (\<exists>c \<in> H. cp_slot (cc_consensus_proposal c) < cp_slot (cc_consensus_proposal (bu_ccp b)) \<and>
        cp_slot (cc_consensus_proposal (bu_ccp b)) = cp_slot (cc_consensus_proposal c) + 1 \<and>
        bu_from b = Some (cp_cut (cc_consensus_proposal c)))"

definition ccp_id :: "CommittedConsensusProposal \<Rightarrow> block_id" where
  "ccp_id ccp = (cc_consensus_proposal ccp, cc_certificate ccp)"

lemma fst_ccp_id [simp]: "fst (ccp_id ccp) = cc_consensus_proposal ccp"
  by (simp add: ccp_id_def)

abbreviation ccp_slot :: "CommittedConsensusProposal \<Rightarrow> Slot" where
  "ccp_slot ccp \<equiv> cp_slot (cc_consensus_proposal ccp)"

definition run_inv :: "CommittedConsensusProposal set \<Rightarrow> 's Mempool \<Rightarrow> bool" where
  "run_inv H m \<longleftrightarrow>
     (\<forall>c. mp_last_ccp m = Some c \<longrightarrow> c \<in> H) \<and>
     (\<forall>i \<in> set (block_ids m). i \<in> ccp_id ` H \<and> (\<exists>c. mp_last_ccp m = Some c \<and> cp_slot (fst i) \<le> ccp_slot c)) \<and>
     distinct (map (\<lambda>i. cp_slot (fst i)) (block_ids m)) \<and>
     (\<forall>b \<in> set (mp_blocks_under_contruction m). good_buc H b)"

lemma run_inv_kept:
  assumes "blocks_kept m m'" and "run_inv H m"
  shows "run_inv H m'"
proof -
  have ids: "mset (block_ids m') = mset (block_ids m)" using assms(1) by (simp add: blocks_kept_def)
  then have "set (block_ids m') = set (block_ids m)" by (rule mset_eq_setD)
  moreover have "distinct (map (\<lambda>i. cp_slot (fst i)) (block_ids m'))"
    using ids assms(2) by (metis mset_eq_imp_distinct_iff mset_map run_inv_def)
  ultimately show ?thesis using assms by (auto simp: run_inv_def blocks_kept_def)
qed

interpretation rit: transition "\<lambda>m m'. run_inv H m \<longrightarrow> run_inv H m'" for H
  by unfold_locales simp_all

lemma kept_inv:
  assumes "blo.moves f"
  shows "rit.moves H f"
  unfolding rit.moves_def
proof
  fix m
  have "wp f (\<lambda>m' r. blocks_kept m m') m" using assms by (simp add: blo.moves_def)
  then show "wp f (\<lambda>m' r. run_inv H m \<longrightarrow> run_inv H m') m" by (rule wp_mono) (blast intro: run_inv_kept)
qed

interpretation ri: mempool_transition "\<lambda>m m'. run_inv H m \<longrightarrow> run_inv H m'" N for H N
  by unfold_locales
    (use blo.core blo.outp run_inv_kept in blast, use blo.outp run_inv_kept in blast,
     (rule kept_inv, rule lanes_kept try_next_block_kept)+)

lemma set_start_kept: "blo.moves (set_ccp_build_start_height N slot)"
  unfolding set_ccp_build_start_height_def
  by (intro blo.moves_reads blo.moves_if blo.moves_bnd blo.moves_ret blo.outcome_moves blo.bus_moves blo.core_modify)
    (simp_all add: same_core_def)

lemma run_inv_older:
  assumes "run_inv H m" and new: "\<And>c. mp_last_ccp m = Some c \<Longrightarrow> ccp_slot c < slot" and i: "i \<in> set (block_ids m)"
  shows "cp_slot (fst i) < slot"
proof -
  obtain c where "mp_last_ccp m = Some c" "cp_slot (fst i) \<le> ccp_slot c"
    using assms(1) i unfolding run_inv_def by blast
  then show ?thesis using new [of c] by simp
qed

lemma run_inv_new:
  assumes "run_inv H m" "ccp \<in> H" and new: "\<And>c. mp_last_ccp m = Some c \<Longrightarrow> ccp_slot c < ccp_slot ccp"
  shows "run_inv H (m\<lparr>mp_last_ccp := Some ccp\<rparr>)"
proof -
  have ids: "block_ids (m\<lparr>mp_last_ccp := Some ccp\<rparr>) = block_ids m" by (simp add: block_ids_def)
  have "cp_slot (fst i) \<le> ccp_slot ccp" if "i \<in> set (block_ids m)" for i
    using run_inv_older [OF assms(1) new that] by simp
  then show ?thesis using assms(1,2) unfolding run_inv_def ids by simp
qed

lemma run_inv_push:
  assumes "run_inv H m" and last: "mp_last_ccp m = Some ccp" and "good_buc H \<lparr>bu_from = fro, bu_ccp = ccp\<rparr>"
    and "ccp_slot ccp \<notin> (\<lambda>i. cp_slot (fst i)) ` set (block_ids m)"
  shows "run_inv H (push_buc fro ccp m)"
proof -
  have ids: "block_ids (push_buc fro ccp m) = block_ids m @ [ccp_id ccp]"
    by (simp add: block_ids_def push_buc_def ccp_id_def)
  have frame: "mp_last_ccp (push_buc fro ccp m) = mp_last_ccp m"
      "set (mp_blocks_under_contruction (push_buc fro ccp m)) =
         insert \<lparr>bu_from = fro, bu_ccp = ccp\<rparr> (set (mp_blocks_under_contruction m))"
    by (simp_all add: push_buc_def)
  have "ccp_id ccp \<in> ccp_id ` H" using assms(1) last by (simp add: run_inv_def)
  then show ?thesis unfolding run_inv_def ids frame using assms by (simp add: run_inv_def)
qed

lemma try_create_inv:
  assumes "ccp \<in> H"
  shows "rit.moves H (try_create_block_under_construction N ccp)"
proof (rule rit.movesI)
  fix m :: "'a Mempool"
  let ?m = "m\<lparr>mp_last_ccp := Some ccp\<rparr>"
  have start: "wp (set_ccp_build_start_height N slot) (\<lambda>m' r. run_inv H ?m \<longrightarrow> run_inv H m' \<and> mp_last_ccp m' = Some ccp \<and>
      set (block_ids m') = set (block_ids ?m)) ?m" for slot
  proof -
    have "wp (set_ccp_build_start_height N slot) (\<lambda>m' r. blocks_kept ?m m') ?m"
      using set_start_kept [of N slot] by (simp add: blo.moves_def)
    then show ?thesis
    proof (rule wp_mono)
      fix m' r
      assume kept: "blocks_kept ?m m'"
      then have "set (block_ids m') = set (block_ids ?m)" by (auto simp: blocks_kept_def dest: mset_eq_setD)
      with kept run_inv_kept [OF kept] show "run_inv H ?m \<longrightarrow> run_inv H m' \<and> mp_last_ccp m' = Some ccp \<and>
          set (block_ids m') = set (block_ids ?m)" by (simp add: blocks_kept_def)
    qed
  qed
  have push: "wp (thn (set_ccp_build_start_height N slot) (modify (push_buc fro ccp))) (\<lambda>m' r. run_inv H m') ?m"
    if inv: "run_inv H ?m" and new: "ccp_slot ccp \<notin> (\<lambda>i. cp_slot (fst i)) ` set (block_ids ?m)"
      and good: "good_buc H \<lparr>bu_from = fro, bu_ccp = ccp\<rparr>" for slot fro
    unfolding wp_thn wp_modify using start [of slot]
  proof (rule wp_mono)
    fix m' r
    assume "run_inv H ?m \<longrightarrow> run_inv H m' \<and> mp_last_ccp m' = Some ccp \<and> set (block_ids m') = set (block_ids ?m)"
    then have m': "run_inv H m'" "mp_last_ccp m' = Some ccp" "set (block_ids m') = set (block_ids ?m)"
      using inv by blast+
    have "run_inv H (push_buc fro ccp m')"
      by (rule run_inv_push [OF m'(1,2) good]) (use new m'(3) in simp)
    with m'(1) show "case r of Inl e \<Rightarrow> run_inv H m' | Inr x \<Rightarrow> run_inv H (push_buc fro ccp m')"
      by (simp split: sum.split)
  qed
  show "rit.goes H m (try_create_block_under_construction N ccp)"
  proof (cases "run_inv H m \<and> (\<forall>c. mp_last_ccp m = Some c \<longrightarrow> ccp_slot c < ccp_slot ccp)")
    case True
    have inv: "run_inv H ?m" by (rule run_inv_new) (use True assms in auto)
    have "ccp_slot ccp \<noteq> cp_slot (fst i)" if "i \<in> set (block_ids m)" for i
      using run_inv_older [of H m "ccp_slot ccp" i] True that by force
    then have new: "ccp_slot ccp \<notin> (\<lambda>i. cp_slot (fst i)) ` set (block_ids ?m)"
      unfolding image_iff by (simp add: block_ids_def)
    have last: "good_buc H \<lparr>bu_from = Some (cp_cut (cc_consensus_proposal c)), bu_ccp = ccp\<rparr>"
      if "mp_last_ccp m = Some c" "ccp_slot c = ccp_slot ccp - 1" for c
    proof -
      have "c \<in> H" using True that(1) by (simp add: run_inv_def)
      then show ?thesis using True that unfolding good_buc_def by (intro disjI2 bexI [of _ c]) auto
    qed
    have first: "ccp_slot ccp = 1 \<Longrightarrow> good_buc H \<lparr>bu_from = None, bu_ccp = ccp\<rparr>" by (simp add: good_buc_def)
    show ?thesis
      unfolding rit.goes_def try_create_block_under_construction_def wp_reads Let_def
      by (cases "mp_last_ccp m") (use True inv push [OF inv new last] push [OF inv new first] in
          \<open>auto simp: wp_thn [of "modify f" for f] wp_modify wp_ret elim!: wp_mono\<close>)
  next
    case old: False
    show ?thesis
    proof (cases "run_inv H m")
      case True
      then obtain c where "mp_last_ccp m = Some c" "\<not> ccp_slot c < ccp_slot ccp" using old by auto
      then show ?thesis
        by (simp add: rit.goes_def try_create_block_under_construction_def wp_reads wp_ret not_less)
    qed (simp add: rit.goes_def wp_def split: option.split prod.split)
  qed
qed

definition committed :: "(moment \<times> MempoolEvent) list \<Rightarrow> CommittedConsensusProposal set" where
  "committed evs = {ccp. CommitEvent ccp \<in> snd ` set evs}"

lemma run_mempool_inv: "committed evs \<subseteq> H \<Longrightarrow> rit.moves H (run_mempool N evs)"
proof (induction evs)
  case (Cons e evs)
  obtain mo ev where e: "e = (mo, ev)" by (cases e)
  have "rit.moves H (mempool_event (mempool_at N mo) ev)"
    by (rule ri.event_moves, rule try_create_inv) (use Cons.prems e in \<open>auto simp: committed_def\<close>)
  moreover have "rit.moves H (run_mempool N evs)" using Cons by (auto simp: committed_def)
  ultimately show ?case unfolding e run_mempool.simps by (rule rit.moves_thn)
qed (simp add: rit.moves_ret)

text \<open>
  C13. In every run of the mempool that starts with no committed proposal, no two of the blocks it
  builds have the same slot, every one of them is for a proposal that was committed, with its
  certificate, and a block under construction starts from the cut of the committed proposal of the
  slot before, or from no cut at slot 1.
\<close>

theorem committed_blocks_once:
  assumes "run_mempool N evs m = Some (m', r)"
    and "mp_last_ccp m = None" and "mp_blocks_under_contruction m = []" and "built_blocks (mp_bus m) = []"
  shows "distinct (map (\<lambda>sb. cp_slot (sk_consensus_proposal sb)) (built_blocks (mp_bus m'))) \<and>
    (\<forall>sb \<in> set (built_blocks (mp_bus m')). \<exists>ccp \<in> committed evs.
       sk_consensus_proposal sb = cc_consensus_proposal ccp \<and> sk_certificate sb = cc_certificate ccp) \<and>
    (\<forall>b \<in> set (mp_blocks_under_contruction m'). good_buc (committed evs) b)"
proof -
  have "run_inv (committed evs) m" using assms(2-4) by (simp add: run_inv_def block_ids_def)
  then have inv: "run_inv (committed evs) m'" using rit.movesD [OF run_mempool_inv assms(1)] by simp
  have "\<exists>ccp \<in> committed evs. sk_consensus_proposal sb = cc_consensus_proposal ccp \<and> sk_certificate sb = cc_certificate ccp"
    if sb: "sb \<in> set (built_blocks (mp_bus m'))" for sb
  proof -
    have "(sk_consensus_proposal sb, sk_certificate sb) \<in> set (block_ids m')" using sb by (auto simp: block_ids_def)
    then have "(sk_consensus_proposal sb, sk_certificate sb) \<in> ccp_id ` committed evs" using inv by (auto simp: run_inv_def)
    then show ?thesis by (auto simp: ccp_id_def)
  qed
  with inv show ?thesis by (simp add: run_inv_def block_ids_def comp_def)
qed

theorem committed_blocks_once_witness:
  "\<exists>m'. run_mempool sample_mempool_node sample_commit (sample_mempool [9]) = Some (m', Ok ()) \<and>
     built_blocks (mp_bus m') = [sample_built [9]] \<and> distinct (map (\<lambda>sb. cp_slot (sk_consensus_proposal sb)) (built_blocks (mp_bus m'))) \<and>
     (\<exists>ccp \<in> committed sample_commit. sk_consensus_proposal (sample_built [9]) = cc_consensus_proposal ccp)"
proof -
  obtain m' where run: "run_mempool sample_mempool_node sample_commit (sample_mempool [9]) = Some (m', Ok ())"
      and bus: "mp_bus m' = [BlockEvent (StartedBuildingBlocks 1), BlockEvent (BuiltSignedBlock (sample_built [9]))]"
    using sample_run by blast
  have "built_blocks (mp_bus m') = [sample_built [9]]" by (simp add: bus built_blocks_def map_filter_def)
  moreover have "built_blocks (mp_bus (sample_mempool [9])) = []" by (simp add: built_blocks_def map_filter_def)
  ultimately show ?thesis using run committed_blocks_once [OF run] by auto
qed

end
