(* ===== verification/Mempool_Votes.thy ===== *)
theory Mempool_Votes
  imports Mempool_Runs
begin

text \<open>
  The lanes during a run of the mempool on the key-value store: data stays under its hash, and the
  votes sent for hashed and processed proposals are backed by stored entries. The last section has
  the votes and the proposals that are let through without that.
\<close>

subsection \<open>Lanes change in the storage methods only\<close>

definition lanes_same :: "'s Mempool \<Rightarrow> 's Mempool \<Rightarrow> bool" where
  "lanes_same m m' \<longleftrightarrow> mp_lanes m' = mp_lanes m"

interpretation ls: mempool_outputs lanes_same N for N
  by unfold_locales (auto simp: lanes_same_def same_core_def)

lemma try_next_block_lanes: "ls.moves (try_next_block N)"
proof (rule ls.movesI)
  fix m :: "'a Mempool"
  have build: "ls.moves (build_signed_block_and_emit N buc)" for buc
    unfolding build_signed_block_and_emit_def try_get_full_data_for_signed_block_def put_on_bus_def
    by (intro ls.moves_bnd ls.full_data_moves ls.moves_if ls.moves_modify ls.moves_bail) (simp add: lanes_same_def)
  show "ls.goes m (try_next_block N)" unfolding try_next_block_def
    by (intro ls.goes_reads) (auto split: list.split intro!: ls.goes_moves ls.moves_thn ls.moves_bnd ls.outcome_moves build
        ls.moves_modify simp: lanes_same_def)
qed

subsection \<open>Data under its hash\<close>

definition on_fjall :: "FjallStorage MempoolNode \<Rightarrow> bool" where
  "on_fjall N \<longleftrightarrow> mn_storage N = fjall_storage (mn_env N)"

definition fj_keyed :: "FjallStorage MempoolNode \<Rightarrow> FjallStorage Mempool \<Rightarrow> bool" where
  "fj_keyed N m \<longleftrightarrow> keyed (mn_env N) (fj_key (mn_env N)) (fj_data (mp_lanes m))"

definition keys_kept :: "FjallStorage MempoolNode \<Rightarrow> FjallStorage Mempool \<Rightarrow> FjallStorage Mempool \<Rightarrow> bool" where
  "keys_kept N m m' \<longleftrightarrow> (on_fjall N \<longrightarrow> fj_keyed N m \<longrightarrow> fj_keyed N m')"

interpretation kkt: transition "keys_kept N" for N
  by unfold_locales (auto simp: keys_kept_def)

lemma lanes_same_keys:
  assumes "ls.moves f"
  shows "kkt.moves N f"
  unfolding kkt.moves_def
proof
  fix m
  have "wp f (\<lambda>m' r. lanes_same m m') m" using assms by (simp add: ls.moves_def)
  then show "wp f (\<lambda>m' r. keys_kept N m m') m"
    by (rule wp_mono) (simp add: keys_kept_def fj_keyed_def lanes_same_def)
qed

lemma storage_keys:
  "(\<And>s s' r. on_fjall N \<Longrightarrow> f s = (s', r) \<Longrightarrow> keyed (mn_env N) (fj_key (mn_env N)) (fj_data s) \<Longrightarrow>
     keyed (mn_env N) (fj_key (mn_env N)) (fj_data s')) \<Longrightarrow> kkt.moves N (on_lanes f)"
  by (auto simp: kkt.moves_def wp_def on_lanes_def keys_kept_def fj_keyed_def split: prod.split)

interpretation kk: mempool_transition "keys_kept N" N for N
proof unfold_locales
  show "same_core m m' \<Longrightarrow> keys_kept N m m'" for m m'
    by (simp add: keys_kept_def fj_keyed_def same_core_def)
  show "keys_kept N m (m\<lparr>mp_bus := mp_bus m @ [out]\<rparr>)" for m out
    by (simp add: keys_kept_def fj_keyed_def)
  show "kkt.moves N (try_next_block N)" by (rule lanes_same_keys) (rule try_next_block_lanes)
  show "kkt.moves N (on_lanes (sto_put_no_verification (mn_storage N) l entry))" for l entry
    by (rule storage_keys) (auto simp: on_fjall_def dest: fj.put_keyed)
  show "kkt.moves N (on_lanes (sto_add_signatures (mn_storage N) l h votes))" for l h votes
    by (rule storage_keys) (auto simp: on_fjall_def dest: fj.add_keyed)
  show "kkt.moves N (on_lanes (store_data_proposal (mn_env N) (mn_crypto N) (mn_borsh N) (mn_sizes N) (mn_storage N) l dp))" for l dp
    by (rule storage_keys) (auto simp: on_fjall_def dest: fj.store_keyed)
  show "kkt.moves N (in_lanes (clean_and_update_lane (mn_storage N) l prev h sz))" for l prev h sz
    by (auto simp: kkt.moves_def wp_def in_lanes_def keys_kept_def fj_keyed_def on_fjall_def dest: fj.clean_keyed
        split: option.split prod.split)
qed

lemma try_create_keys: "kkt.moves N (try_create_block_under_construction N' ccp)"
proof -
  have "ls.moves (set_ccp_build_start_height N' slot)" for slot
    unfolding set_ccp_build_start_height_def
    by (intro ls.moves_reads ls.moves_if ls.moves_bnd ls.outcome_moves ls.bus_moves ls.moves_modify ls.moves_ret)
      (simp_all add: lanes_same_def)
  then have "ls.moves (try_create_block_under_construction N' ccp)"
    unfolding try_create_block_under_construction_def Let_def
    by (intro ls.moves_reads) (auto split: option.split intro!: ls.moves_thn ls.moves_modify ls.moves_if
        simp: lanes_same_def push_buc_def)
  then show ?thesis by (rule lanes_same_keys)
qed

lemma mempool_at_frame: "keys_kept (mempool_at N mo) = keys_kept N"
  by (simp add: fun_eq_iff keys_kept_def on_fjall_def fj_keyed_def mempool_at_def)

lemma run_mempool_keys: "kkt.moves N (run_mempool N evs)"
proof (induction evs)
  case (Cons e evs)
  obtain mo ev where e: "e = (mo, ev)" by (cases e)
  have "kkt.moves (mempool_at N mo) (mempool_event (mempool_at N mo) ev)"
    by (rule kk.event_moves) (rule try_create_keys)
  then have "kkt.moves N (mempool_event (mempool_at N mo) ev)" unfolding kkt.moves_def mempool_at_frame .
  with Cons show ?case unfolding e run_mempool.simps by (intro kkt.moves_thn)
qed (simp add: kkt.moves_ret)

lemma colon_split:
  assumes "a @ '':'' @ h = b @ '':'' @ h'" and "CHR '':'' \<notin> set a" and "CHR '':'' \<notin> set b"
  shows "h = h'"
proof -
  have "dropWhile (\<lambda>c. c \<noteq> CHR '':'') (x @ '':'' @ y) = '':'' @ y" if "CHR '':'' \<notin> set x" for x y
    using that by (induction x) auto
  from this [OF assms(2), of h] this [OF assms(3), of h'] show ?thesis using assms(1) by simp
qed

text \<open>
  C29. On the key-value store, where the text of a lane has no colon, a data proposal that is read
  after any run of the mempool has the hash it is read with: if the data that is stored at the
  start is under keys with its own hash, it stays so through every event.
\<close>

theorem data_under_its_hash:
  assumes "on_fjall N" and "\<And>l. CHR '':'' \<notin> set (ValidatorPublicKey_display (mn_env N) l)"
    and "fj_keyed N m" and "run_mempool N evs m = Some (m', r)"
    and "fj_get_dp_by_hash (mn_env N) (mp_lanes m') l h = Ok (Some dp)"
  shows "dp_hashed N dp = h"
proof -
  have "fj_keyed N m'" using kkt.movesD [OF run_mempool_keys assms(4)] assms(1,3) by (simp add: keys_kept_def)
  moreover have "fj_data (mp_lanes m') (fj_key (mn_env N) l h) = Some dp"
    using assms(5) by (auto simp: fj_get_dp_by_hash_def fj_data_def Let_def split: if_splits)
  ultimately obtain l' where "fj_key (mn_env N) l h = fj_key (mn_env N) l' (DataProposal_hashed (mn_env N) dp)"
    unfolding fj_keyed_def keyed_def by blast
  then show ?thesis unfolding dp_hashed_def fj_key_def using colon_split assms(2) by metis
qed

theorem data_under_its_hash_witness:
  "\<exists>m'. run_mempool sample_mempool_node sample_commit (sample_mempool [9]) = Some (m', Ok ()) \<and>
     fj_get_dp_by_hash sample_hex_env (mp_lanes m') [9] sample_hash = Ok (Some sample_dp) \<and> dp_hashed sample_mempool_node sample_dp = sample_hash"
proof -
  obtain m' where run: "run_mempool sample_mempool_node sample_commit (sample_mempool [9]) = Some (m', Ok ())"
      and lanes: "mp_lanes m' = sample_lanes [9]"
    using sample_run by blast
  have "on_fjall sample_mempool_node" by (simp add: on_fjall_def)
  moreover have "fj_keyed sample_mempool_node (sample_mempool [9])"
    by (auto simp: fj_keyed_def keyed_def fj_data_def sample_lanes_def sample_hash_def split: if_splits)
  ultimately show ?thesis
    using data_under_its_hash [OF _ _ _ run, of "[9]" sample_hash sample_dp] run lanes sample_display by simp
qed

subsection \<open>Votes for stored proposals\<close>

definition vote_sent :: "MempoolOutput \<Rightarrow> (LaneId \<times> DataProposalHash \<times> LaneBytesSize) option" where
  "vote_sent out =
     (case out of SendNet to msg \<Rightarrow> (case mw_msg msg of NM_DataVote v \<Rightarrow> Some (to, sg_msg v) | _ \<Rightarrow> None) | _ \<Rightarrow> None)"

definition votes_backed :: "'s Storage \<Rightarrow> 's Mempool \<Rightarrow> 's Mempool \<Rightarrow> bool" where
  "votes_backed S m m' \<longleftrightarrow>
     (\<exists>outs. mp_bus m' = mp_bus m @ outs \<and>
        (\<forall>out \<in> set outs. \<forall>l h sz. vote_sent out = Some (l, h, sz) \<longrightarrow> entry_backed S (mp_lanes m') l h sz))"

definition backing_kept :: "'s Storage \<Rightarrow> 's Mempool \<Rightarrow> 's Mempool \<Rightarrow> bool" where
  "backing_kept S m m' \<longleftrightarrow>
     votes_backed S m m' \<and> (\<forall>l h sz. entry_backed S (mp_lanes m) l h sz \<longrightarrow> entry_backed S (mp_lanes m') l h sz)"

lemma backing_kept_trans:
  assumes "backing_kept S m m1" "backing_kept S m1 m2"
  shows "backing_kept S m m2"
proof -
  obtain o1 o2 where "mp_bus m1 = mp_bus m @ o1" "mp_bus m2 = mp_bus m1 @ o2"
    "\<forall>out \<in> set o1. \<forall>l h sz. vote_sent out = Some (l, h, sz) \<longrightarrow> entry_backed S (mp_lanes m1) l h sz"
    "\<forall>out \<in> set o2. \<forall>l h sz. vote_sent out = Some (l, h, sz) \<longrightarrow> entry_backed S (mp_lanes m2) l h sz"
    using assms unfolding backing_kept_def votes_backed_def by blast
  then have "votes_backed S m m2" using assms(2)
    unfolding votes_backed_def backing_kept_def by (intro exI [of _ "o1 @ o2"]) auto
  then show ?thesis using assms by (simp add: backing_kept_def)
qed

lemma backing_kept_core: "same_core m m' \<Longrightarrow> backing_kept S m m'"
  by (simp add: backing_kept_def votes_backed_def same_core_def)

definition backing_on :: "FjallStorage MempoolNode \<Rightarrow> FjallStorage Mempool \<Rightarrow> FjallStorage Mempool \<Rightarrow> bool" where
  "backing_on N m m' \<longleftrightarrow> (on_fjall N \<longrightarrow> backing_kept (mn_storage N) m m')"

interpretation vbt: transition "backing_on N" for N
  by unfold_locales (auto simp: backing_on_def backing_kept_core same_core_def intro: backing_kept_trans)

lemma storage_backing:
  "(\<And>s s' r l h sz. on_fjall N \<Longrightarrow> f s = (s', r) \<Longrightarrow> entry_backed (mn_storage N) s l h sz \<Longrightarrow>
     entry_backed (mn_storage N) s' l h sz) \<Longrightarrow> vbt.moves N (on_lanes f)"
  by (auto simp: vbt.moves_def wp_def on_lanes_def backing_on_def backing_kept_def votes_backed_def split: prod.split)

interpretation vb: mempool_podas "backing_on N" N for N
proof unfold_locales
  show "same_core m m' \<Longrightarrow> backing_on N m m'" for m m' by (simp add: backing_on_def backing_kept_core)
  show "vbt.moves N (on_lanes (sto_add_signatures (mn_storage N) l h votes))" for l h votes
    by (rule storage_backing) (auto simp: on_fjall_def dest: fj.add_backed)
qed

lemma store_backing:
  "vbt.moves N (on_lanes (store_data_proposal (mn_env N) (mn_crypto N) (mn_borsh N) (mn_sizes N) (mn_storage N) l dp))"
  by (rule storage_backing) (auto simp: on_fjall_def dest: fj.store_backed)

lemma sign_msg: "sign B enc msg = Ok v \<Longrightarrow> sg_msg v = msg"
  by (auto dest: sign_Ok)

lemma send_vote_backed:
  assumes "on_fjall N \<Longrightarrow> entry_backed (mn_storage N) (mp_lanes m) l h sz"
  shows "vbt.goes N m (send_vote N l h sz)"
proof -
  have "mempool_sign N msg = Ok w \<Longrightarrow> mw_msg w = msg" for msg w
    by (auto simp: mempool_sign_def ok_simps)
  then show ?thesis using assms
    by (auto simp: vbt.goes_def send_vote_def mempool_send_def put_on_bus_def wp_simps ok_simps vbt.refl
        backing_on_def backing_kept_def votes_backed_def vote_sent_def split: sum.split dest!: sign_msg)
qed

lemma verdict_vote:
  assumes "get_verdict N s l dp = Ok (V_Vote, sz)"
  shows "\<exists>x. sz = Some x \<and> (on_fjall N \<longrightarrow> entry_backed (mn_storage N) s l (dp_hashed N dp) x)"
  using assms by (auto simp: get_verdict_def on_fjall_def Let_def ok_simps split: if_splits CanBePutOnTop.splits)
    (rule fj.size_at_backed)

lemma cache_backed: "vbt.moves N (modify (cache_verdict l h v))"
  by (rule vb.core_modify) (simp add: same_core_def cache_verdict_def)

lemma act_on_verdict_backed:
  assumes "get_verdict N s l dp = Ok (v, sz)" and "mp_lanes m = s"
  shows "vbt.goes N m (case v of
      V_Empty \<Rightarrow> ret () | V_Vote \<Rightarrow> bnd (unwrap sz) (\<lambda>sz. send_vote N (get_lane_operator l) (dp_hashed N dp) sz)
    | V_Process \<Rightarrow> modify (spawn_dp (ProcessDp l dp)) | V_Wait \<Rightarrow> modify (buffer_proposal N l dp)
    | V_Refuse \<Rightarrow> ret () | V_Ignore \<Rightarrow> ret ())"
proof (cases v)
  case V_Vote
  then obtain x where "sz = Some x" "on_fjall N \<longrightarrow> entry_backed (mn_storage N) (mp_lanes m) l (dp_hashed N dp) x"
    using verdict_vote assms by metis
  then show ?thesis using V_Vote by (auto simp: get_lane_operator_def intro!: vbt.goes_bnd_unwrap send_vote_backed)
qed (auto intro!: vbt.goes_moves vb.core_modify simp: same_core_def spawn_dp_def buffer_proposal_def)

lemma on_hashed_backed: "vbt.moves N (on_hashed_data_proposal N l dp)"
  unfolding on_hashed_data_proposal_def Let_def
proof (rule vbt.moves_readsI, rule vbt.goes_bnd)
  fix m m' :: "FjallStorage Mempool" and x
  assume "attempt (map_err StorageFailed (get_verdict N (mp_lanes m) l dp)) m = Some (m', Ok x)"
  then have v: "get_verdict N (mp_lanes m) l dp = Ok (fst x, snd x)" and "m' = m"
    by (auto simp: attempt_def ok_simps)
  have "vbt.goes N m (thn (modify (cache_verdict l (dp_hashed N dp) (fst x))) (case fst x of
      V_Empty \<Rightarrow> ret () | V_Vote \<Rightarrow> bnd (unwrap (snd x)) (\<lambda>sz. send_vote N (get_lane_operator l) (dp_hashed N dp) sz)
    | V_Process \<Rightarrow> modify (spawn_dp (ProcessDp l dp)) | V_Wait \<Rightarrow> modify (buffer_proposal N l dp)
    | V_Refuse \<Rightarrow> ret () | V_Ignore \<Rightarrow> ret ()))"
    by (rule vbt.goes_thn [OF vbt.goes_moves [OF cache_backed] act_on_verdict_backed [OF v]])
      (auto simp: modify_def cache_verdict_def)
  then show "vbt.goes N m' (case x of (v, sz) \<Rightarrow> thn (modify (cache_verdict l (dp_hashed N dp) v)) (case v of
      V_Empty \<Rightarrow> ret () | V_Vote \<Rightarrow> bnd (unwrap sz) (\<lambda>sz. send_vote N (get_lane_operator l) (dp_hashed N dp) sz)
    | V_Process \<Rightarrow> modify (spawn_dp (ProcessDp l dp)) | V_Wait \<Rightarrow> modify (buffer_proposal N l dp)
    | V_Refuse \<Rightarrow> ret () | V_Ignore \<Rightarrow> ret ()))" unfolding \<open>m' = m\<close> by (simp add: case_prod_beta)
qed (rule vbt.goes_moves [OF vbt.moves_attempt])

lemma child_backed:
  "vbt.goes N m (case take_child l h m of (None, m') \<Rightarrow> modify (\<lambda>_. m')
      | (Some dp, m') \<Rightarrow> thn (modify (\<lambda>_. m')) (on_hashed_data_proposal N l dp))"
proof -
  have "take_child l h m = (c, m') \<Longrightarrow> backing_on N m m'" for c m'
    by (rule vb.core) (auto simp: take_child_def same_core_def split: option.splits)
  then show ?thesis
    by (auto split: prod.split option.split intro!: vbt.goes_modify vbt.goes_thn_modify vbt.goes_moves [OF on_hashed_backed])
qed

lemma store_and_vote_backed:
  "vbt.moves N (bnd (on_lanes (store_data_proposal (mn_env N) (mn_crypto N) (mn_borsh N) (mn_sizes N) (mn_storage N) l dp))
     (\<lambda>(hash, lane_size). thn (send_vote N (get_lane_operator l) hash lane_size)
        (thn (drain_podas N l hash)
          (reads (\<lambda>m. case take_child l hash m of (None, m') \<Rightarrow> modify (\<lambda>_. m')
            | (Some dp, m') \<Rightarrow> thn (modify (\<lambda>_. m')) (on_hashed_data_proposal N l dp))))))"
proof (rule vbt.movesI, rule vbt.goes_bnd [OF vbt.goes_moves [OF store_backing]])
  fix m x m'
  assume "on_lanes (store_data_proposal (mn_env N) (mn_crypto N) (mn_borsh N) (mn_sizes N) (mn_storage N) l dp) m = Some (m', Ok x)"
  then have "store_data_proposal (mn_env N) (mn_crypto N) (mn_borsh N) (mn_sizes N) (mn_storage N) l dp (mp_lanes m) = (mp_lanes m', Ok x)"
    by (auto simp: on_lanes_def ok_simps split: prod.splits)
  then have "on_fjall N \<Longrightarrow> entry_backed (mn_storage N) (mp_lanes m') l (fst x) (snd x)"
    by (cases x) (auto simp: on_fjall_def intro: fj.store_backs)
  then have "vbt.goes N m' (send_vote N l (fst x) (snd x))" by (rule send_vote_backed)
  then show "vbt.goes N m' (case x of (hash, lane_size) \<Rightarrow> thn (send_vote N (get_lane_operator l) hash lane_size)
        (thn (drain_podas N l hash)
          (reads (\<lambda>m. case take_child l hash m of (None, m') \<Rightarrow> modify (\<lambda>_. m')
            | (Some dp, m') \<Rightarrow> thn (modify (\<lambda>_. m')) (on_hashed_data_proposal N l dp)))))"
    unfolding prod.case_eq_if [of _ x] get_lane_operator_def
    by (rule vbt.goes_thn) (rule vbt.goes_moves, intro vbt.moves_thn vb.drain_podas_moves vbt.moves_readsI child_backed)
qed

lemma internal_event_backed: "vbt.moves N (handle_internal_event N ev)"
proof (cases ev)
  case (OnProcessedDataProposal l v dp)
  then show ?thesis
    by (cases v) (auto simp: on_processed_data_proposal_def intro!: vbt.moves_thn cache_backed store_and_vote_backed)
qed (simp add: on_hashed_backed)

text \<open>
  C12. When a task over a data proposal is joined, every vote that the node then sends to the operator
  of a lane, for a hash and a size of the lane, is backed: the storage has an entry of that
  lane under that hash with exactly that cumulated size, whatever else the event does.
\<close>

theorem votes_are_backed:
  assumes "on_fjall N" and "on_dp_joined N kc m = Some (m', r)"
  shows "votes_backed (mn_storage N) m m'"
proof -
  have tasks: "vbt.moves N (modify (\<lambda>m. m\<lparr>mp_processing_dps := tasks\<rparr>))" for tasks
    by (rule vb.core_modify) (simp add: same_core_def)
  have "vbt.moves N (on_dp_joined N kc)" unfolding on_dp_joined_def
    by (intro vbt.moves_reads) (auto split: list.split option.split sum.split
        intro!: vbt.moves_thn tasks vb.logged_moves internal_event_backed)
  from vbt.movesD [OF this assms(2)] show ?thesis using assms(1) by (simp add: backing_on_def backing_kept_def)
qed

theorem votes_are_backed_witness:
  "\<exists>m' w. on_dp_joined sample_mempool_node [] ((sample_mempool [9])\<lparr>mp_processing_dps := [HashDp [9] sample_hash sample_dp]\<rparr>) = Some (m', Ok ()) \<and>
     mp_bus m' = [SendNet [9] w] \<and> vote_sent (SendNet [9] w) = Some ([9], sample_hash, 10) \<and>
     entry_backed (fjall_storage sample_hex_env) (mp_lanes m') [9] sample_hash 10"
proof -
  let ?m = "(sample_mempool [9])\<lparr>mp_processing_dps := [HashDp [9] sample_hash sample_dp]\<rparr>"
  obtain m' w where run: "on_dp_joined sample_mempool_node [] ?m = Some (m', Ok ())"
      and bus: "mp_bus m' = [SendNet [9] w]" "vote_sent (SendNet [9] w) = Some ([9], sample_hash, 10)"
    by (simp add: on_dp_joined_def logged_def caught_def on_hashed_data_proposal_def get_verdict_def get_lane_size_at_def fjall_storage_simps
        step_eval send_vote_def mempool_send_def put_on_bus_def sample_sign mempool_sign_def get_lane_operator_def Let_def
        vote_sent_def cache_verdict_def)
  have "on_fjall sample_mempool_node" by (simp add: on_fjall_def)
  from votes_are_backed [OF this run] run bus show ?thesis by (auto simp: votes_backed_def)
qed

subsection \<open>Votes and proposals that are not checked\<close>

text \<open>
  C26. A cached verdict is answered without a look at the data: when the node has decided to vote for a
  proposal but has no entry for it, because storing it failed or the lane was cleaned, it answers the
  next copy with a signed vote for the size 0, which nothing in the storage backs.
\<close>

theorem resent_vote_unbacked:
  assumes "on_fjall N" and "map_of (mp_cached_dp_votes m) (l, h) = Some V_Vote"
    and "fj_metadata_io (mp_lanes m) (fj_key (mn_env N) l h)" and "fj_meta (mp_lanes m) (fj_key (mn_env N) l h) = None"
    and "sign (mn_crypto N) (enc_poda (mn_borsh N)) (h, 0) = Ok v" and "mempool_sign N (NM_DataVote v) = Ok w"
    and "mn_bus_accepts N (SendNet l w)"
  shows "\<exists>m'. on_data_proposal N l h dp m = Some (m', Ok ()) \<and> mp_bus m' = mp_bus m @ [SendNet l w] \<and>
    sg_msg v = (h, 0) \<and> \<not> votes_backed (mn_storage N) m m'"
proof -
  have S: "mn_storage N = fjall_storage (mn_env N)" using assms(1) by (simp add: on_fjall_def)
  have "get_lane_size_at (mn_storage N) (mp_lanes m) l h = Ok 0"
    using assms(3,4) by (simp add: S get_lane_size_at_def fjall_storage_def fj_get_metadata_by_hash_def fj_meta_def)
  then have "on_data_proposal N l h dp m = Some (m\<lparr>mp_bus := mp_bus m @ [SendNet l w]\<rparr>, Ok ())"
    using assms(2,5,6,7) by (simp add: on_data_proposal_def reads_def Let_def send_vote_def mempool_send_def put_on_bus_def
        bnd_def attempt_def modify_def get_lane_operator_def)
  moreover have "sg_msg v = (h, 0)" using assms(5) by (rule sign_msg)
  moreover have "mw_msg w = NM_DataVote v" using assms(6) by (auto simp: mempool_sign_def ok_simps)
  moreover have "\<not> entry_backed (mn_storage N) (mp_lanes m) l h 0"
    using assms(4) by (simp add: S fj.backed_iff)
  ultimately show ?thesis by (auto simp: votes_backed_def vote_sent_def)
qed

theorem resent_vote_unbacked_witness:
  "\<exists>m' w. on_data_proposal sample_mempool_node [9] sample_hash sample_dp
       ((sample_mempool [9])\<lparr>mp_lanes := (sample_lanes [9])\<lparr>fj_by_hash_metadata := []\<rparr>, mp_cached_dp_votes := [(([9], sample_hash), V_Vote)]\<rparr>) =
       Some (m', Ok ()) \<and> mp_bus m' = [SendNet [9] w] \<and> vote_sent (SendNet [9] w) = Some ([9], sample_hash, 0)"
proof -
  let ?m = "(sample_mempool [9])\<lparr>mp_lanes := (sample_lanes [9])\<lparr>fj_by_hash_metadata := []\<rparr>, mp_cached_dp_votes := [(([9], sample_hash), V_Vote)]\<rparr>"
  obtain v where v: "sign (sample_crypto [2]) (enc_poda sample_borsh) (sample_hash, 0) = Ok v" by (simp add: sample_sign)
  obtain w where w: "mempool_sign sample_mempool_node (NM_DataVote v) = Ok w" "mw_msg w = NM_DataVote v"
    by (simp add: mempool_sign_def sample_sign)
  have "\<exists>m'. on_data_proposal sample_mempool_node [9] sample_hash sample_dp ?m = Some (m', Ok ()) \<and>
      mp_bus m' = mp_bus ?m @ [SendNet [9] w] \<and> sg_msg v = (sample_hash, 0) \<and> \<not> votes_backed (mn_storage sample_mempool_node) ?m m'"
    by (rule resent_vote_unbacked) (simp_all add: on_fjall_def fj_meta_def sample_lanes_def v w)
  with w(2) show ?thesis by (auto simp: vote_sent_def)
qed

text \<open>
  C23. The outputs that a proof transaction claims are not compared with the outputs of its proof when
  there are as many of them: a proposal with any claimed outputs whatsoever, next to a proof that
  verifies, gets a vote.
\<close>

theorem unchecked_outputs_voted:
  assumes "map_of kc c = Some (verifier, program_id)" and "c \<noteq> ''risc0-recursion''"
    and "verify_proof N proof verifier program_id = Some outputs" and "length outputs = length claimed"
  shows "process_data_proposal N
      \<lparr>dp_parent_data_proposal_hash = parent, dp_txs = [\<lparr>tx_version = 1, tx_transaction_data = TD_VerifiedProof
        \<lparr>vp_contract_name = c, vp_proof = Some proof, vp_proof_hash = ph, vp_proof_size = sz, vp_proven_blobs = claimed,
         vp_is_recursive = False\<rparr>\<rparr>]\<rparr> kc =
    Some (V_Vote, \<lparr>dp_parent_data_proposal_hash = parent, dp_txs = [\<lparr>tx_version = 1, tx_transaction_data = TD_VerifiedProof
        \<lparr>vp_contract_name = c, vp_proof = None, vp_proof_hash = ph, vp_proof_size = sz, vp_proven_blobs = claimed,
         vp_is_recursive = False\<rparr>\<rparr>]\<rparr>)"
  using assms by (simp add: process_data_proposal_def accept_proof_tx_def remove_proofs_def)

theorem unchecked_outputs_voted_witness:
  "sample_output\<lparr>ho_next_state := [66]\<rparr> \<noteq> sample_output \<and>
   (\<exists>dp'. process_data_proposal sample_mempool_node
      \<lparr>dp_parent_data_proposal_hash = None, dp_txs = [\<lparr>tx_version = 1, tx_transaction_data = TD_VerifiedProof
        \<lparr>vp_contract_name = ''c'', vp_proof = Some [1], vp_proof_hash = [], vp_proof_size = 1,
         vp_proven_blobs = [\<lparr>bp_blob_tx_hash = [], bp_original_proof_hash = [], bp_hyle_output = sample_output\<lparr>ho_next_state := [66]\<rparr>, bp_program_id = []\<rparr>],
         vp_is_recursive = False\<rparr>\<rparr>]\<rparr> [(''c'', ''test'', [])] = Some (V_Vote, dp'))"
proof -
  have "verify_proof sample_mempool_node [1] ''test'' [] = Some [sample_output]"
    by (simp add: verify_proof_def sample_mempool_node_def)
  from unchecked_outputs_voted [of "[(''c'', ''test'', [])]" "''c''" "''test''" "[]", OF _ _ this] show ?thesis
    by (simp add: sample_output_def)
qed

subsection \<open>The next proposal of the own lane\<close>

lemma collect_count_le: "collect_count N c txs \<le> length txs"
  by (induction N c txs rule: collect_count.induct) auto

lemma collect_count_full:
  "collect_count N c txs < length txs \<Longrightarrow>
     40000000 \<le> c + sum_list (map (Transaction_estimate_size (mn_sizes N)) (take (collect_count N c txs) txs))"
  by (induction N c txs rule: collect_count.induct) (auto simp: add.assoc)

lemma collect_count_small:
  "0 < collect_count N c txs \<Longrightarrow>
     c + sum_list (map (Transaction_estimate_size (mn_sizes N)) (take (collect_count N c txs - 1) txs)) < 40000000"
proof (induction N c txs rule: collect_count.induct)
  case (2 N c tx txs)
  then have c: "c < 40000000" by (simp split: if_splits)
  show ?case
  proof (cases "collect_count N (c + Transaction_estimate_size (mn_sizes N) tx) txs")
    case (Suc n)
    then show ?thesis using 2(1) [OF c] c by (simp add: add.assoc)
  qed (use c in simp)
qed simp

text \<open>
  C30. When transactions wait and no proposal is in preparation, a tick takes the longest prefix of the
  waiting transactions, in their order, that stays under the size limit before its last transaction;
  it is not empty, its parent is the tip of the own lane, and the other transactions keep waiting.
\<close>

theorem next_proposal_takes_prefix:
  assumes "mp_waiting_dissemination_txs m \<noteq> []" and "mp_own_data_proposal_in_preparation m = []"
  shows "\<exists>dp rest. prepare_new_data_proposal N m =
      Some (m\<lparr>mp_waiting_dissemination_txs := rest, mp_own_data_proposal_in_preparation := [dp]\<rparr>, Ok True) \<and>
    map snd (mp_waiting_dissemination_txs m) = dp_txs dp @ map snd rest \<and> dp_txs dp \<noteq> [] \<and>
    dp_parent_data_proposal_hash dp = get_lane_hash_tip (mn_storage N) (mp_lanes m) (own_lane_id N) \<and>
    DataProposal_estimate_size (mn_sizes N) (dp\<lparr>dp_txs := butlast (dp_txs dp)\<rparr>) < 40000000 \<and>
    (rest \<noteq> [] \<longrightarrow> 40000000 \<le> DataProposal_estimate_size (mn_sizes N) dp)"
proof -
  let ?w = "mp_waiting_dissemination_txs m"
  let ?n = "collect_count N 0 (map snd ?w)"
  let ?dp = "\<lparr>dp_parent_data_proposal_hash = get_last_data_prop_hash_in_own_lane N (mp_lanes m), dp_txs = map snd (take ?n ?w)\<rparr>"
  have n: "0 < ?n" "?n \<le> length ?w"
    using assms(1) collect_count_le [of N 0 "map snd ?w"] by (cases ?w, simp_all)
  have run: "prepare_new_data_proposal N m =
      Some (m\<lparr>mp_waiting_dissemination_txs := drop ?n ?w, mp_own_data_proposal_in_preparation := [?dp]\<rparr>, Ok True)"
    using assms by (simp add: prepare_new_data_proposal_def init_dp_preparation_if_pending_def reads_def bnd_def thn_def
        modify_def ret_def Let_def)
  have small: "sum_list (map (Transaction_estimate_size (mn_sizes N)) (butlast (map snd (take ?n ?w)))) < 40000000"
    using collect_count_small [of N 0 "map snd ?w"] n by (simp add: butlast_take map_butlast [symmetric] take_map)
  have full: "drop ?n ?w \<noteq> [] \<Longrightarrow> 40000000 \<le> sum_list (map (Transaction_estimate_size (mn_sizes N)) (map snd (take ?n ?w)))"
    using collect_count_full [of N 0 "map snd ?w"] by (simp add: take_map)
  have "map snd ?w = map snd (take ?n ?w) @ map snd (drop ?n ?w)"
    unfolding map_append [symmetric] by simp
  with assms(1) run n small full show ?thesis
    by (intro exI [of _ ?dp] exI [of _ "drop ?n ?w"])
      (simp add: DataProposal_estimate_size_def get_last_data_prop_hash_in_own_lane_def)
qed

theorem next_proposal_takes_prefix_witness:
  "\<exists>m' dp. prepare_new_data_proposal sample_mempool_node
       ((sample_mempool [9])\<lparr>mp_waiting_dissemination_txs := [([], Transaction_wrap (TD_Blob sample_tx))]\<rparr>) = Some (m', Ok True) \<and>
     mp_own_data_proposal_in_preparation m' = [dp] \<and> dp_txs dp = [Transaction_wrap (TD_Blob sample_tx)] \<and> mp_waiting_dissemination_txs m' = []"
proof -
  let ?m = "(sample_mempool [9])\<lparr>mp_waiting_dissemination_txs := [([], Transaction_wrap (TD_Blob sample_tx))]\<rparr>"
  have "mp_own_data_proposal_in_preparation ?m = []" by (simp add: sample_mempool_def)
  from next_proposal_takes_prefix [OF _ this, of sample_mempool_node] obtain dp rest where
      "prepare_new_data_proposal sample_mempool_node ?m =
         Some (?m\<lparr>mp_waiting_dissemination_txs := rest, mp_own_data_proposal_in_preparation := [dp]\<rparr>, Ok True)"
      "[Transaction_wrap (TD_Blob sample_tx)] = dp_txs dp @ map snd rest" "dp_txs dp \<noteq> []"
    by auto
  then show ?thesis by (cases "dp_txs dp") auto
qed

end
