(* ===== verification/Mempool_Cut.thy ===== *)
theory Mempool_Cut
  imports Mempool_Votes
begin

text \<open>
  The cut that the mempool gives to the leader of a slot, against the checks that the consensus of the
  other validators makes on it; and how a lane operator can keep a node from giving a cut.
\<close>

subsection \<open>The latest certified entry of a lane\<close>

text \<open>Where a certificate comes from: the previous cut, or the bonded votes of an entry.\<close>

definition car_found ::
    "Env \<Rightarrow> BlstCrypto \<Rightarrow> Borsh \<Rightarrow> 's Storage \<Rightarrow> 's \<Rightarrow> LaneId \<Rightarrow> Staking \<Rightarrow> Car option \<Rightarrow>
     DataProposalHash \<times> LaneBytesSize \<times> AggregateSignature \<Rightarrow> bool" where
  "car_found E B X S s l st prev c \<longleftrightarrow>
     (case c of (h, sz, poda) \<Rightarrow>
        (\<exists>l' sz'. prev = Some (l', h, sz', poda)) \<or>
        (\<exists>md p. sto_get_metadata_by_hash S s l h = Ok (Some md) \<and> le_cumul_size md = sz \<and>
           \<not> compute_voting_power st (map (\<lambda>v. vs_validator (sg_signature v)) (bonded_votes st md)) < compute_f st + 1 \<and>
           aggregate E B (enc_poda X) (h, sz) (bonded_votes st md) = Ok p \<and> poda = sg_signature p))"

lemma latest_car_from_found:
  "latest_car_from E B X S s l st prev h = Some r \<Longrightarrow> r = Ok (Some c) \<Longrightarrow> car_found E B X S s l st prev c"
proof (induction rule: latest_car_from.raw_induct [rotated 1, consumes 1, case_names step])
  case (step f E B X S s l st prev h r)
  let ?votes = "\<lambda>md. bonded_votes st md"
  let ?weak = "\<lambda>md. compute_voting_power st (map (\<lambda>v. vs_validator (sg_signature v)) (?votes md)) < compute_f st + 1"
  obtain md where md: "sto_get_metadata_by_hash S s l h = Ok (Some md)"
    using step.hyps step.prems by (auto split: sum.splits option.splits)
  show ?case
  proof (cases "(case prev of Some (_, hash, _, _) \<Rightarrow> h = hash | None \<Rightarrow> False)")
    case True
    with step.hyps step.prems md show ?thesis by (auto simp: car_found_def split: option.splits)
  next
    case new: False
    show ?thesis
    proof (cases "?weak md")
      case True
      then obtain parent where "f E B X S s l st prev parent = Some r"
        using step.hyps step.prems md new by (auto split: option.splits)
      from step.IH [OF this step.prems] show ?thesis .
    next
      case False
      then show ?thesis using step.hyps step.prems md new by (auto simp: car_found_def split: sum.splits)
    qed
  qed
qed

lemma get_latest_car_found:
  "get_latest_car E B X S s l st prev = Some (Ok (Some c)) \<Longrightarrow> car_found E B X S s l st prev c"
  by (auto simp: get_latest_car_def split: option.splits dest: latest_car_from_found)

subsection \<open>A cut that the other validators accept\<close>

text \<open>The votes of a lane's entries verify for the entry they are stored with.\<close>

definition votes_valid :: "'s MempoolNode \<Rightarrow> 's \<Rightarrow> LaneId \<Rightarrow> bool" where
  "votes_valid N s l \<longleftrightarrow>
     (\<forall>h md v. sto_get_metadata_by_hash (mn_storage N) s l h = Ok (Some md) \<longrightarrow> v \<in> set (le_signatures md) \<longrightarrow>
        sg_msg v = (h, le_cumul_size md) \<and> verify (mn_env N) (enc_poda (mn_borsh N)) v = Ok True)"

lemma aggregate_verifies:
  assumes laws: "blst_laws E B" and agg: "aggregate E B enc msg votes = Ok p"
    and valid: "\<And>v. v \<in> set votes \<Longrightarrow> sg_msg v = msg \<and> verify E enc v = Ok True"
  shows "ag_validators (sg_signature p) = map (\<lambda>v. vs_validator (sg_signature v)) votes \<and>
    verify_aggregate E B enc \<lparr>sg_msg = msg, sg_signature = sg_signature p\<rparr> = Ok True"
proof (cases votes)
  case (Cons v vs)
  show ?thesis
  proof (cases vs)
    case Nil
    with agg Cons valid [of v] laws show ?thesis
      by (auto simp: aggregate_def verify_aggregate_def aggregate_validators_pk_def blst_laws_def verify_def
          split: if_splits option.splits)
  next
    case (Cons w ws)
    note many = aggregate_many [OF laws agg [unfolded \<open>votes = v # vs\<close> Cons]]
    then show ?thesis using \<open>votes = v # vs\<close> Cons by (cases p) simp
  qed
qed (use agg in \<open>simp add: aggregate_def\<close>)

text \<open>The consensus of a validator that shares the keys and encoders of the mempool's node.\<close>

definition same_node :: "'s MempoolNode \<Rightarrow> Node \<Rightarrow> bool" where
  "same_node N C \<longleftrightarrow> nd_env C = mn_env N \<and> nd_crypto C = mn_crypto N \<and> nd_borsh C = mn_borsh N"

definition parent_entry :: "Cut \<Rightarrow> LaneId \<Rightarrow> Car option" where
  "parent_entry parent l = List.find (\<lambda>(v, _, _, _). v = l) parent"

lemma car_accepted:
  assumes "car_found (mn_env N) (mn_crypto N) (mn_borsh N) (mn_storage N) s l (br_staking st) (parent_entry (br_parent_cut st) l) (h, sz, poda)"
    and "same_node N C" and "blst_laws (mn_env N) (mn_crypto N)" and "is_known (br_staking st) l" and "votes_valid N s l"
    and grows: "\<And>l' h' sz' p'. parent_entry (br_parent_cut st) l = Some (l', h', sz', p') \<Longrightarrow> h = h' \<or> sz' < sz"
  shows "verify_poda_entry C st (l, h, sz, poda) = Ok ()"
proof (cases "\<exists>l' sz' p'. parent_entry (br_parent_cut st) l = Some (l', h, sz', p')")
  case True
  then show ?thesis using assms(4) by (auto simp: verify_poda_entry_def parent_entry_def Let_def)
next
  case False
  then obtain md p where found: "sto_get_metadata_by_hash (mn_storage N) s l h = Ok (Some md)" "le_cumul_size md = sz"
      "\<not> compute_voting_power (br_staking st) (map (\<lambda>v. vs_validator (sg_signature v)) (bonded_votes (br_staking st) md))
         < compute_f (br_staking st) + 1"
      "aggregate (mn_env N) (mn_crypto N) (enc_poda (mn_borsh N)) (h, sz) (bonded_votes (br_staking st) md) = Ok p"
      "poda = sg_signature p"
    using assms(1) by (auto simp: car_found_def)
  have votes: "sg_msg v = (h, sz) \<and> verify (mn_env N) (enc_poda (mn_borsh N)) v = Ok True"
    if "v \<in> set (bonded_votes (br_staking st) md)" for v
    using that assms(5) found(1,2) by (auto simp: votes_valid_def bonded_votes_def)
  note agg = aggregate_verifies [OF assms(3) found(4) votes]
  have "parent_entry (br_parent_cut st) l = Some (l', h', sz', p') \<Longrightarrow> h' \<noteq> h \<and> sz' < sz" for l' h' sz' p'
    using False grows [of l' h' sz' p'] by blast
  then show ?thesis using agg found(3,5) assms(2,4)
    by (auto simp: verify_poda_entry_def Let_def same_node_def parent_entry_def [symmetric] not_le split: option.split)
qed

lemma new_cut_Cons:
  assumes "new_cut_of_lanes N s staking parent (lane # lanes) = Some (Ok the_cut)"
  shows "\<exists>car rest. get_latest_car (mn_env N) (mn_crypto N) (mn_borsh N) (mn_storage N) s lane staking (parent_entry parent lane) =
      Some (Ok car) \<and> new_cut_of_lanes N s staking parent lanes = Some (Ok rest) \<and>
    the_cut = (case car of Some (dp_hash, cumul_size, poda) \<Rightarrow> [(lane, dp_hash, cumul_size, poda)]
        | None \<Rightarrow> (case parent_entry parent lane of Some e \<Rightarrow> [e] | None \<Rightarrow> [])) @ rest"
proof -
  obtain car where car: "get_latest_car (mn_env N) (mn_crypto N) (mn_borsh N) (mn_storage N) s lane staking (parent_entry parent lane) =
      Some (Ok car)"
    using assms by (auto simp: Let_def parent_entry_def split: option.splits sum.splits)
  then show ?thesis using assms unfolding parent_entry_def by (intro exI [of _ car]) (auto simp: Let_def ok_simps)
qed

lemma parent_entry_lane: "parent_entry parent l = Some e \<Longrightarrow> fst e = l"
  by (auto simp: parent_entry_def find_Some_iff)

lemma new_cut_entries:
  assumes "new_cut_of_lanes N s staking parent lanes = Some (Ok the_cut)" and "(l, h, sz, poda) \<in> set the_cut"
  shows "l \<in> set lanes \<and> car_found (mn_env N) (mn_crypto N) (mn_borsh N) (mn_storage N) s l staking (parent_entry parent l) (h, sz, poda)"
  using assms
proof (induction lanes arbitrary: the_cut)
  case (Cons lane lanes)
  obtain car rest where car: "get_latest_car (mn_env N) (mn_crypto N) (mn_borsh N) (mn_storage N) s lane staking
        (parent_entry parent lane) = Some (Ok car)" and rest: "new_cut_of_lanes N s staking parent lanes = Some (Ok rest)"
      and the_cut: "the_cut = (case car of Some (dp_hash, cumul_size, poda) \<Rightarrow> [(lane, dp_hash, cumul_size, poda)]
        | None \<Rightarrow> (case parent_entry parent lane of Some e \<Rightarrow> [e] | None \<Rightarrow> [])) @ rest"
    using new_cut_Cons [OF Cons.prems(1)] by blast
  show ?case
  proof (cases "(l, h, sz, poda) \<in> set rest")
    case True
    then show ?thesis using Cons.IH [OF rest] by simp
  next
    case False
    show ?thesis
    proof (cases car)
      case None
      then have e: "parent_entry parent lane = Some (l, h, sz, poda)"
        using Cons.prems(2) False the_cut by (auto split: option.splits)
      then have "l = lane" using parent_entry_lane by fastforce
      with e show ?thesis by (auto simp: car_found_def)
    next
      case (Some c)
      then have "l = lane" "c = (h, sz, poda)" using Cons.prems(2) False the_cut by (auto split: prod.splits)
      then show ?thesis using get_latest_car_found car Some by simp
    qed
  qed
qed simp

lemma new_cut_covers:
  "new_cut_of_lanes N s staking parent lanes = Some (Ok the_cut) \<Longrightarrow> l \<in> set lanes \<Longrightarrow>
     parent_entry parent l \<noteq> None \<Longrightarrow> \<exists>e \<in> set the_cut. fst e = l"
proof (induction lanes arbitrary: the_cut)
  case (Cons lane lanes)
  obtain car rest where rest: "new_cut_of_lanes N s staking parent lanes = Some (Ok rest)"
      and the_cut: "the_cut = (case car of Some (dp_hash, cumul_size, poda) \<Rightarrow> [(lane, dp_hash, cumul_size, poda)]
        | None \<Rightarrow> (case parent_entry parent lane of Some e \<Rightarrow> [e] | None \<Rightarrow> [])) @ rest"
    using new_cut_Cons [OF Cons.prems(1)] by blast
  then show ?case
    using Cons.IH [OF rest] Cons.prems(2,3) parent_entry_lane [of parent lane] by (auto split: option.splits prod.splits)
qed simp

lemma verify_poda_entries_Ok:
  "(\<And>e. e \<in> set the_cut \<Longrightarrow> verify_poda_entry C st e = Ok ()) \<Longrightarrow> verify_poda_entries C st the_cut = Ok ()"
  by (induction the_cut) auto

text \<open>The cut of the sample mempool.\<close>

definition sample_new_cut :: "LaneId \<Rightarrow> Cut" where
  "sample_new_cut l = [(l, sample_hash, 10, \<lparr>ag_signature = as_bytes sample_hash, ag_validators = [[9]]\<rparr>)]"

lemma sample_last_cut: "last_cut (sample_mempool l) = None"
  by (simp add: last_cut_def)

lemma sample_parent_cut: "br_parent_cut sample_state = []"
  by (simp add: sample_state_def)

lemma sample_car:
  "get_latest_car sample_hex_env (sample_crypto [2]) sample_borsh (fjall_storage sample_hex_env) (sample_lanes l) l sample_bonds None =
     Some (Ok (Some (sample_hash, 10, \<lparr>ag_signature = as_bytes sample_hash, ag_validators = [[9]]\<rparr>)))"
  by (simp add: get_latest_car_def get_lane_hash_tip_def latest_car_from.simps fjall_storage_simps bonded_votes_def sample_dag_def
      aggregate_def)

lemma sample_query:
  "handle_querynewcut sample_mempool_node (br_staking sample_state) (sample_mempool l) = Some (Ok (sample_new_cut l))"
  by (simp add: handle_querynewcut_def get_lane_ids_def fjall_storage_simps sample_last_cut sample_car sample_new_cut_def)



subsection \<open>How a lane keeps a leader from a good cut\<close>

lemma new_cut_has_car:
  "new_cut_of_lanes N s staking parent lanes = Some (Ok the_cut) \<Longrightarrow> l \<in> set lanes \<Longrightarrow>
     get_latest_car (mn_env N) (mn_crypto N) (mn_borsh N) (mn_storage N) s l staking (parent_entry parent l) = Some (Ok (Some c)) \<Longrightarrow>
     \<exists>e \<in> set the_cut. fst e = l"
proof (induction lanes arbitrary: the_cut)
  case (Cons lane lanes)
  obtain car rest where car: "get_latest_car (mn_env N) (mn_crypto N) (mn_borsh N) (mn_storage N) s lane staking (parent_entry parent lane) =
        Some (Ok car)" and rest: "new_cut_of_lanes N s staking parent lanes = Some (Ok rest)"
      and the_cut: "the_cut = (case car of Some (dp_hash, cumul_size, poda) \<Rightarrow> [(lane, dp_hash, cumul_size, poda)]
        | None \<Rightarrow> (case parent_entry parent lane of Some e \<Rightarrow> [e] | None \<Rightarrow> [])) @ rest"
    using new_cut_Cons [OF Cons.prems(1)] by blast
  then show ?case using Cons.IH [OF rest] Cons.prems(2,3) by (auto split: option.splits prod.splits)
qed simp

lemma verify_poda_entries_all: "verify_poda_entries C st the_cut = Ok () \<Longrightarrow> e \<in> set the_cut \<Longrightarrow> verify_poda_entry C st e = Ok ()"
  by (induction the_cut) (auto simp: ok_simps)



lemma latest_car_cycle:
  assumes "latest_car_from E B X S s l st prev h = Some r" and "sto_get_metadata_by_hash S s l h = Ok (Some md)"
    and "le_parent_data_proposal_hash md = Some h"
    and "\<forall>l' sz p. prev \<noteq> Some (l', h, sz, p)"
    and "compute_voting_power st (map (\<lambda>v. vs_validator (sg_signature v)) (bonded_votes st md)) < compute_f st + 1"
  shows False
  using assms
proof (induction rule: latest_car_from.raw_induct [rotated 1, consumes 1, case_names step])
  case (step f E B X S s l st prev h r)
  have "\<not> (case prev of Some (_, hash, _, _) \<Rightarrow> h = hash | None \<Rightarrow> False)"
    using step.prems(3) by (auto split: option.splits)
  then have "f E B X S s l st prev h = Some r"
    using step.hyps step.prems by simp
  then show ?case using step.IH step.prems by blast
qed

lemma new_cut_needs_car:
  "new_cut_of_lanes N s staking parent lanes = Some (Ok the_cut) \<Longrightarrow> l \<in> set lanes \<Longrightarrow>
     get_latest_car (mn_env N) (mn_crypto N) (mn_borsh N) (mn_storage N) s l staking (parent_entry parent l) \<noteq> None"
proof (induction lanes arbitrary: the_cut)
  case (Cons lane lanes)
  then show ?case using new_cut_Cons [OF Cons.prems(1)] by auto
qed simp

lemma sync_reply_stores:
  assumes "on_fjall N" and "on_mempool_sync_reply N l md dp m = Some (m', Ok ())"
  shows "mp_lanes m' = fst (fj_put_no_verification (mn_env N) l (md, dp) (mp_lanes m)) \<and>
    snd (fj_put_no_verification (mn_env N) l (md, dp) (mp_lanes m)) = Ok ()"
proof -
  have put: "sto_put_no_verification (mn_storage N) = fj_put_no_verification (mn_env N)"
    using assms(1) by (simp add: on_fjall_def fjall_storage_def)
  obtain s where s: "fj_put_no_verification (mn_env N) l (md, dp) (mp_lanes m) = (s, Ok ())"
      and rest: "(\<lambda>m. case take_buffered_proposals l m of (w, m') \<Rightarrow> thn (modify (\<lambda>_. m'))
        (thn (for_each (retry_proposal N l) w) (try_to_send_full_signed_blocks N)) m) (m\<lparr>mp_lanes := s\<rparr>) = Some (m', Ok ())"
    using assms(2)
    by (auto simp: on_mempool_sync_reply_def Let_def put on_lanes_def thn_def [of "on_lanes f" for f] bnd_def [of "on_lanes f" for f]
        bail_def reads_def ok_simps split: if_splits prod.splits sum.splits)
  obtain w m1 where taken: "take_buffered_proposals l (m\<lparr>mp_lanes := s\<rparr>) = (w, m1)" by force
  then have "mp_lanes m1 = s" by (auto simp: take_buffered_proposals_def split: option.splits)
  moreover have "ls.moves (thn (for_each (retry_proposal N l) w) (try_to_send_full_signed_blocks N))"
    unfolding retry_proposal_def try_to_send_full_signed_blocks_def
    by (intro ls.moves_thn ls.moves_for_each ls.moves_reads ls.moves_if ls.moves_ret ls.on_data_proposal_moves try_next_block_lanes)
  moreover have "thn (for_each (retry_proposal N l) w) (try_to_send_full_signed_blocks N) m1 = Some (m', Ok ())"
    using rest taken by (simp add: thn_def [of "modify f" for f] bnd_def [of "modify f" for f] modify_def)
  ultimately have "mp_lanes m' = s" using ls.movesD by (fastforce simp: lanes_same_def)
  with s show ?thesis by simp
qed



end
