(* ===== verification/Mempool_Sync.thy ===== *)
theory Mempool_Sync
  imports Mempool
begin

text \<open>
  The submodule that answers sync requests (\<open>src/mempool/sync_request_reply.rs\<close>): a request is
  unfolded into the entries it asks for, and a timer sends the collected replies, at most one per
  validator and proposal in ten seconds. A hash map is iterated in the order of insertion.
\<close>

record 's MempoolSync =
  ym_lane_id :: LaneId
  ym_lanes :: 's
  ym_by_pubkey_by_dp_hash :: "(ValidatorPublicKey, (DataProposalHash, TimestampMs) hashmap) hashmap"
  ym_todo :: "(DataProposalHash, LaneEntryMetadata \<times> ValidatorPublicKey list) hashmap"
  ym_net :: "(ValidatorPublicKey \<times> MempoolNetMessage MsgWithHeader) list"

definition MempoolSync_create :: "LaneId \<Rightarrow> 's \<Rightarrow> 's MempoolSync" where
  "MempoolSync_create lane_id lanes =
     \<lparr>ym_lane_id = lane_id, ym_lanes = lanes, ym_by_pubkey_by_dp_hash = [], ym_todo = [], ym_net = []\<rparr>"

text \<open>A difference of timestamps is a number of milliseconds cut to 64 bits.\<close>

definition millis_between :: "TimestampMs \<Rightarrow> TimestampMs \<Rightarrow> u64" where
  "millis_between now past = ucast (now - past)"

definition last_reply :: "'s MempoolSync \<Rightarrow> ValidatorPublicKey \<Rightarrow> DataProposalHash \<Rightarrow> TimestampMs option" where
  "last_reply y validator data_proposal_hash =
     (case map_of (ym_by_pubkey_by_dp_hash y) validator of
        None \<Rightarrow> None
      | Some validator_records \<Rightarrow> map_of validator_records data_proposal_hash)"

definition should_throttle :: "TimestampMs \<Rightarrow> 's MempoolSync \<Rightarrow> ValidatorPublicKey \<Rightarrow> DataProposalHash \<Rightarrow> bool" where
  "should_throttle now y validator data_proposal_hash =
     (case last_reply y validator data_proposal_hash of
        None \<Rightarrow> False
      | Some data_proposal_record \<Rightarrow> \<not> 10000 < millis_between now data_proposal_record)"

definition add_todo :: "DataProposalHash \<Rightarrow> LaneEntryMetadata \<Rightarrow> ValidatorPublicKey \<Rightarrow> 's MempoolSync \<Rightarrow> 's MempoolSync" where
  "add_todo dp_hash metadata validator y =
     (let (md, validators) = (case map_of (ym_todo y) dp_hash of Some e \<Rightarrow> e | None \<Rightarrow> (metadata, []))
      in y\<lparr>ym_todo := hm_insert dp_hash (md, hs_insert validator validators) (ym_todo y)\<rparr>)"

partial_function (option) unfold_from ::
    "'s Storage \<Rightarrow> DataProposalHash option \<Rightarrow> ValidatorPublicKey \<Rightarrow> cursor \<Rightarrow> 's MempoolSync \<Rightarrow> 's MempoolSync option" where
  "unfold_from S from validator cur y =
     (case metadata_next S (ym_lanes y) (ym_lane_id y) from cur of
        None \<Rightarrow> Some y
      | Some (entry, cur') \<Rightarrow>
          (let y' = (case entry of
                       Inr (Metadata metadata dp_hash) \<Rightarrow> add_todo dp_hash metadata validator y
                     | _ \<Rightarrow> y)
           in if from = None then Some y' else unfold_from S from validator cur' y'))"

definition unfold_sync_request_interval :: "'s Storage \<Rightarrow> SyncRequest \<Rightarrow> 's MempoolSync \<Rightarrow> 's MempoolSync option" where
  "unfold_sync_request_interval S rq y =
     (if sq_from rq = Some (sq_to rq) then Some y
      else unfold_from S (sq_from rq) (sq_validator rq)
             (metadata_stream S (ym_lanes y) (ym_lane_id y) (Some (sq_to rq))) y)"

definition record_reply :: "TimestampMs \<Rightarrow> ValidatorPublicKey \<Rightarrow> DataProposalHash \<Rightarrow> 's MempoolSync \<Rightarrow> 's MempoolSync" where
  "record_reply now validator dp_hash y =
     y\<lparr>ym_by_pubkey_by_dp_hash :=
         hm_insert validator
           (hm_insert dp_hash now (case map_of (ym_by_pubkey_by_dp_hash y) validator of Some r \<Rightarrow> r | None \<Rightarrow> []))
           (ym_by_pubkey_by_dp_hash y)\<rparr>"

text \<open>
  One validator of one entry; the reply goes out when the data can be read, signed and sent.
  A full channel is one that does not accept the message.
\<close>

definition reply_for ::
    "'s MempoolNode \<Rightarrow> 's MempoolSync \<Rightarrow> DataProposalHash \<Rightarrow> LaneEntryMetadata \<Rightarrow> MempoolNetMessage MsgWithHeader option" where
  "reply_for N y dp_hash metadata =
     (case sto_get_dp_by_hash (mn_storage N) (ym_lanes y) (ym_lane_id y) dp_hash of
        Inr (Some data_proposal) \<Rightarrow>
          (case mempool_sign N (NM_SyncReply metadata data_proposal) of Inr signed_reply \<Rightarrow> Some signed_reply | Inl _ \<Rightarrow> None)
      | _ \<Rightarrow> None)"

definition send_reply ::
    "'s MempoolNode \<Rightarrow> DataProposalHash \<Rightarrow> LaneEntryMetadata \<Rightarrow> ValidatorPublicKey \<Rightarrow> 's MempoolSync \<Rightarrow> 's MempoolSync" where
  "send_reply N dp_hash metadata validator y =
     (if should_throttle (mn_now N) y validator dp_hash then y
      else
        (let y' = record_reply (mn_now N) validator dp_hash y in
         case reply_for N y' dp_hash metadata of
           Some signed_reply \<Rightarrow>
             if mn_bus_accepts N (SendNet validator signed_reply) then y'\<lparr>ym_net := ym_net y' @ [(validator, signed_reply)]\<rparr>
             else add_todo dp_hash metadata validator y'
         | None \<Rightarrow> add_todo dp_hash metadata validator y'))"

definition send_replies :: "'s MempoolNode \<Rightarrow> 's MempoolSync \<Rightarrow> 's MempoolSync" where
  "send_replies N y =
     fold (\<lambda>(dp_hash, metadata, validators). fold (send_reply N dp_hash metadata) validators)
       (ym_todo y) (y\<lparr>ym_todo := []\<rparr>)"

subsection \<open>Replies\<close>

text \<open>
  A reply carries the data that is stored under the hash; a failed reply is kept for later, but the
  time of the attempt has been noted: the next tick within ten seconds drops it without a reply.
\<close>

lemma reply_for_stored:
  assumes "reply_for N y h md = Some w"
  shows "\<exists>dp. sto_get_dp_by_hash (mn_storage N) (ym_lanes y) (ym_lane_id y) h = Ok (Some dp) \<and> mw_msg w = NM_SyncReply md dp"
  using assms by (auto simp: reply_for_def mempool_sign_def ok_simps split: sum.splits option.splits)

theorem failed_reply_dropped:
  assumes "ym_todo y = [(h, md, [v])]" and "\<not> should_throttle (mn_now N) y v h" and "reply_for N y h md = None"
    and "millis_between (mn_now N') (mn_now N) \<le> 10000"
  shows "ym_todo (send_replies N y) = [(h, md, [v])] \<and>
    send_replies N' (send_replies N y) = (send_replies N y)\<lparr>ym_todo := []\<rparr> \<and> ym_net (send_replies N y) = ym_net y"
proof -
  let ?y = "add_todo h md v (record_reply (mn_now N) v h (y\<lparr>ym_todo := []\<rparr>))"
  have "reply_for N (record_reply (mn_now N) v h (y\<lparr>ym_todo := []\<rparr>)) h md = None"
    using assms(3) by (simp add: reply_for_def record_reply_def)
  then have first: "send_replies N y = ?y"
    using assms(1,2) by (simp add: send_replies_def send_reply_def should_throttle_def last_reply_def Let_def)
  have todo: "ym_todo ?y = [(h, md, [v])]" by (simp add: add_todo_def record_reply_def hs_insert_def)
  have "last_reply (?y\<lparr>ym_todo := []\<rparr>) v h = Some (mn_now N)"
    by (simp add: last_reply_def add_todo_def record_reply_def hm_simps)
  then have "should_throttle (mn_now N') (?y\<lparr>ym_todo := []\<rparr>) v h" using assms(4) by (simp add: should_throttle_def)
  then have "send_replies N' ?y = ?y\<lparr>ym_todo := []\<rparr>" by (simp add: send_replies_def todo send_reply_def)
  then show ?thesis unfolding first using todo by (simp add: add_todo_def record_reply_def)
qed

end
