(* ===== verification/Spec2Isabelle.thy ===== *)
theory Spec2Isabelle
  imports Node_State_Transactions Hydentity Amm Consensus_Votes Mempool_Cut Mempool_Sync
begin

text \<open>
  \<^bold>\<open>A verification library for the Hyli node.\<close>

  The program. Hyli is a layer 1 chain on which contracts run off chain. A user
  sends a blob transaction, a list of blobs each addressed to a contract; a proof
  of a contract then shows how the state of the contract moves for one blob. The
  node sequences both kinds of transactions in blocks, and settles a blob
  transaction once each of its blobs has a proof that applies.

  \<^bold>\<open>Node state\<close> (\<open>crates/hyle-modules/src/node_state\<close>).
  \<^item> \<open>Hyle_Model\<close>, \<open>Hyle_Block\<close>: the types of \<open>crates/hyle-model/src\<close>
    and the byte strings their digests are taken of.
  \<^item> \<open>Ordered_Tx_Map\<close>: the pending transactions (\<open>ordered_tx_map.rs\<close>), one
    queue per contract; the locale \<open>tx_store\<close> states that the queues present
    one list of transactions in order of arrival.
  \<^item> \<open>Timeouts\<close>, \<open>Contract_Registration\<close>, \<open>Native_Verifiers\<close>:
    \<open>timeouts.rs\<close>, \<open>contract_registration.rs\<close> and the native part of
    \<open>crates/hyle-verifiers\<close>.
  \<^item> \<open>Hyle_Tld\<close>: the contract \<open>hyle\<close> that the node runs itself
    (\<open>hyle_tld.rs\<close>).
  \<^item> \<open>Settlement\<close>: \<open>verify_hyle_output\<close>, \<open>process_proof\<close> and the
    search \<open>settle_blobs_recursively\<close>, with its soundness and completeness
    against the choices of one proof per blob.
  \<^item> \<open>Node_State\<close>: every other operation of \<open>node_state.rs\<close> down to
    \<open>handle_signed_block\<close>. \<open>Node_State_Proofs\<close> has the invariant of the
    store and shows that every operation returns and keeps it; the locales
    \<open>block_invariant\<close> and \<open>block_property\<close> carry a property of the single
    operations to whole blocks. \<open>Node_State_Blocks\<close> and
    \<open>Node_State_Transactions\<close> hold the properties of blocks and transactions.

  \<^bold>\<open>Contracts\<close> (\<open>crates/contract-sdk\<close>, \<open>crates/contracts\<close>).
  \<^item> \<open>Contract_Sdk\<close>: structured blobs, \<open>parse_calldata\<close> with the checks of
    callers and callees, \<open>as_hyle_output\<close> and the loop of the guest program.
    The trait \<open>ZkContract\<close> is a record of functions; the locales
    \<open>zk_contract\<close> and \<open>full_revert\<close> state what the guest program needs of a
    contract, and show that its outputs are honest runs that form a chain.
  \<^item> \<open>Ledger\<close>, \<open>Hyllar\<close>: the token, its supply and its authorisation.
  \<^item> \<open>Hydentity\<close>: accounts with a secret and a nonce.
  \<^item> \<open>Amm\<close>: the constant product exchange.
  \<^item> \<open>Staking\<close>: stakes, delegations, bonding and fees.

  \<^bold>\<open>Consensus\<close> (\<open>src/consensus.rs\<close>, \<open>src/consensus\<close>).
  \<^item> \<open>Step_Monad\<close>: methods that change \<open>self\<close>, can fail and can panic, as
    functions from a state to an optional pair of a state and a result, with
    weakest preconditions. The locale \<open>transition\<close> carries a reflexive and
    transitive relation through every such step.
  \<^item> \<open>Blst_Crypto\<close>: signatures and aggregates of validators
    (\<open>crates/hyle-crypto\<close>).
  \<^item> \<open>Consensus_Types\<close>, \<open>Consensus\<close>: the messages, the state of a round,
    every handler of the leader, follower, timeout and sync roles, and the message loop.
    What a handler sends is appended to the list \<open>cn_bus\<close>.
  \<^item> \<open>Consensus_Safety\<close>: certificates intersect, commits are certified and
    rounds move forward. \<open>Consensus_Progress\<close>: no event makes the node
    panic or loop. \<open>Consensus_Votes\<close>: votes are justified, the certificates
    of a leader are accepted, and two weaknesses: a certificate of votes passes
    as a commit certificate, and a follower votes again for a second proposal.

  \<^bold>\<open>Mempool\<close> (\<open>src/mempool.rs\<close>, \<open>src/mempool\<close>).
  Every validator has a lane, a chain of data proposals; the other validators
  store its proposals and vote for them, and a leader collects the certified
  entries of the lanes in the cut of a slot.
  \<^item> \<open>Mempool_Storage\<close>: the trait of the lane storage (\<open>storage.rs\<close>) as a
    record of methods, and the methods the trait provides over them. The locale
    \<open>lane_storage\<close> states what an implementation promises;
    \<open>Mempool_Lanes\<close> has the two implementations, in memory and on a
    key-value store, as its interpretations.
  \<^item> \<open>Mempool\<close>: the own lane (\<open>own_lane.rs\<close>), the proposals of the others
    (\<open>verify_tx.rs\<close>), the blocks built from committed cuts
    (\<open>block_construction.rs\<close>), the handlers and the event loop
    (\<open>module.rs\<close>). A spawned task is a value until an event joins it; what a
    handler sends is appended to \<open>mp_bus\<close>.
  \<^item> \<open>Mempool_Sync\<close>: the replies to sync requests
    (\<open>sync_request_reply.rs\<close>).
  \<^item> \<open>Mempool_Blocks\<close>, \<open>Mempool_Runs\<close>: a built block is complete, and a
    run builds one block per committed slot. The locale \<open>mempool_transition\<close>
    carries a relation from the primitive updates to the event loop.
  \<^item> \<open>Mempool_Votes\<close>: data is stored under its hash, votes are backed by
    stored entries, and the next proposal of the own lane; a cached vote is
    resent without its entry, and claimed outputs are not compared with proofs.
  \<^item> \<open>Mempool_Cut\<close>: the cut of the mempool passes the checks of
    \<open>Consensus\<close>; a lane without stake spoils it, and a sync reply can stop it.
  \<^item> \<open>Mempool_Sample\<close>: a small mempool for the witnesses.

  \<^bold>\<open>Conventions.\<close> Fixed-width integers are words and wrap as in a release
  build; \<open>usize\<close> is \<open>nat\<close>. A panic and an endless loop are both
  \<open>None\<close>, so a theorem that a function returns excludes both. Error messages of
  the node state are constructors of an error type, and strings in the contracts,
  where they reach the output. \<open>HashMap\<close> is an association list with
  distinct keys, \<open>BTreeMap\<close> a sorted one. Digests, curves, borsh, JSON and the
  environment are parameters (\<open>Env\<close>, \<open>SdkEnv\<close>, \<open>Json\<close> and readers).
  No fuel is used: the loops of the node state end by a measure, and the loop over
  a queue of a deleted contract is a \<open>partial_function\<close> shown to return. The
  walks along a lane are partial functions as well, since a lane can be cyclic;
  the cleaning of a lane is shown to return.

  \<^bold>\<open>Not modelled.\<close> Sockets, the message bus, REST handlers, files, the SQL
  indexer, metrics, the provers and verifiers of risc0, sp1 and noir, and the
  command line tools are input and output or external programs.
\<close>

end
